(* ===== verification/Sys_Prelude.thy ===== *)
theory Sys_Prelude
  imports Complex_Main "HOL-Library.Word"
begin

text \<open>
  Shared vocabulary of the development. Every fallible Rust function that touches
  nothing outside its arguments returns a sum: \<open>Inl\<close> carries the \<open>Err\<close> value, \<open>Inr\<close> the
  \<open>Ok\<close> value. A function that also talks to a device, a file system or a clock threads
  the outside world \<open>'s\<close> explicitly and has the type \<open>('s, 'e, 'a) io\<close>: it answers
  \<open>None\<close> when it never returns, and otherwise the result together with the new world.
  The Rust operator \<open>?\<close> is \<open>bind_res\<close> on plain results and \<open>io_bind\<close> on effects.
\<close>

unbundle bit_operations_syntax

type_synonym byte = "8 word"
type_synonym u8 = "8 word"
type_synonym u16 = "16 word"
type_synonym u32 = "32 word"
type_synonym ('e, 'a) res = "'e + 'a"
type_synonym ('s, 'e, 'a) io = "'s \<Rightarrow> (('e, 'a) res \<times> 's) option"

named_theorems io_simps "unfolding the effect combinators"
named_theorems io_keeps "effects that keep a property of the outside world"
named_theorems io_total "effects that always return"
named_theorems io_yields "properties of results"
named_theorems str_simps "facts about byte strings"
named_theorems str_len "length bounds of the string functions, for termination proofs"

section \<open>Results\<close>

definition bind_res :: "('e, 'a) res \<Rightarrow> ('a \<Rightarrow> ('e, 'b) res) \<Rightarrow> ('e, 'b) res" where
  "bind_res r k = (case r of Inl e \<Rightarrow> Inl e | Inr x \<Rightarrow> k x)"

lemma bind_res_simps [simp]:
  "bind_res (Inl e) k = Inl e"
  "bind_res (Inr x) k = k x"
  by (simp_all add: bind_res_def)

lemma bind_res_eq_Inr [simp]: "bind_res r k = Inr y \<longleftrightarrow> (\<exists>x. r = Inr x \<and> k x = Inr y)"
  by (cases r) auto

lemma bind_res_cong [fundef_cong]:
  "r = r' \<Longrightarrow> (\<And>x. r' = Inr x \<Longrightarrow> k x = k' x) \<Longrightarrow> bind_res r k = bind_res r' k'"
  by (cases r') auto

text \<open>\<open>option.ok_or(e)\<close> and \<open>result.map_err(f)\<close>.\<close>

definition ok_or :: "'e \<Rightarrow> 'a option \<Rightarrow> ('e, 'a) res" where
  "ok_or e x = (case x of None \<Rightarrow> Inl e | Some v \<Rightarrow> Inr v)"

lemma ok_or_simps [simp]: "ok_or e None = Inl e" "ok_or e (Some v) = Inr v"
  by (simp_all add: ok_or_def)

lemma ok_or_eq_Inr [simp]: "ok_or e x = Inr v \<longleftrightarrow> x = Some v"
  by (cases x) auto

fun map_err :: "('e \<Rightarrow> 'f) \<Rightarrow> ('e, 'a) res \<Rightarrow> ('f, 'a) res" where
  "map_err f (Inl e) = Inl (f e)"
| "map_err f (Inr x) = Inr x"

lemma map_err_eq_Inr [simp]: "map_err f r = Inr x \<longleftrightarrow> r = Inr x"
  by (cases r) auto

lemma Inr_eq_map_err [simp]: "Inr x = map_err f r \<longleftrightarrow> r = Inr x"
  by (cases r) auto

fun is_ok :: "('e, 'a) res \<Rightarrow> bool" where
  "is_ok (Inl e) = False"
| "is_ok (Inr x) = True"

lemma is_ok_iff: "is_ok r \<longleftrightarrow> (\<exists>x. r = Inr x)"
  by (cases r) auto

text \<open>\<open>iter.map(f).collect::<Result<Vec<_>, _>>()\<close>: the first error, or all values in order.\<close>

fun map_res :: "('a \<Rightarrow> ('e, 'b) res) \<Rightarrow> 'a list \<Rightarrow> ('e, 'b list) res" where
  "map_res f [] = Inr []"
| "map_res f (x # xs) = bind_res (f x) (\<lambda>y. bind_res (map_res f xs) (\<lambda>ys. Inr (y # ys)))"

lemma map_res_Inr_iff:
  "map_res f xs = Inr ys \<longleftrightarrow> list_all2 (\<lambda>x y. f x = Inr y) xs ys"
proof (induction xs arbitrary: ys)
  case Nil
  then show ?case by (cases ys) auto
next
  case (Cons x xs)
  then show ?case by (cases ys) auto
qed

lemma map_res_length: "map_res f xs = Inr ys \<Longrightarrow> length ys = length xs"
  by (simp add: map_res_Inr_iff list_all2_lengthD)

lemma map_res_nth: "map_res f xs = Inr ys \<Longrightarrow> i < length xs \<Longrightarrow> f (xs ! i) = Inr (ys ! i)"
  by (auto simp: map_res_Inr_iff dest: list_all2_nthD)

lemma map_res_total: "(\<And>x. x \<in> set xs \<Longrightarrow> f x = Inr (g x)) \<Longrightarrow> map_res f xs = Inr (map g xs)"
  by (induction xs) auto

lemma map_res_ex: "(\<exists>ys. map_res f xs = Inr ys) \<longleftrightarrow> (\<forall>x \<in> set xs. \<exists>y. f x = Inr y)"
  by (induction xs) auto

lemma map_res_set: "map_res f xs = Inr ys \<Longrightarrow> y \<in> set ys \<longleftrightarrow> (\<exists>x \<in> set xs. f x = Inr y)"
  by (induction xs arbitrary: ys) auto

text \<open>A \<open>for\<close> loop whose body only checks: it stops at the first \<open>Err\<close>.\<close>

fun each_res :: "('a \<Rightarrow> ('e, unit) res) \<Rightarrow> 'a list \<Rightarrow> ('e, unit) res" where
  "each_res f [] = Inr ()"
| "each_res f (x # xs) = bind_res (f x) (\<lambda>_. each_res f xs)"

lemma each_res_Inr [simp]: "each_res f xs = Inr () \<longleftrightarrow> (\<forall>x \<in> set xs. f x = Inr ())"
  by (induction xs) auto

text \<open>A \<open>for\<close> loop over a mutable accumulator.\<close>

fun fold_res :: "('b \<Rightarrow> 'a \<Rightarrow> ('e, 'b) res) \<Rightarrow> 'b \<Rightarrow> 'a list \<Rightarrow> ('e, 'b) res" where
  "fold_res f b [] = Inr b"
| "fold_res f b (x # xs) = bind_res (f b x) (\<lambda>b'. fold_res f b' xs)"

text \<open>Bytes as numbers.\<close>

lemma u8_less [simp]: "unat (b :: u8) < 256"
  using unsigned_less [of b] by simp

text \<open>\<open>slice.get(i)\<close>.\<close>

definition list_get :: "'a list \<Rightarrow> nat \<Rightarrow> 'a option" where
  "list_get xs i = (if i < length xs then Some (xs ! i) else None)"

lemma list_get_Some [simp]: "list_get xs i = Some x \<longleftrightarrow> i < length xs \<and> xs ! i = x"
  by (auto simp: list_get_def)

lemma list_get_None [simp]: "list_get xs i = None \<longleftrightarrow> length xs \<le> i"
  by (auto simp: list_get_def)

text \<open>Collecting options.\<close>

lemma those_map_Some: "(\<And>x. x \<in> set xs \<Longrightarrow> f x = Some (g x)) \<Longrightarrow> those (map f xs) = Some (map g xs)"
  by (induction xs) simp_all

text \<open>Lists of equally long rows, and the only element that passes a filter.\<close>

lemma concat_nth_uniform:
  "(\<And>r. r \<in> set rows \<Longrightarrow> length r = n) \<Longrightarrow> i < n \<Longrightarrow> l < length rows \<Longrightarrow>
     concat rows ! (l * n + i) = rows ! l ! i"
proof (induction rows arbitrary: l)
  case Nil
  then show ?case by simp
next
  case (Cons r rows)
  then show ?case by (cases l) (auto simp: nth_append)
qed

lemma concat_length_uniform:
  "(\<And>r. r \<in> set rows \<Longrightarrow> length r = n) \<Longrightarrow> length (concat rows) = length rows * n"
  by (induction rows) auto

lemma filter_upt_single:
  "filter Q [0..<m] = [i] \<longleftrightarrow> i < m \<and> Q i \<and> (\<forall>j < m. Q j \<longrightarrow> j = i)" (is "?l \<longleftrightarrow> ?r")
proof
  assume l: ?l
  have "set (filter Q [0..<m]) = {i}" by (simp only: l list.set)
  then show ?r by (auto simp: set_eq_iff)
next
  assume r: ?r
  then have "set (filter Q [0..<m]) = {i}" by auto
  moreover have "distinct (filter Q [0..<m])" by simp
  ultimately show ?l
    by (metis card.empty card.insert distinct_card empty_iff finite.emptyI insert_iff length_0_conv
      length_Suc_conv list.set_intros(1))
qed

lemma filter_enumerate:
  "filter (\<lambda>(_, x). P x) (enumerate 0 xs) =
     map (\<lambda>i. (i, xs ! i)) (filter (\<lambda>i. P (xs ! i)) [0..<length xs])"
proof -
  have "enumerate 0 xs = map (\<lambda>i. (i, xs ! i)) [0..<length xs]"
    by (rule nth_equalityI) (simp_all add: nth_enumerate_eq)
  then show ?thesis by (simp add: filter_map o_def)
qed

text \<open>\<open>Iterator::min_by_key\<close>: the first element with the least key.\<close>

fun min_by_key :: "('a \<Rightarrow> 'k::linorder) \<Rightarrow> 'a list \<Rightarrow> 'a option" where
  "min_by_key f [] = None"
| "min_by_key f (x # xs) =
     (case min_by_key f xs of None \<Rightarrow> Some x | Some y \<Rightarrow> Some (if f y < f x then y else x))"

lemma min_by_key_None [simp]: "min_by_key f xs = None \<longleftrightarrow> xs = []"
  by (cases xs) (auto split: option.splits)

lemma min_by_key_in: "min_by_key f xs = Some x \<Longrightarrow> x \<in> set xs"
  by (induction xs arbitrary: x) (auto split: option.splits if_splits)

lemma min_by_key_least: "min_by_key f xs = Some x \<Longrightarrow> y \<in> set xs \<Longrightarrow> f x \<le> f y"
  by (induction xs arbitrary: x y) (fastforce split: option.splits if_splits)+

section \<open>Effects\<close>

definition io_return :: "'a \<Rightarrow> ('s, 'e, 'a) io" where
  "io_return x s = Some (Inr x, s)"

definition io_fail :: "'e \<Rightarrow> ('s, 'e, 'a) io" where
  "io_fail e s = Some (Inl e, s)"

definition io_lift :: "('e, 'a) res \<Rightarrow> ('s, 'e, 'a) io" where
  "io_lift r s = Some (r, s)"

definition io_bind :: "('s, 'e, 'a) io \<Rightarrow> ('a \<Rightarrow> ('s, 'e, 'b) io) \<Rightarrow> ('s, 'e, 'b) io" where
  "io_bind m k s = (case m s of
     None \<Rightarrow> None
   | Some (Inl e, s') \<Rightarrow> Some (Inl e, s')
   | Some (Inr x, s') \<Rightarrow> k x s')"

text \<open>A call whose \<open>Result\<close> is inspected by a \<open>match\<close> instead of being passed on by \<open>?\<close>.\<close>

definition io_try :: "('s, 'e, 'a) io \<Rightarrow> ('s, 'f, ('e, 'a) res) io" where
  "io_try m s = (case m s of None \<Rightarrow> None | Some (r, s') \<Rightarrow> Some (Inr r, s'))"

definition io_map_err :: "('e \<Rightarrow> 'f) \<Rightarrow> ('s, 'e, 'a) io \<Rightarrow> ('s, 'f, 'a) io" where
  "io_map_err f m s = (case m s of None \<Rightarrow> None | Some (r, s') \<Rightarrow> Some (map_err f r, s'))"

text \<open>A call into the outside world that always returns.\<close>

definition io_call :: "('s \<Rightarrow> ('e, 'a) res \<times> 's) \<Rightarrow> ('s, 'e, 'a) io" where
  "io_call f s = Some (f s)"

definition io_read :: "('s \<Rightarrow> 'a \<times> 's) \<Rightarrow> ('s, 'e, 'a) io" where
  "io_read f s = (let (x, s') = f s in Some (Inr x, s'))"

lemma io_return_app [io_simps]: "io_return x s = Some (Inr x, s)"
  by (simp add: io_return_def)

lemma io_fail_app [io_simps]: "io_fail e s = Some (Inl e, s)"
  by (simp add: io_fail_def)

lemma io_lift_app [io_simps]: "io_lift r s = Some (r, s)"
  by (simp add: io_lift_def)

lemma io_call_app [io_simps]: "io_call f s = Some (f s)"
  by (simp add: io_call_def)

lemma io_read_app [io_simps]: "f s = (x, s') \<Longrightarrow> io_read f s = Some (Inr x, s')"
  by (simp add: io_read_def)

lemma io_bind_step [io_simps]:
  "m s = None \<Longrightarrow> io_bind m k s = None"
  "m s = Some (Inl e, s') \<Longrightarrow> io_bind m k s = Some (Inl e, s')"
  "m s = Some (Inr x, s') \<Longrightarrow> io_bind m k s = k x s'"
  by (simp_all add: io_bind_def)

lemma io_try_step [io_simps]:
  "m s = Some (r, s') \<Longrightarrow> io_try m s = Some (Inr r, s')"
  by (simp add: io_try_def)

lemma io_map_err_step [io_simps]:
  "m s = Some (r, s') \<Longrightarrow> io_map_err f m s = Some (map_err f r, s')"
  by (simp add: io_map_err_def)

lemma io_bind_eq_ok:
  "io_bind m k s = Some (Inr y, s'') \<longleftrightarrow>
     (\<exists>x s'. m s = Some (Inr x, s') \<and> k x s' = Some (Inr y, s''))"
  by (auto simp: io_bind_def split: option.splits sum.splits prod.splits)

lemma io_bind_eq_Some:
  "io_bind m k s = Some (r, s'') \<longleftrightarrow>
     (\<exists>e. m s = Some (Inl e, s'') \<and> r = Inl e) \<or>
     (\<exists>x s'. m s = Some (Inr x, s') \<and> k x s' = Some (r, s''))"
  by (auto simp: io_bind_def split: option.splits sum.splits prod.splits)

lemma io_try_eq_Some:
  "io_try m s = Some (r, s') \<longleftrightarrow> (\<exists>q. m s = Some (q, s') \<and> r = Inr q)"
  by (auto simp: io_try_def split: option.splits)

lemma io_map_err_eq_Some:
  "io_map_err f m s = Some (r, s') \<longleftrightarrow> (\<exists>q. m s = Some (q, s') \<and> r = map_err f q)"
  by (auto simp: io_map_err_def split: option.splits)

text \<open>\<open>for\<close> loops and \<open>collect\<close> over effectful bodies.\<close>

fun io_map :: "('a \<Rightarrow> ('s, 'e, 'b) io) \<Rightarrow> 'a list \<Rightarrow> ('s, 'e, 'b list) io" where
  "io_map f [] = io_return []"
| "io_map f (x # xs) = io_bind (f x) (\<lambda>y. io_bind (io_map f xs) (\<lambda>ys. io_return (y # ys)))"

fun io_fold :: "('b \<Rightarrow> 'a \<Rightarrow> ('s, 'e, 'b) io) \<Rightarrow> 'b \<Rightarrow> 'a list \<Rightarrow> ('s, 'e, 'b) io" where
  "io_fold f b [] = io_return b"
| "io_fold f b (x # xs) = io_bind (f b x) (\<lambda>b'. io_fold f b' xs)"

text \<open>An effect that always returns, in whatever state of the world it starts.\<close>

definition total :: "('s, 'e, 'a) io \<Rightarrow> bool" where
  "total m \<longleftrightarrow> (\<forall>s. \<exists>r s'. m s = Some (r, s'))"

lemma total_basic [io_total]:
  "total (io_return x)" "total (io_fail e)" "total (io_lift r)" "total (io_call f)"
  by (auto simp: total_def io_return_def io_fail_def io_lift_def io_call_def)

lemma total_bind [io_total]:
  assumes "total m" and "\<And>x. total (k x)"
  shows "total (io_bind m k)"
  unfolding total_def
proof
  fix s
  obtain r s1 where m: "m s = Some (r, s1)" using assms(1) unfolding total_def by blast
  show "\<exists>r s'. io_bind m k s = Some (r, s')"
    using assms(2) m by (cases r) (auto simp: io_bind_def total_def)
qed

lemma total_if [io_total]: "total m \<Longrightarrow> total n \<Longrightarrow> total (if b then m else n)"
  by simp

lemma total_map_err [io_total]:
  assumes "total m"
  shows "total (io_map_err f m)"
  unfolding total_def
proof
  fix s
  obtain r s1 where "m s = Some (r, s1)" using assms unfolding total_def by blast
  then show "\<exists>r s'. io_map_err f m s = Some (r, s')" by (simp add: io_map_err_def)
qed

lemma total_try [io_total]:
  assumes "total m"
  shows "total (io_try m)"
  unfolding total_def
proof
  fix s
  obtain r s1 where "m s = Some (r, s1)" using assms unfolding total_def by blast
  then show "\<exists>r s'. io_try m s = Some (r, s')" by (simp add: io_try_def)
qed

lemma total_fold [io_total]:
  "(\<And>b x. x \<in> set xs \<Longrightarrow> total (f b x)) \<Longrightarrow> total (io_fold f b xs)"
  by (induction xs arbitrary: b) (simp_all add: io_total)

lemma total_map [io_total]: "(\<And>x. x \<in> set xs \<Longrightarrow> total (f x)) \<Longrightarrow> total (io_map f xs)"
  by (induction xs) (simp_all add: io_total)

text \<open>A property of the outside world that an effect keeps, however it ends.\<close>

definition preserves :: "('s \<Rightarrow> bool) \<Rightarrow> ('s, 'e, 'a) io \<Rightarrow> bool" where
  "preserves I m \<longleftrightarrow> (\<forall>s r s'. I s \<longrightarrow> m s = Some (r, s') \<longrightarrow> I s')"

lemma preservesD: "preserves I m \<Longrightarrow> m s = Some (r, s') \<Longrightarrow> I s \<Longrightarrow> I s'"
  by (auto simp: preserves_def)

lemma preserves_basic [io_keeps]:
  "preserves I (io_return x)" "preserves I (io_fail e)" "preserves I (io_lift r)"
  by (auto simp: preserves_def io_return_def io_fail_def io_lift_def)

lemma preserves_bind [io_keeps]:
  "preserves I m \<Longrightarrow> (\<And>x. preserves I (k x)) \<Longrightarrow> preserves I (io_bind m k)"
  unfolding preserves_def io_bind_eq_Some by blast

lemma preserves_if [io_keeps]:
  "preserves I m \<Longrightarrow> preserves I n \<Longrightarrow> preserves I (if b then m else n)"
  by simp

lemma preserves_map_err [io_keeps]: "preserves I m \<Longrightarrow> preserves I (io_map_err f m)"
  unfolding preserves_def io_map_err_eq_Some by blast

lemma preserves_try [io_keeps]: "preserves I m \<Longrightarrow> preserves I (io_try m)"
  unfolding preserves_def io_try_eq_Some by blast

lemma preserves_fold [io_keeps]:
  "(\<And>b x. x \<in> set xs \<Longrightarrow> preserves I (f b x)) \<Longrightarrow> preserves I (io_fold f b xs)"
  by (induction xs arbitrary: b) (simp_all add: io_keeps)

lemma preserves_map [io_keeps]:
  "(\<And>x. x \<in> set xs \<Longrightarrow> preserves I (f x)) \<Longrightarrow> preserves I (io_map f xs)"
  by (induction xs) (simp_all add: io_keeps)

text \<open>A property of the result of an effect, whenever it returns.\<close>

definition yields :: "(('e, 'a) res \<Rightarrow> bool) \<Rightarrow> ('s, 'e, 'a) io \<Rightarrow> bool" where
  "yields P m \<longleftrightarrow> (\<forall>s r s'. m s = Some (r, s') \<longrightarrow> P r)"

lemma yieldsD: "yields P m \<Longrightarrow> m s = Some (r, s') \<Longrightarrow> P r"
  by (auto simp: yields_def)

lemma yields_return [io_yields]: "P (Inr x) \<Longrightarrow> yields P (io_return x)"
  by (simp add: yields_def io_return_def)

lemma yields_fail [io_yields]: "P (Inl e) \<Longrightarrow> yields P (io_fail e)"
  by (simp add: yields_def io_fail_def)

lemma yields_if [io_yields]:
  "(b \<Longrightarrow> yields P m) \<Longrightarrow> (\<not> b \<Longrightarrow> yields P n) \<Longrightarrow> yields P (if b then m else n)"
  by simp

lemma yields_sum [io_yields]:
  "(\<And>e. x = Inl e \<Longrightarrow> yields P (f e)) \<Longrightarrow> (\<And>y. x = Inr y \<Longrightarrow> yields P (g y)) \<Longrightarrow>
   yields P (case x of Inl e \<Rightarrow> f e | Inr y \<Rightarrow> g y)"
  by (simp split: sum.splits)

lemma yields_try_bind [io_yields]:
  "(\<And>x. yields P (k x)) \<Longrightarrow> yields P (io_bind (io_try m) k)"
  unfolding yields_def io_bind_eq_Some io_try_eq_Some by blast

lemma yields_bind:
  "yields Q m \<Longrightarrow> (\<And>e. Q (Inl e) \<Longrightarrow> P (Inl e)) \<Longrightarrow> (\<And>x. Q (Inr x) \<Longrightarrow> yields P (k x)) \<Longrightarrow>
   yields P (io_bind m k)"
  unfolding yields_def io_bind_eq_Some by blast

text \<open>
  \<open>loop\<close> and \<open>while\<close>: a body that either breaks with a result or goes on with the loop's
  local variables. A loop that never breaks has no value.
\<close>

partial_function (option) io_loop ::
  "('n \<Rightarrow> 's \<Rightarrow> ('r + 'n) \<times> 's) \<Rightarrow> 'n \<Rightarrow> 's \<Rightarrow> ('r \<times> 's) option" where
  "io_loop body n s =
    (case body n s of
       (Inl r, s') \<Rightarrow> Some (r, s')
     | (Inr n', s') \<Rightarrow> io_loop body n' s')"

declare io_loop.simps [code]

lemma io_loop_rule:
  assumes loop: "io_loop body n s = Some (r, s')" and I: "I n s"
    and step: "\<And>n s n' s'. I n s \<Longrightarrow> body n s = (Inr n', s') \<Longrightarrow> I n' s'"
    and stop: "\<And>n s r s'. I n s \<Longrightarrow> body n s = (Inl r, s') \<Longrightarrow> Q r s'"
  shows "Q r s'"
proof -
  have "b = body \<longrightarrow> I n s \<longrightarrow> Q (fst q) (snd q)" if "io_loop b n s = Some q" for b q
    using that
  proof (rule io_loop.raw_induct [where P = "\<lambda>b n s q. b = body \<longrightarrow> I n s \<longrightarrow> Q (fst q) (snd q)", rotated])
    fix f b n s q
    assume IH: "\<And>b n s q. f b n s = Some q \<Longrightarrow> b = body \<longrightarrow> I n s \<longrightarrow> Q (fst q) (snd q)"
      and eq: "(case b n s of (Inl r, s') \<Rightarrow> Some (r, s') | (Inr n', s') \<Rightarrow> f b n' s') = Some q"
    show "b = body \<longrightarrow> I n s \<longrightarrow> Q (fst q) (snd q)"
      using eq IH step stop by (auto split: prod.splits sum.splits)
  qed
  from this [OF loop] I show ?thesis by simp
qed
lemma io_loop_returns:
  assumes "I n s"
    and "\<And>n s n' s'. I n s \<Longrightarrow> body n s = (Inr n', s') \<Longrightarrow> I n' s' \<and> (m n' s' :: nat) < m n s"
  shows "\<exists>r s'. io_loop body n s = Some (r, s')"
  using assms(1)
proof (induction "m n s" arbitrary: n s rule: less_induct)
  case less
  obtain out s1 where b: "body n s = (out, s1)" by fastforce
  show ?case
  proof (cases out)
    case (Inl r)
    then show ?thesis by (simp add: io_loop.simps b)
  next
    case (Inr n')
    then have "I n' s1 \<and> m n' s1 < m n s" using assms(2) [OF less.prems] b by simp
    then show ?thesis using less.hyps [of n' s1] Inr by (simp add: io_loop.simps [of body n s] b)
  qed
qed

section \<open>Event machines\<close>

text \<open>
  Every long-running component of the repository is driven by events: one step function,
  an invariant that each step keeps, and runs over event lists. The consequences are
  proved once here.
\<close>

locale event_machine =
  fixes step :: "'s \<Rightarrow> 'e \<Rightarrow> 's"
    and inv :: "'s \<Rightarrow> bool"
  assumes step_inv: "inv s \<Longrightarrow> inv (step s e)"
begin

lemma run_inv: "inv s \<Longrightarrow> inv (foldl step s es)"
  by (induction es arbitrary: s) (auto intro: step_inv)

lemma run_prefix_inv: "inv s \<Longrightarrow> inv (foldl step s (take n es))"
  by (rule run_inv)

end

section \<open>Codecs\<close>

text \<open>
  A codec is an encoder with a decoder that recovers every valid value. Several parts of
  the program are such pairs: the integers of a HID report, the VIA macro buffer, the
  rows of the editor's hold selector.
\<close>

locale codec =
  fixes enc :: "'a \<Rightarrow> 'b"
    and dec :: "'b \<Rightarrow> 'a option"
    and valid :: "'a \<Rightarrow> bool"
  assumes dec_enc: "valid x \<Longrightarrow> dec (enc x) = Some x"
begin

lemma enc_inj: "valid x \<Longrightarrow> valid y \<Longrightarrow> enc x = enc y \<Longrightarrow> x = y"
  by (metis dec_enc option.inject)

lemma enc_inj_on: "inj_on enc {x. valid x}"
  by (auto intro: inj_onI enc_inj)

end

end
