(* ===== verification/Rust_Strings.thy ===== *)
theory Rust_Strings
  imports Sys_Prelude "HOL-Library.Char_ord" "HOL-Library.List_Lexorder" "HOL-Library.Product_Lexorder"
begin

text \<open>
  Rust's \<open>String\<close> and \<open>&str\<close>: a sequence of UTF-8 bytes, here a list of 8-bit characters, so
  \<open>length\<close> is the byte length that \<open>str::len\<close> returns and slices are byte slices. The
  functions below are the standard-library calls the four programs use. Trimming knows
  the UTF-8 encodings of every character with the Unicode property \<open>White_Space\<close>, which is
  what \<open>char::is_whitespace\<close> tests.
\<close>

section \<open>ASCII characters\<close>

definition code :: "char \<Rightarrow> nat" where
  "code c = of_char c"

lemma code_char [simp]:
  "code (Char b0 b1 b2 b3 b4 b5 b6 b7) = of_char (Char b0 b1 b2 b3 b4 b5 b6 b7)"
  by (simp add: code_def)

lemma code_inj [simp]: "code c = code d \<longleftrightarrow> c = d"
  by (simp add: code_def)

lemma code_less [simp]: "code c < 256"
  by (simp add: code_def)

definition is_upper :: "char \<Rightarrow> bool" where "is_upper c \<longleftrightarrow> 65 \<le> code c \<and> code c \<le> 90"
definition is_lower :: "char \<Rightarrow> bool" where "is_lower c \<longleftrightarrow> 97 \<le> code c \<and> code c \<le> 122"
definition is_digit :: "char \<Rightarrow> bool" where "is_digit c \<longleftrightarrow> 48 \<le> code c \<and> code c \<le> 57"
definition is_alnum :: "char \<Rightarrow> bool" where
  "is_alnum c \<longleftrightarrow> is_upper c \<or> is_lower c \<or> is_digit c"
definition is_ascii :: "char \<Rightarrow> bool" where "is_ascii c \<longleftrightarrow> code c < 128"

definition lower_char :: "char \<Rightarrow> char" where
  "lower_char c = (if is_upper c then char_of (code c + 32) else c)"
definition upper_char :: "char \<Rightarrow> char" where
  "upper_char c = (if is_lower c then char_of (code c - 32) else c)"

definition to_ascii_lowercase :: "string \<Rightarrow> string" where "to_ascii_lowercase s = map lower_char s"
definition to_ascii_uppercase :: "string \<Rightarrow> string" where "to_ascii_uppercase s = map upper_char s"
definition eq_ignore_ascii_case :: "string \<Rightarrow> string \<Rightarrow> bool" where
  "eq_ignore_ascii_case s t \<longleftrightarrow> to_ascii_lowercase s = to_ascii_lowercase t"

lemmas char_class_defs = is_upper_def is_lower_def is_digit_def is_alnum_def is_ascii_def

text \<open>Printable ASCII without the blank: these bytes occur in no whitespace encoding.\<close>

definition is_graph :: "char \<Rightarrow> bool" where "is_graph c \<longleftrightarrow> 33 \<le> code c \<and> code c \<le> 126"

lemma alnum_graph: "is_alnum c \<Longrightarrow> is_graph c"
  by (auto simp: is_graph_def char_class_defs)

lemma eq_ignore_ascii_case_refl [simp]: "eq_ignore_ascii_case s s"
  by (simp add: eq_ignore_ascii_case_def)

lemma eq_ignore_ascii_case_sym: "eq_ignore_ascii_case s t \<Longrightarrow> eq_ignore_ascii_case t s"
  by (simp add: eq_ignore_ascii_case_def)

section \<open>Prefixes, suffixes, splitting\<close>

definition strip_prefix :: "string \<Rightarrow> string \<Rightarrow> string option" where
  "strip_prefix p s = (if take (length p) s = p then Some (drop (length p) s) else None)"

definition strip_suffix :: "string \<Rightarrow> string \<Rightarrow> string option" where
  "strip_suffix p s = map_option rev (strip_prefix (rev p) (rev s))"

definition starts_with :: "string \<Rightarrow> string \<Rightarrow> bool" where
  "starts_with s p \<longleftrightarrow> strip_prefix p s \<noteq> None"

definition ends_with :: "string \<Rightarrow> string \<Rightarrow> bool" where
  "ends_with s p \<longleftrightarrow> strip_suffix p s \<noteq> None"

lemma strip_prefix_Some: "strip_prefix p s = Some r \<longleftrightarrow> s = p @ r"
  by (auto simp: strip_prefix_def append_eq_conv_conj) (metis append_take_drop_id)

lemma strip_prefix_append [simp]: "strip_prefix p (p @ r) = Some r"
  by (simp add: strip_prefix_def)

lemma strip_suffix_Some: "strip_suffix p s = Some r \<longleftrightarrow> s = r @ p"
  by (auto simp: strip_suffix_def strip_prefix_Some) (metis rev_append rev_rev_ident)+

lemma strip_suffix_append [simp]: "strip_suffix p (r @ p) = Some r"
  by (simp add: strip_suffix_Some)

lemma starts_with_iff: "starts_with s p \<longleftrightarrow> (\<exists>r. s = p @ r)"
  by (auto simp: starts_with_def strip_prefix_Some)

lemma ends_with_iff: "ends_with s p \<longleftrightarrow> (\<exists>r. s = r @ p)"
  by (auto simp: ends_with_def strip_suffix_Some)

text \<open>\<open>str::split_once(c)\<close> and \<open>str::split(c)\<close> for a one-byte character.\<close>

fun split_once :: "char \<Rightarrow> string \<Rightarrow> (string \<times> string) option" where
  "split_once c [] = None"
| "split_once c (x # xs) =
     (if x = c then Some ([], xs)
      else map_option (\<lambda>(a, b). (x # a, b)) (split_once c xs))"

fun split_on :: "char \<Rightarrow> string \<Rightarrow> string list" where
  "split_on c [] = [[]]"
| "split_on c (x # xs) =
     (if x = c then [] # split_on c xs
      else (case split_on c xs of [] \<Rightarrow> [[x]] | y # ys \<Rightarrow> (x # y) # ys))"

lemma split_on_not_Nil [simp]: "split_on c s \<noteq> []"
  by (cases s) (auto split: list.splits)

lemma split_once_Some:
  "split_once c s = Some (a, b) \<longleftrightarrow> c \<notin> set a \<and> s = a @ c # b"
proof (induction s arbitrary: a)
  case Nil
  then show ?case by simp
next
  case (Cons x xs)
  show ?case
  proof (cases "x = c")
    case True
    then show ?thesis by (cases a) auto
  next
    case False
    then show ?thesis
      by (cases a) (auto simp: Cons.IH split: prod.splits)
  qed
qed

lemma split_once_None: "split_once c s = None \<longleftrightarrow> c \<notin> set s"
  by (induction s) auto

lemma split_once_append [simp]: "c \<notin> set a \<Longrightarrow> split_once c (a @ c # b) = Some (a, b)"
  by (simp add: split_once_Some)

lemma split_on_no_sep: "c \<notin> set s \<Longrightarrow> split_on c s = [s]"
  by (induction s) auto

lemma split_on_append: "c \<notin> set a \<Longrightarrow> split_on c (a @ c # b) = a # split_on c b"
  by (induction a) auto

lemma split_on_length [str_len]: "p \<in> set (split_on c s) \<Longrightarrow> length p \<le> length s"
proof (induction s arbitrary: p)
  case Nil
  then show ?case by simp
next
  case (Cons x xs)
  then show ?case
    by (cases "split_on c xs") (auto split: if_splits intro: le_SucI)
qed

lemma split_on_no_sep_in: "p \<in> set (split_on c s) \<Longrightarrow> c \<notin> set p"
proof (induction s arbitrary: p)
  case Nil
  then show ?case by simp
next
  case (Cons x xs)
  then show ?case by (cases "split_on c xs") (auto split: if_splits)
qed

fun join :: "string \<Rightarrow> string list \<Rightarrow> string" where
  "join sep [] = []"
| "join sep [s] = s"
| "join sep (s # t # ts) = s @ sep @ join sep (t # ts)"

lemma split_on_join:
  "ts \<noteq> [] \<Longrightarrow> (\<And>t. t \<in> set ts \<Longrightarrow> c \<notin> set t) \<Longrightarrow> split_on c (join [c] ts) = ts"
  by (induction "[c]" ts rule: join.induct) (auto simp: split_on_no_sep split_on_append)

text \<open>\<open>str::contains\<close> with a string pattern.\<close>

fun contains :: "string \<Rightarrow> string \<Rightarrow> bool" where
  "contains [] p = (p = [])"
| "contains (x # xs) p = (starts_with (x # xs) p \<or> contains xs p)"

lemma contains_iff: "contains s p \<longleftrightarrow> (\<exists>a b. s = a @ p @ b)"
proof (induction s)
  case Nil
  then show ?case by simp
next
  case (Cons x xs)
  have "(\<exists>a b. x # xs = a @ p @ b) \<longleftrightarrow> (\<exists>b. x # xs = p @ b) \<or> (\<exists>a b. xs = a @ p @ b)"
    by (metis append_Cons append_Nil list.sel(3) neq_Nil_conv)
  with Cons show ?case by (auto simp: starts_with_iff)
qed

section \<open>Whitespace\<close>

definition ws_encodings :: "string list" where
  "ws_encodings =
    [[CHR 0x09], [CHR 0x0A], [CHR 0x0B], [CHR 0x0C], [CHR 0x0D], [CHR 0x20],
     [CHR 0xC2, CHR 0x85], [CHR 0xC2, CHR 0xA0], [CHR 0xE1, CHR 0x9A, CHR 0x80],
     [CHR 0xE2, CHR 0x80, CHR 0x80], [CHR 0xE2, CHR 0x80, CHR 0x81],
     [CHR 0xE2, CHR 0x80, CHR 0x82], [CHR 0xE2, CHR 0x80, CHR 0x83],
     [CHR 0xE2, CHR 0x80, CHR 0x84], [CHR 0xE2, CHR 0x80, CHR 0x85],
     [CHR 0xE2, CHR 0x80, CHR 0x86], [CHR 0xE2, CHR 0x80, CHR 0x87],
     [CHR 0xE2, CHR 0x80, CHR 0x88], [CHR 0xE2, CHR 0x80, CHR 0x89],
     [CHR 0xE2, CHR 0x80, CHR 0x8A], [CHR 0xE2, CHR 0x80, CHR 0xA8],
     [CHR 0xE2, CHR 0x80, CHR 0xA9], [CHR 0xE2, CHR 0x80, CHR 0xAF],
     [CHR 0xE2, CHR 0x81, CHR 0x9F], [CHR 0xE3, CHR 0x80, CHR 0x80]]"

fun strip_first :: "string list \<Rightarrow> string \<Rightarrow> string option" where
  "strip_first [] s = None"
| "strip_first (w # ws) s =
     (case strip_prefix w s of Some r \<Rightarrow> Some r | None \<Rightarrow> strip_first ws s)"

lemma strip_first_Some:
  "strip_first ws s = Some r \<Longrightarrow> \<exists>w \<in> set ws. s = w @ r"
  by (induction ws) (auto simp: strip_prefix_Some split: option.splits)

lemma strip_first_None:
  "(\<And>w. w \<in> set ws \<Longrightarrow> w \<noteq> [] \<and> (s = [] \<or> hd s \<noteq> hd w)) \<Longrightarrow> strip_first ws s = None"
proof (induction ws)
  case Nil
  then show ?case by simp
next
  case (Cons w ws)
  have w: "w \<noteq> []" "s = [] \<or> hd s \<noteq> hd w" using Cons.prems by auto
  have "strip_prefix w s = None"
  proof (rule ccontr)
    assume "strip_prefix w s \<noteq> None"
    then obtain r where "s = w @ r" by (auto simp: strip_prefix_Some)
    with w show False by auto
  qed
  with Cons show ?case by simp
qed

text \<open>Stripping every leading occurrence; an empty pattern strips nothing.\<close>

function trim_by :: "string list \<Rightarrow> string \<Rightarrow> string" where
  "trim_by ws s = (case strip_first ws s of
     Some r \<Rightarrow> (if length r < length s then trim_by ws r else s)
   | None \<Rightarrow> s)"
  by pat_completeness auto
termination
  by (relation "measure (\<lambda>(ws, s). length s)") auto

declare trim_by.simps [simp del]

definition trim_start :: "string \<Rightarrow> string" where
  "trim_start s = trim_by ws_encodings s"

definition trim_end :: "string \<Rightarrow> string" where
  "trim_end s = rev (trim_by (map rev ws_encodings) (rev s))"

definition trim :: "string \<Rightarrow> string" where
  "trim s = trim_end (trim_start s)"

text \<open>\<open>str::trim_start_matches(p)\<close>.\<close>

definition trim_start_matches :: "string \<Rightarrow> string \<Rightarrow> string" where
  "trim_start_matches p s = trim_by [p] s"

lemma trim_by_length: "length (trim_by ws s) \<le> length s"
proof (induction ws s rule: trim_by.induct)
  case (1 ws s)
  show ?case
    by (subst trim_by.simps) (auto split: option.splits dest: "1.IH")
qed

lemma trim_length [str_len]: "length (trim s) \<le> length s"
  unfolding trim_def trim_end_def trim_start_def
  by (metis (no_types) length_rev order_trans trim_by_length)

lemma trim_by_fix: "strip_first ws s = None \<Longrightarrow> trim_by ws s = s"
  by (subst trim_by.simps) simp

lemma code_char_of: "n < 256 \<Longrightarrow> code (char_of n) = n"
  by (simp add: code_def)

lemma ws_encodings_ends:
  "w \<in> set ws_encodings \<Longrightarrow> w \<noteq> [] \<and> \<not> is_graph (hd w) \<and> \<not> is_graph (last w)"
  by (auto simp: ws_encodings_def is_graph_def)

lemma trim_graph:
  assumes "s = [] \<or> is_graph (hd s) \<and> is_graph (last s)"
  shows "trim s = s"
proof -
  have "strip_first ws_encodings s = None"
    by (rule strip_first_None) (use assms ws_encodings_ends in fastforce)
  then have start: "trim_start s = s"
    by (simp add: trim_start_def trim_by_fix)
  have "strip_first (map rev ws_encodings) (rev s) = None"
    by (rule strip_first_None) (use assms ws_encodings_ends in \<open>fastforce simp: hd_rev\<close>)
  then show ?thesis
    by (simp add: trim_def start trim_end_def trim_by_fix)
qed

lemma trim_all_graph [str_simps]: "(\<And>c. c \<in> set s \<Longrightarrow> is_graph c) \<Longrightarrow> trim s = s"
  by (rule trim_graph) auto

lemma trim_start_blank: "trim_start (CHR '' '' # s) = trim_start s"
proof -
  have "strip_first ws_encodings (CHR '' '' # s) = Some s"
    by (simp add: ws_encodings_def strip_prefix_def)
  then show ?thesis
    unfolding trim_start_def by (subst trim_by.simps) simp
qed

lemma trim_blank: "trim (CHR '' '' # s) = trim s"
  by (simp add: trim_def trim_start_blank)

section \<open>Numbers\<close>

text \<open>
  \<open>str::parse\<close> for the unsigned types: an optional \<open>+\<close>, then at least one digit, and the
  value must fit. Only success and the value matter to the callers.
\<close>

fun digits_value :: "int \<Rightarrow> string \<Rightarrow> int" where
  "digits_value n [] = n"
| "digits_value n (c # cs) = digits_value (10 * n + int (code c - 48)) cs"

definition parse_unsigned :: "int \<Rightarrow> string \<Rightarrow> int option" where
  "parse_unsigned limit s =
     (let ds = (case s of c # cs \<Rightarrow> if c = CHR ''+'' \<and> cs \<noteq> [] then cs else s | [] \<Rightarrow> s)
      in if ds \<noteq> [] \<and> list_all is_digit ds \<and> digits_value 0 ds < limit
         then Some (digits_value 0 ds) else None)"

definition parse_u8 :: "string \<Rightarrow> nat option" where
  "parse_u8 s = map_option nat (parse_unsigned 256 s)"
definition parse_u16 :: "string \<Rightarrow> int option" where "parse_u16 s = parse_unsigned 65536 s"

lemma digits_value_nonneg: "0 \<le> n \<Longrightarrow> 0 \<le> digits_value n ds"
  by (induction n ds rule: digits_value.induct) auto

lemma parse_u8_bound: "parse_u8 s = Some n \<Longrightarrow> n < 256"
  using digits_value_nonneg [of 0]
  by (auto simp: parse_u8_def parse_unsigned_def Let_def split: if_splits)

text \<open>\<open>{byte:02x}\<close>\<close>

definition hex_digit :: "nat \<Rightarrow> char" where
  "hex_digit n = (if n < 10 then char_of (48 + n) else char_of (87 + n))"

definition hex2 :: "byte \<Rightarrow> string" where
  "hex2 b = [hex_digit (unat b div 16), hex_digit (unat b mod 16)]"

lemma length_hex2 [simp]: "length (hex2 b) = 2"
  by (simp add: hex2_def)

end
