(* ===== verification/Hid_Transport.thy ===== *)
theory Hid_Transport
  imports Rust_Strings
begin

text \<open>
  Raw HID reports and the request/response exchange of
  \<open>packages/silakka54/sync/src/main.rs\<close>: \<open>raw_transaction\<close> sends a 32-byte report, sends it
  again every ten milliseconds, and reads until a report arrives that answers it or the
  deadline passes. The device (the trait \<open>HidTransport\<close>) and the clock are parameters.
  Times are nanoseconds.
\<close>

section \<open>The device\<close>

definition REPORT_LEN :: nat where "REPORT_LEN = 32"
definition HID_TRANSACTION_RETRY_INTERVAL :: int where "HID_TRANSACTION_RETRY_INTERVAL = 10000000"

definition ID_GET_PROTOCOL_VERSION :: byte where "ID_GET_PROTOCOL_VERSION = 0x01"
definition ID_GET_KEYBOARD_VALUE :: byte where "ID_GET_KEYBOARD_VALUE = 0x02"
definition ID_SET_KEYBOARD_VALUE :: byte where "ID_SET_KEYBOARD_VALUE = 0x03"
definition ID_DYNAMIC_KEYMAP_GET_KEYCODE :: byte where "ID_DYNAMIC_KEYMAP_GET_KEYCODE = 0x04"
definition ID_DYNAMIC_KEYMAP_SET_KEYCODE :: byte where "ID_DYNAMIC_KEYMAP_SET_KEYCODE = 0x05"
definition ID_DYNAMIC_KEYMAP_MACRO_GET_COUNT :: byte where "ID_DYNAMIC_KEYMAP_MACRO_GET_COUNT = 0x0c"
definition ID_DYNAMIC_KEYMAP_MACRO_GET_BUFFER_SIZE :: byte where
  "ID_DYNAMIC_KEYMAP_MACRO_GET_BUFFER_SIZE = 0x0d"
definition ID_DYNAMIC_KEYMAP_MACRO_GET_BUFFER :: byte where "ID_DYNAMIC_KEYMAP_MACRO_GET_BUFFER = 0x0e"
definition ID_DYNAMIC_KEYMAP_MACRO_SET_BUFFER :: byte where "ID_DYNAMIC_KEYMAP_MACRO_SET_BUFFER = 0x0f"
definition ID_LAYOUT_OPTIONS :: byte where "ID_LAYOUT_OPTIONS = 0x02"
definition SILAKKA54_SYNC_LAYER :: byte where "SILAKKA54_SYNC_LAYER = 0x4c"
definition SILAKKA54_SYNC_QUERY :: byte where "SILAKKA54_SYNC_QUERY = 0x54"
definition SILAKKA54_SYNC_BOOTLOADER :: byte where "SILAKKA54_SYNC_BOOTLOADER = 0x42"
definition SILAKKA54_SYNC_VERSION :: byte where "SILAKKA54_SYNC_VERSION = 2"
definition SILAKKA54_LEGACY_SYNC_VERSION :: byte where "SILAKKA54_LEGACY_SYNC_VERSION = 1"
definition SILAKKA54_SYNC_MAGIC :: "byte list" where
  "SILAKKA54_SYNC_MAGIC = [0x53, 0x4c, 0x35, 0x34, 0x53, 0x59, 0x4e]"

lemmas hid_constants =
  REPORT_LEN_def ID_GET_PROTOCOL_VERSION_def ID_GET_KEYBOARD_VALUE_def ID_SET_KEYBOARD_VALUE_def
  ID_DYNAMIC_KEYMAP_GET_KEYCODE_def ID_DYNAMIC_KEYMAP_SET_KEYCODE_def
  ID_DYNAMIC_KEYMAP_MACRO_GET_COUNT_def ID_DYNAMIC_KEYMAP_MACRO_GET_BUFFER_SIZE_def
  ID_DYNAMIC_KEYMAP_MACRO_GET_BUFFER_def ID_DYNAMIC_KEYMAP_MACRO_SET_BUFFER_def
  ID_LAYOUT_OPTIONS_def SILAKKA54_SYNC_LAYER_def SILAKKA54_SYNC_QUERY_def
  SILAKKA54_SYNC_BOOTLOADER_def SILAKKA54_SYNC_VERSION_def SILAKKA54_LEGACY_SYNC_VERSION_def

lemma length_magic [simp]: "length SILAKKA54_SYNC_MAGIC = 7"
  by (simp add: SILAKKA54_SYNC_MAGIC_def)

type_synonym report = "byte list"

datatype hid_error =
    HidWriteFailed string
  | HidReadFailed string
  | HidTimeout byte

text \<open>
  A transport over a world \<open>'s\<close>: \<open>write\<close> takes the 33 bytes with the leading report id,
  \<open>read_timeout\<close> answers the bytes read (none on a timeout), \<open>Instant::now\<close> the time.
\<close>

record 's transport =
  t_write :: "byte list \<Rightarrow> 's \<Rightarrow> (string, nat) res \<times> 's"
  t_read :: "int \<Rightarrow> 's \<Rightarrow> (string, byte list) res \<times> 's"
  t_now :: "'s \<Rightarrow> int \<times> 's"

section \<open>Matching responses to requests\<close>

definition slice :: "nat \<Rightarrow> nat \<Rightarrow> 'a list \<Rightarrow> 'a list" where
  "slice a b xs = take (b - a) (drop a xs)"

definition response_matches_request :: "report \<Rightarrow> report \<Rightarrow> bool" where
  "response_matches_request request response =
    (if response ! 0 \<noteq> request ! 0 then False
     else if request ! 0 = ID_GET_KEYBOARD_VALUE \<and>
        (request ! 1 = SILAKKA54_SYNC_QUERY \<or> request ! 1 = SILAKKA54_SYNC_LAYER) then
       response ! 1 = request ! 1 \<and> response ! 2 = request ! 2 \<and>
       (request ! 2 = SILAKKA54_LEGACY_SYNC_VERSION \<or> response ! 3 = request ! 3)
     else if request ! 0 = ID_GET_KEYBOARD_VALUE then response ! 1 = request ! 1
     else if request ! 0 = ID_SET_KEYBOARD_VALUE then slice 1 6 response = slice 1 6 request
     else if request ! 0 = ID_DYNAMIC_KEYMAP_GET_KEYCODE then slice 1 4 response = slice 1 4 request
     else if request ! 0 = ID_DYNAMIC_KEYMAP_SET_KEYCODE then slice 1 6 response = slice 1 6 request
     else if request ! 0 = ID_DYNAMIC_KEYMAP_MACRO_GET_BUFFER \<or>
             request ! 0 = ID_DYNAMIC_KEYMAP_MACRO_SET_BUFFER then
       slice 1 4 response = slice 1 4 request
     else True)"

definition normalize_report :: "byte list \<Rightarrow> byte list" where
  "normalize_report buffer =
     (if REPORT_LEN < length buffer \<and> list_get buffer 0 = Some 0 then tl buffer else buffer)"

definition command_report :: "byte \<Rightarrow> report" where
  "command_report command_id = (replicate REPORT_LEN 0)[0 := command_id]"

lemma length_command_report [simp]: "length (command_report c) = 32"
  by (simp add: command_report_def REPORT_LEN_def)

text \<open>The bytes of one read as an answer to a request, if they are one.\<close>

definition accept_report :: "report \<Rightarrow> byte \<Rightarrow> byte list \<Rightarrow> report option" where
  "accept_report report expected_command bytes =
    (let normalized = normalize_report bytes in
     if REPORT_LEN \<le> length normalized \<and> normalized ! 0 = expected_command \<and>
        response_matches_request report (take REPORT_LEN normalized)
     then Some (take REPORT_LEN normalized) else None)"

section \<open>The exchange\<close>

text \<open>
  One pass through the loop of \<open>raw_transaction\<close>: either its result, or the time of the
  next retransmission.
\<close>

definition transaction_step ::
  "'s transport \<Rightarrow> report \<Rightarrow> byte \<Rightarrow> int \<Rightarrow> int \<Rightarrow> 's \<Rightarrow> ((hid_error, report) res + int) \<times> 's" where
  "transaction_step T report expected_command deadline next_write s0 =
    (let (t, s1) = t_now T s0 in
     if \<not> t < deadline then (Inl (Inl (HidTimeout expected_command)), s1)
     else
     let (now, s2) = t_now T s1;
         (written, s3) =
           (if next_write \<le> now then
              (case t_write T (0 # report) s2 of
                 (Inl e, s3) \<Rightarrow> (Inl (HidWriteFailed e), s3)
               | (Inr _, s3) \<Rightarrow> (Inr (now + HID_TRANSACTION_RETRY_INTERVAL), s3))
            else (Inr next_write, s2))
     in case written of
          Inl e \<Rightarrow> (Inl (Inl e), s3)
        | Inr next_write' \<Rightarrow>
            let (t', s4) = t_now T s3;
                timeout_ms = max 1 (max 0 (min deadline next_write' - t') div 1000000);
                (result, s5) = t_read T timeout_ms s4
            in case result of
                 Inl e \<Rightarrow> (Inl (Inl (HidReadFailed e)), s5)
               | Inr bytes \<Rightarrow>
                   if bytes = [] then (Inr next_write', s5)
                   else case accept_report report expected_command bytes of
                          Some response \<Rightarrow> (Inl (Inr response), s5)
                        | None \<Rightarrow> (Inr next_write', s5))"

definition transaction_loop ::
  "'s transport \<Rightarrow> report \<Rightarrow> byte \<Rightarrow> int \<Rightarrow> int \<Rightarrow> ('s, hid_error, report) io" where
  "transaction_loop T report expected_command deadline =
     io_loop (transaction_step T report expected_command deadline)"

definition raw_transaction ::
  "'s transport \<Rightarrow> report \<Rightarrow> byte \<Rightarrow> int \<Rightarrow> ('s, hid_error, report) io" where
  "raw_transaction T report expected_command timeout s0 =
    (let (t, s1) = t_now T s0; (next_write, s2) = t_now T s1
     in transaction_loop T report expected_command (t + timeout) next_write s2)"

section \<open>What a response guarantees\<close>

lemma accept_report_Some:
  "accept_report report c bytes = Some r \<longleftrightarrow>
     r = take 32 (normalize_report bytes) \<and> 32 \<le> length (normalize_report bytes) \<and> r ! 0 = c \<and>
     response_matches_request report r"
  by (auto simp: accept_report_def Let_def REPORT_LEN_def split: if_splits)

text \<open>
  An invariant of the world that the exchange keeps, and a property of everything read
  while it holds.
\<close>

definition keeps ::
  "'s transport \<Rightarrow> report \<Rightarrow> ('s \<Rightarrow> bool) \<Rightarrow> (byte list \<Rightarrow> 's \<Rightarrow> bool) \<Rightarrow> bool" where
  "keeps T report I R \<longleftrightarrow>
     (\<forall>s. I s \<longrightarrow> I (snd (t_now T s)) \<and> I (snd (t_write T (0 # report) s)) \<and>
        (\<forall>ms. I (snd (t_read T ms s)) \<and>
           (\<forall>bytes. fst (t_read T ms s) = Inr bytes \<longrightarrow> bytes \<noteq> [] \<longrightarrow> R bytes (snd (t_read T ms s)))))"

lemma keepsD:
  assumes "keeps T report I R" "I s"
  shows "t_now T s = (t, s') \<Longrightarrow> I s'"
    and "t_write T (0 # report) s = (w, s') \<Longrightarrow> I s'"
    and "t_read T ms s = (r, s') \<Longrightarrow> I s'"
    and "t_read T ms s = (Inr bytes, s') \<Longrightarrow> bytes \<noteq> [] \<Longrightarrow> R bytes s'"
  using assms unfolding keeps_def by (metis fst_conv snd_conv)+

lemma transaction_step_keeps:
  assumes k: "keeps T report I R" and I: "I s"
    and step: "transaction_step T report c deadline next_write s = (out, s')"
  shows "I s'" and "out = Inl (Inr r) \<Longrightarrow> \<exists>bytes. R bytes s' \<and> accept_report report c bytes = Some r"
proof -
  obtain t s1 where n1: "t_now T s = (t, s1)" by fastforce
  obtain now s2 where n2: "t_now T s1 = (now, s2)" by fastforce
  have I2: "I s2" using keepsD(1) [OF k] I n1 n2 by metis
  obtain w s3 where w: "t_write T (0 # report) s2 = (w, s3)" by fastforce
  have I3: "I s3" using keepsD(2) [OF k I2 w] .
  define s3' where "s3' = (if next_write \<le> now then s3 else s2)"
  have I3': "I s3'" using I2 I3 by (simp add: s3'_def)
  obtain t' s4 where n3: "t_now T s3' = (t', s4)" by fastforce
  have I4: "I s4" using keepsD(1) [OF k I3' n3] .
  have out: "I s5 \<and> (res = Inr bytes \<longrightarrow> bytes \<noteq> [] \<longrightarrow> R bytes s5)" if "t_read T ms s4 = (res, s5)" for ms res s5 bytes
    using keepsD(3) [OF k I4 that] keepsD(4) [OF k I4, of ms bytes s5] that by blast
  have "I s' \<and> (out = Inl (Inr r) \<longrightarrow> (\<exists>bytes. R bytes s' \<and> accept_report report c bytes = Some r))"
    using step n1 n2 w n3 I2 I3 I4 keepsD(1) [OF k I n1] s3'_def
    by (auto simp: transaction_step_def Let_def split: if_splits sum.splits prod.splits option.splits dest: out)
  then show "I s'" and "out = Inl (Inr r) \<Longrightarrow> \<exists>bytes. R bytes s' \<and> accept_report report c bytes = Some r"
    by blast+
qed

lemma transaction_keeps:
  assumes run: "raw_transaction T report c timeout s = Some (res, s')"
    and k: "keeps T report I R" and I: "I s"
  shows "I s'" and "res = Inr r \<Longrightarrow> \<exists>bytes. R bytes s' \<and> accept_report report c bytes = Some r"
proof -
  obtain t s1 where n1: "t_now T s = (t, s1)" by fastforce
  obtain nw s2 where n2: "t_now T s1 = (nw, s2)" by fastforce
  have I2: "I s2" using keepsD(1) [OF k] I n1 n2 by metis
  have run': "io_loop (transaction_step T report c (t + timeout)) nw s2 = Some (res, s')"
    using run n1 n2 by (simp add: raw_transaction_def transaction_loop_def)
  have "I s' \<and> (\<forall>r. res = Inr r \<longrightarrow> (\<exists>bytes. R bytes s' \<and> accept_report report c bytes = Some r))"
    by (rule io_loop_rule [OF run', where I = "\<lambda>_. I" and
          Q = "\<lambda>res s'. I s' \<and> (\<forall>r. res = Inr r \<longrightarrow> (\<exists>bytes. R bytes s' \<and> accept_report report c bytes = Some r))"])
      (use I2 transaction_step_keeps [OF k] in blast)+
  then show "I s'" and "res = Inr r \<Longrightarrow> \<exists>bytes. R bytes s' \<and> accept_report report c bytes = Some r"
    by blast+
qed


section \<open>Termination\<close>

text \<open>
  What the exchange relies on to end: the clock never goes back, and a read, which waits
  for the device, takes time.
\<close>

locale timed_transport =
  fixes T :: "'s transport" and clock :: "'s \<Rightarrow> int"
  assumes now_law: "t_now T s = (t, s') \<Longrightarrow> clock s \<le> t \<and> t \<le> clock s'"
    and write_law: "t_write T bytes s = (w, s') \<Longrightarrow> clock s \<le> clock s'"
    and read_law: "t_read T ms s = (r, s') \<Longrightarrow> clock s < clock s'"
begin

lemma step_advances:
  assumes "transaction_step T report c deadline next_write s = (Inr next_write', s')"
  shows "clock s < clock s' \<and> clock s < deadline"
proof -
  obtain t s1 where n1: "t_now T s = (t, s1)" by fastforce
  obtain now s2 where n2: "t_now T s1 = (now, s2)" by fastforce
  obtain w s3 where w: "t_write T (0 # report) s2 = (w, s3)" by fastforce
  define s3' where "s3' = (if next_write \<le> now then s3 else s2)"
  obtain t' s4 where n3: "t_now T s3' = (t', s4)" by fastforce
  have c4: "clock s \<le> clock s4"
    using now_law [OF n1] now_law [OF n2] write_law [OF w] now_law [OF n3]
    by (auto simp: s3'_def split: if_splits)
  have "t < deadline" "\<exists>ms r. t_read T ms s4 = (r, s')"
    using assms n1 n2 w n3 s3'_def
    by (auto simp: transaction_step_def Let_def split: if_splits sum.splits prod.splits option.splits)
  then show ?thesis using c4 now_law [OF n1] read_law by force
qed

lemma step_timeout:
  assumes "transaction_step T report c deadline next_write s = (Inl (Inl (HidTimeout d)), s')"
  shows "deadline \<le> clock s'"
proof -
  obtain t s1 where n1: "t_now T s = (t, s1)" by fastforce
  show ?thesis
    using assms n1 now_law [OF n1]
    by (auto simp: transaction_step_def Let_def split: if_splits sum.splits prod.splits option.splits)
qed

lemma returns: "\<exists>res s'. raw_transaction T report c timeout s = Some (res, s')"
proof -
  obtain t s1 where n1: "t_now T s = (t, s1)" by fastforce
  obtain nw s2 where n2: "t_now T s1 = (nw, s2)" by fastforce
  have "\<exists>res s'. io_loop (transaction_step T report c (t + timeout)) nw s2 = Some (res, s')"
  proof (rule io_loop_returns [where I = "\<lambda>_ _. True" and m = "\<lambda>_ s. nat (t + timeout - clock s)"])
    fix n s n' s'
    assume "transaction_step T report c (t + timeout) n s = (Inr n', s')"
    from step_advances [OF this]
    show "True \<and> nat (t + timeout - clock s') < nat (t + timeout - clock s)" by auto
  qed simp
  then show ?thesis
    by (simp add: raw_transaction_def transaction_loop_def n1 n2)
qed

lemma timeout_late:
  assumes "raw_transaction T report c timeout s = Some (Inl (HidTimeout d), s')"
  shows "clock s + timeout \<le> clock s'"
proof -
  obtain t s1 where n1: "t_now T s = (t, s1)" by fastforce
  obtain nw s2 where n2: "t_now T s1 = (nw, s2)" by fastforce
  have run: "io_loop (transaction_step T report c (t + timeout)) nw s2 = Some (Inl (HidTimeout d), s')"
    using assms by (simp add: raw_transaction_def transaction_loop_def n1 n2)
  have "Inl (HidTimeout d) = (Inl (HidTimeout d) :: (hid_error, report) res) \<longrightarrow> t + timeout \<le> clock s'"
    by (rule io_loop_rule [OF run, where I = "\<lambda>_ _. True" and
        Q = "\<lambda>res s'. res = Inl (HidTimeout d) \<longrightarrow> t + timeout \<le> clock s'"])
      (use step_timeout in auto)
  then show ?thesis using now_law [OF n1] by simp
qed

end

text \<open>
  C17: A transaction always returns, and it reports a timeout only when its full timeout has
  passed.
\<close>
theorem raw_transaction_ends:
  assumes "timed_transport T clock"
  shows "\<exists>res s'. raw_transaction T report c timeout s = Some (res, s') \<and>
    (\<forall>d. res = Inl (HidTimeout d) \<longrightarrow> clock s + timeout \<le> clock s')"
  using timed_transport.returns [OF assms] timed_transport.timeout_late [OF assms] by metis

end
