(* ===== verification/Keycodes.thy ===== *)
theory Keycodes
  imports Rust_Strings
begin

text \<open>
  The keycode language of the VIA configuration (\<open>packages/silakka54/sync/src/main.rs\<close>):
  \<open>resolve_keycode\<close> turns a configuration expression into the 16-bit QMK keycode the
  keyboard stores, and \<open>describe_keycode\<close> turns a keycode read back from the keyboard into
  an expression. The pinned QMK catalog is an association list in key order (a
  \<open>BTreeMap<String, u16>\<close>); the layer table is a map from layer identifiers and display
  names to layer numbers.
\<close>

type_synonym catalog = "(string \<times> u16) list"
type_synonym layer_map = "string \<Rightarrow> u8 option"

datatype keycode_error =
    UnknownKeycode string
  | UnknownLayerIn string string
  | LayerMoveOutOfRange string
  | LayerTapNotBasic string
  | ModTapNotBasic string
  | UnsupportedModifier string string
  | UnsupportedKeycode string

datatype describe_error =
    UnknownLayerRef nat
  | UnknownLayerTap nat
  | AbsentKeycode u16

section \<open>Keycodes to expressions\<close>

definition name_key :: "string \<Rightarrow> bool \<times> bool \<times> nat \<times> string" where
  "name_key name =
     (\<not> starts_with name ''KC_'', contains name ''RIGHT'', length name, name)"

definition preferred_keycode_name :: "u16 \<Rightarrow> catalog \<Rightarrow> (describe_error, string) res" where
  "preferred_keycode_name keycode keycodes =
     ok_or (AbsentKeycode keycode)
       (map_option fst
         (min_by_key (\<lambda>(name, _). name_key name)
           (filter (\<lambda>(_, value). value = keycode) keycodes)))"

definition simple_mod_taps :: "(u16 \<times> string) list" where
  "simple_mod_taps =
    [(0x01, ''LCTL_T''), (0x02, ''LSFT_T''), (0x04, ''LALT_T''), (0x08, ''LGUI_T''),
     (0x11, ''RCTL_T''), (0x12, ''RSFT_T''), (0x14, ''RALT_T''), (0x18, ''RGUI_T'')]"

definition mod_masks :: "(u16 \<times> string \<times> string) list" where
  "mod_masks =
    [(0x01, ''MOD_LCTL'', ''MOD_RCTL''), (0x02, ''MOD_LSFT'', ''MOD_RSFT''),
     (0x04, ''MOD_LALT'', ''MOD_RALT''), (0x08, ''MOD_LGUI'', ''MOD_RGUI'')]"

definition mod_names :: "u16 \<Rightarrow> string list" where
  "mod_names mods =
     map (\<lambda>(mask, left, right). if mods AND 0x10 \<noteq> 0 then right else left)
       (filter (\<lambda>(mask, left, right). mods AND mask \<noteq> 0) mod_masks)"

definition describe_keycode ::
  "u16 \<Rightarrow> string list \<Rightarrow> catalog \<Rightarrow> (describe_error, string) res" where
  "describe_keycode keycode layer_ids keycodes =
    (if 0x5200 \<le> keycode \<and> keycode \<le> 0x521f then
       let layer = unat (keycode - 0x5200)
       in ok_or (UnknownLayerRef layer)
            (map_option (\<lambda>ident. ''TO('' @ ident @ '')'') (list_get layer_ids layer))
     else if 0x5220 \<le> keycode \<and> keycode \<le> 0x522f then
       let layer = unat (keycode - 0x5220)
       in ok_or (UnknownLayerRef layer)
            (map_option (\<lambda>ident. ''MO('' @ ident @ '')'') (list_get layer_ids layer))
     else if keycode AND 0xf000 = 0x4000 then
       let layer = unat (drop_bit 8 keycode AND 0x0f)
       in bind_res (preferred_keycode_name (keycode AND 0xff) keycodes) (\<lambda>tap.
          bind_res (ok_or (UnknownLayerTap layer) (list_get layer_ids layer)) (\<lambda>ident.
          Inr (''LT('' @ ident @ '', '' @ tap @ '')'')))
     else if keycode AND 0xe000 = 0x2000 then
       let mods = drop_bit 8 keycode AND 0x1f
       in bind_res (preferred_keycode_name (keycode AND 0xff) keycodes) (\<lambda>tap.
          (case map_of simple_mod_taps mods of
             Some function \<Rightarrow> Inr (function @ ''('' @ tap @ '')'')
           | None \<Rightarrow> Inr (''MT('' @ join ''|'' (mod_names mods) @ '', '' @ tap @ '')'')))
     else preferred_keycode_name keycode keycodes)"

section \<open>Expressions to keycodes\<close>

text \<open>The function name and the raw argument text of \<open>name(arguments)\<close>.\<close>

definition call_parts :: "string \<Rightarrow> (string \<times> string) option" where
  "call_parts expression =
     (case split_once CHR ''('' expression of
        None \<Rightarrow> None
      | Some (function, rest) \<Rightarrow>
          map_option (\<lambda>rest. (function, rest)) (strip_suffix '')'' rest))"

definition call_arguments :: "string \<Rightarrow> string list" where
  "call_arguments arguments = map trim (split_on CHR '','' arguments)"

definition layer_ref :: "layer_map \<Rightarrow> string \<Rightarrow> string \<Rightarrow> (keycode_error, u8) res" where
  "layer_ref layer_ids expression value =
     (case layer_ids value of
        Some layer \<Rightarrow> Inr layer
      | None \<Rightarrow>
          (case parse_u8 value of
             Some n \<Rightarrow> Inr (of_nat n)
           | None \<Rightarrow> Inl (UnknownLayerIn expression value)))"

definition tap_macros :: "(string \<times> string) list" where
  "tap_macros =
    [(''LCTL_T'', ''MOD_LCTL''), (''LSFT_T'', ''MOD_LSFT''), (''LALT_T'', ''MOD_LALT''),
     (''LGUI_T'', ''MOD_LGUI''), (''RCTL_T'', ''MOD_RCTL''), (''RSFT_T'', ''MOD_RSFT''),
     (''RALT_T'', ''MOD_RALT''), (''RGUI_T'', ''MOD_RGUI'')]"

definition modifier_bits :: "(string \<times> u16) list" where
  "modifier_bits =
    [(''MOD_LCTL'', 0x01), (''MOD_LSFT'', 0x02), (''MOD_LALT'', 0x04), (''MOD_LGUI'', 0x08),
     (''MOD_RCTL'', 0x11), (''MOD_RSFT'', 0x12), (''MOD_RALT'', 0x14), (''MOD_RGUI'', 0x18)]"

definition collect_mods :: "string \<Rightarrow> string \<Rightarrow> (keycode_error, u16) res" where
  "collect_mods expression modifier =
     fold_res (\<lambda>mods m. bind_res (ok_or (UnsupportedModifier expression m) (map_of modifier_bits m))
         (\<lambda>bits. Inr (mods OR bits)))
       0 (map trim (split_on CHR ''|'' modifier))"

lemma call_parts_length:
  "call_parts e = Some (f, args) \<Longrightarrow> length args < length e"
  by (auto simp: call_parts_def split_once_Some strip_suffix_Some split: option.splits)

lemma call_arguments_length:
  "a \<in> set (call_arguments args) \<Longrightarrow> length a \<le> length args"
  unfolding call_arguments_def
  using split_on_length trim_length by (fastforce intro: order_trans)

lemma call_argument_shorter:
  "call_parts e = Some (f, args) \<Longrightarrow> a \<in> set (call_arguments args) \<Longrightarrow> length a < length e"
  using call_parts_length call_arguments_length by fastforce

function resolve_keycode :: "string \<Rightarrow> layer_map \<Rightarrow> catalog \<Rightarrow> (keycode_error, u16) res"
  and mod_tap_keycode ::
    "string \<Rightarrow> string \<Rightarrow> string \<Rightarrow> layer_map \<Rightarrow> catalog \<Rightarrow> (keycode_error, u16) res" where
  "resolve_keycode expression layer_ids keycodes =
    (case map_of keycodes expression of
       Some value \<Rightarrow> Inr value
     | None \<Rightarrow>
    (case layer_ids expression of
       Some layer \<Rightarrow> Inr (0x5220 OR ucast layer)
     | None \<Rightarrow>
    (case call_parts expression of
       None \<Rightarrow> Inl (UnknownKeycode expression)
     | Some (function, arguments) \<Rightarrow>
    (case call_arguments arguments of
       [target] \<Rightarrow>
         if function = ''TO'' then
           bind_res (layer_ref layer_ids expression target) (\<lambda>target.
             if 31 < target then Inl (LayerMoveOutOfRange expression)
             else Inr (0x5200 OR ucast target))
         else if function = ''MO'' then
           bind_res (layer_ref layer_ids expression target) (\<lambda>target.
             Inr (0x5220 OR ucast target))
         else if ends_with function ''_T'' then
           (case map_of tap_macros function of
              None \<Rightarrow> Inl (UnsupportedKeycode expression)
            | Some modifier \<Rightarrow> mod_tap_keycode modifier target expression layer_ids keycodes)
         else Inl (UnsupportedKeycode expression)
     | [target, tap] \<Rightarrow>
         if function = ''LT'' then
           bind_res (resolve_keycode tap layer_ids keycodes) (\<lambda>tap_code.
             if 0xff < tap_code then Inl (LayerTapNotBasic expression)
             else bind_res (layer_ref layer_ids expression target) (\<lambda>layer.
               Inr (0x4000 OR push_bit 8 (ucast layer) OR tap_code)))
         else if function = ''MT'' then
           mod_tap_keycode target tap expression layer_ids keycodes
         else Inl (UnsupportedKeycode expression)
     | _ \<Rightarrow> Inl (UnsupportedKeycode expression)))))"
| "mod_tap_keycode modifier tap expression layer_ids keycodes =
    bind_res (collect_mods expression modifier) (\<lambda>mods.
    bind_res (resolve_keycode tap layer_ids keycodes) (\<lambda>tap_code.
      if 0xff < tap_code then Inl (ModTapNotBasic expression)
      else Inr (0x2000 OR push_bit 8 (mods AND 0x1f) OR tap_code)))"
  by pat_completeness auto
termination
  by (relation "measure (\<lambda>x. case x of
      Inl (e, _, _) \<Rightarrow> 2 * length e | Inr (_, tap, _, _, _) \<Rightarrow> 2 * length tap + 1)")
    (auto dest!: call_argument_shorter)

declare resolve_keycode.simps [simp del] mod_tap_keycode.simps [simp del]

section \<open>Reading back what was written\<close>

text \<open>
  QMK names and layer identifiers are C identifiers. \<open>catalog_ok\<close> is the shape of the
  generated catalog: a map (distinct keys) whose names are identifiers. \<open>layer_table_ok\<close>
  says that the layer table resolves every identifier to its own index and knows no name
  with a parenthesis in it.
\<close>

definition ident_char :: "char \<Rightarrow> bool" where
  "ident_char c \<longleftrightarrow> is_alnum c \<or> c = CHR ''_''"

definition is_ident :: "string \<Rightarrow> bool" where
  "is_ident s \<longleftrightarrow> s \<noteq> [] \<and> list_all ident_char s"

definition catalog_ok :: "catalog \<Rightarrow> bool" where
  "catalog_ok keycodes \<longleftrightarrow> distinct (map fst keycodes) \<and> list_all (\<lambda>(n, _). is_ident n) keycodes"

definition layer_table_ok :: "string list \<Rightarrow> layer_map \<Rightarrow> bool" where
  "layer_table_ok layer_ids m \<longleftrightarrow>
     (\<forall>i < length layer_ids. is_ident (layer_ids ! i) \<and> m (layer_ids ! i) = Some (of_nat i)) \<and>
     (\<forall>n. CHR ''('' \<in> set n \<longrightarrow> m n = None)"

lemma ident_char_graph: "ident_char c \<Longrightarrow> is_graph c"
  by (auto simp: ident_char_def alnum_graph) (simp add: is_graph_def)

lemma ident_char_not:
  "\<not> ident_char CHR ''(''" "\<not> ident_char CHR '')''" "\<not> ident_char CHR '',''" "\<not> ident_char CHR ''|''"
  by (simp_all add: ident_char_def char_class_defs)

lemma is_ident_graph: "is_ident s \<Longrightarrow> c \<in> set s \<Longrightarrow> is_graph c"
  by (auto simp: is_ident_def list_all_iff ident_char_graph)

lemma is_ident_notin:
  assumes "is_ident s"
  shows "CHR ''('' \<notin> set s" "CHR '','' \<notin> set s" "CHR ''|'' \<notin> set s"
  using assms ident_char_not by (auto simp: is_ident_def list_all_iff)

lemma is_ident_trim [simp]: "is_ident s \<Longrightarrow> trim s = s"
  by (simp add: trim_all_graph is_ident_graph)

lemma call_parts_call:
  "CHR ''('' \<notin> set f \<Longrightarrow> call_parts (f @ CHR ''('' # args @ '')'') = Some (f, args)"
  by (simp add: call_parts_def)

lemma call_arguments_one: "is_ident a \<Longrightarrow> call_arguments a = [a]"
  by (simp add: call_arguments_def split_on_no_sep is_ident_notin)

lemma call_arguments_two:
  assumes "CHR '','' \<notin> set a" "\<And>c. c \<in> set a \<Longrightarrow> is_graph c" "is_ident b"
  shows "call_arguments (a @ '', '' @ b) = [a, b]"
proof -
  have "split_on CHR '','' (a @ '', '' @ b) = [a, CHR '' '' # b]"
    using assms(1,3) by (simp add: split_on_append split_on_no_sep is_ident_notin)
  with assms show ?thesis
    by (simp add: call_arguments_def trim_blank trim_all_graph)
qed

lemma preferred_keycode_name_sound:
  assumes "preferred_keycode_name k cat = Inr name" "catalog_ok cat"
  shows "map_of cat name = Some k \<and> is_ident name"
proof -
  from assms(1) obtain v where m: "min_by_key (\<lambda>(name, _). name_key name)
      (filter (\<lambda>(_, value). value = k) cat) = Some (name, v)"
    by (auto simp: preferred_keycode_name_def)
  from min_by_key_in [OF m] have "(name, k) \<in> set cat" by auto
  with assms(2) show ?thesis
    by (auto simp: catalog_ok_def list_all_iff)
qed

lemma catalog_no_call:
  "catalog_ok cat \<Longrightarrow> CHR ''('' \<in> set e \<Longrightarrow> map_of cat e = None"
  by (cases "map_of cat e")
    (auto simp: catalog_ok_def list_all_iff dest!: map_of_SomeD is_ident_notin(1))

lemma resolve_name: "map_of cat e = Some k \<Longrightarrow> resolve_keycode e m cat = Inr k"
  by (subst resolve_keycode.simps) simp

lemma collect_mods_names:
  assumes "m < 32" "m AND 0x0f \<noteq> 0"
  shows "collect_mods e (join ''|'' (mod_names m)) = Inr m"
proof -
  have "list_all (\<lambda>n. let m = of_nat n :: u16 in m AND 0x0f = 0 \<or>
      (case collect_mods e (join ''|'' (mod_names m)) of Inr b \<Rightarrow> b = m | _ \<Rightarrow> False)) [0..<32]"
    by code_simp
  moreover have "unat m \<in> set [0..<32]"
    using assms(1) by (simp add: word_less_nat_alt)
  ultimately show ?thesis
    using assms(2) by (cases "collect_mods e (join ''|'' (mod_names m))")
      (auto simp: list_all_iff Let_def dest!: bspec [where x = "unat m"])
qed

lemma mod_names_graph:
  assumes "m < 32"
  shows "CHR '','' \<notin> set (join ''|'' (mod_names m)) \<and> list_all is_graph (join ''|'' (mod_names m))"
proof -
  have "list_all (\<lambda>n. CHR '','' \<notin> set (join ''|'' (mod_names (of_nat n))) \<and>
      list_all is_graph (join ''|'' (mod_names (of_nat n)))) [0..<32]"
    by code_simp
  moreover have "unat m \<in> set [0..<32]"
    using assms(1) by (simp add: word_less_nat_alt)
  ultimately show ?thesis by (auto simp: list_all_iff dest!: bspec [where x = "unat m"])
qed

lemma simple_mod_tap_bits:
  assumes "map_of simple_mod_taps m = Some f"
  shows "CHR ''('' \<notin> set f \<and> ends_with f ''_T'' \<and> f \<noteq> ''TO'' \<and> f \<noteq> ''MO'' \<and>
    (\<exists>md. map_of tap_macros f = Some md \<and> collect_mods e md = Inr m)"
proof -
  have "list_all (\<lambda>(m, f). CHR ''('' \<notin> set f \<and> ends_with f ''_T'' \<and> f \<noteq> ''TO'' \<and> f \<noteq> ''MO'' \<and>
      (case map_of tap_macros f of Some md \<Rightarrow>
         (case collect_mods e md of Inr b \<Rightarrow> b = m | Inl _ \<Rightarrow> False) | None \<Rightarrow> False)) simple_mod_taps"
    by code_simp
  then have "\<And>x. x \<in> set simple_mod_taps \<Longrightarrow> (\<lambda>(m, f). CHR ''('' \<notin> set f \<and> ends_with f ''_T'' \<and>
      f \<noteq> ''TO'' \<and> f \<noteq> ''MO'' \<and> (case map_of tap_macros f of Some md \<Rightarrow>
         (case collect_mods e md of Inr b \<Rightarrow> b = m | Inl _ \<Rightarrow> False) | None \<Rightarrow> False)) x"
    unfolding list_all_iff by blast
  from this [OF map_of_SomeD [OF assms]] show ?thesis
    by (simp split: option.splits sum.splits)
qed

text \<open>Splitting a keycode into its fields and putting it together again.\<close>

lemma less_16: "(n::nat) < LENGTH(16) \<Longrightarrow> n = 8 \<or> n = 0 \<or> n = 9 \<or> n = 1 \<or> n = 10 \<or> n = 2 \<or> n = 11 \<or> n = 3 \<or> n = 12 \<or> n = 4 \<or>
     n = 13 \<or> n = 5 \<or> n = 14 \<or> n = 6 \<or> n = 15 \<or> n = 7"
  by (simp, presburger)

lemma u16_fields:
  fixes k :: u16
  shows "k = (k AND 0xf000) OR push_bit 8 (drop_bit 8 k AND 0x0f) OR (k AND 0xff)"
    and "k = (k AND 0xe000) OR push_bit 8 (drop_bit 8 k AND 0x1f) OR (k AND 0xff)"
proof -
  have nib: "push_bit 8 (drop_bit 8 k AND 0x0f) = k AND 0x0f00"
    "push_bit 8 (drop_bit 8 k AND 0x1f) = k AND 0x1f00"
    by (rule bit_word_eqI; drule less_16; elim disjE; simp add: bit_simps)+
  have ones: "(0xf000 OR 0x0f00 OR 0xff :: u16) = - 1" "(0xe000 OR 0x1f00 OR 0xff :: u16) = - 1"
    by simp_all
  have "k = k AND (0xf000 OR 0x0f00 OR 0xff)"
    unfolding ones by simp
  then show "k = (k AND 0xf000) OR push_bit 8 (drop_bit 8 k AND 0x0f) OR (k AND 0xff)"
    unfolding nib bit.conj_disj_distrib .
  have "k = k AND (0xe000 OR 0x1f00 OR 0xff)"
    unfolding ones by simp
  then show "k = (k AND 0xe000) OR push_bit 8 (drop_bit 8 k AND 0x1f) OR (k AND 0xff)"
    unfolding nib bit.conj_disj_distrib .
qed

lemma ucast_of_nat_unat:
  fixes w :: u16
  assumes "w < 256"
  shows "(ucast (ucast w :: u8) :: u16) = w"
proof -
  have "unat w < 256" using assms by (simp add: word_less_nat_alt)
  then show ?thesis by (simp add: word_eq_iff_unsigned [where 'a = nat] unsigned_ucast_eq unsigned_take_bit_eq take_bit_nat_eq_self)
qed

lemma field_bounds:
  fixes w :: u16
  shows "w AND 0x0f < 256" "unat (w AND 0x0f) < 16" "w AND 0x1f < 32" "w AND 0xff \<le> 0xff"
proof -
  have le: "w AND 0x0f \<le> 0x0f" "w AND 0x1f \<le> 0x1f" "w AND 0xff \<le> 0xff"
    by (rule word_and_le1)+
  then show "w AND 0xff \<le> 0xff" by simp
  from le(1) show "w AND 0x0f < 256" by (rule le_less_trans) simp
  from le(2) show "w AND 0x1f < 32" by (rule le_less_trans) simp
  from le(1) show "unat (w AND 0x0f) < 16" by (simp add: word_le_nat_alt)
qed

lemma range_field:
  fixes k b :: u16
  assumes "b \<le> k" "unat k < unat b + n"
    and "list_all (\<lambda>i. b OR ucast (of_nat i :: u8) = b + of_nat i) [0..<n]"
  shows "b OR ucast (ucast (k - b) :: u8) = k \<and> unat (k - b) < n"
proof -
  have lt: "unat (k - b) < n"
    using assms(1,2) by (simp add: unat_sub word_le_nat_alt)
  then have "b OR ucast (of_nat (unat (k - b)) :: u8) = b + of_nat (unat (k - b))"
    by (intro bspec [OF assms(3) [unfolded list_all_iff set_upt]]) simp
  with lt show ?thesis by simp
qed

lemma to_field:
  fixes k :: u16
  assumes "20992 \<le> k" "k \<le> 21023"
  shows "20992 OR ucast (ucast (k - 20992) :: u8) = k \<and> unat (k - 20992) < 32"
proof (rule range_field)
  show "unat k < unat (20992 :: u16) + 32" using assms by (simp add: word_le_nat_alt)
  show "list_all (\<lambda>i. 20992 OR ucast (of_nat i :: u8) = (20992 :: u16) + of_nat i) [0..<32]"
    by code_simp
qed (rule assms)

lemma mo_field:
  fixes k :: u16
  assumes "21024 \<le> k" "k \<le> 21039"
  shows "21024 OR ucast (ucast (k - 21024) :: u8) = k \<and> unat (k - 21024) < 16"
proof (rule range_field)
  show "unat k < unat (21024 :: u16) + 16" using assms by (simp add: word_le_nat_alt)
  show "list_all (\<lambda>i. 21024 OR ucast (of_nat i :: u8) = (21024 :: u16) + of_nat i) [0..<16]"
    by code_simp
qed (rule assms)



lemma layer_table_nth:
  assumes "layer_table_ok layer_ids m" "i < length layer_ids"
  shows "is_ident (layer_ids ! i)" "m (layer_ids ! i) = Some (of_nat i)"
  using assms by (auto simp: layer_table_ok_def)

lemma call_not_plain:
  assumes "catalog_ok cat" "layer_table_ok layer_ids m"
  shows "map_of cat (f @ CHR ''('' # a) = None" "m (f @ CHR ''('' # a) = None"
  using assms catalog_no_call by (auto simp: layer_table_ok_def)

lemma resolve_TO:
  assumes "catalog_ok cat" "layer_table_ok layer_ids m" "i < length layer_ids" "i < 32"
  shows "resolve_keycode (''TO'' @ CHR ''('' # layer_ids ! i @ '')'') m cat = Inr (0x5200 OR ucast (of_nat i :: u8))"
proof -
  note nth = layer_table_nth [OF assms(2,3)]
  have "\<not> (31 :: u8) < of_nat i"
    using assms(4) by (simp add: word_less_nat_alt unsigned_of_nat take_bit_nat_eq_self)
  then show ?thesis
    by (subst resolve_keycode.simps, subst call_parts_call)
      (simp_all add: call_not_plain [OF assms(1,2)] call_arguments_one nth layer_ref_def del: append_Cons)
qed

lemma resolve_MO:
  assumes "catalog_ok cat" "layer_table_ok layer_ids m" "is_ident target" "m target = Some l"
  shows "resolve_keycode (''MO'' @ CHR ''('' # target @ '')'') m cat = Inr (0x5220 OR ucast l)"
  using assms(4)
  by (subst resolve_keycode.simps, subst call_parts_call)
    (simp_all add: call_not_plain [OF assms(1,2)] call_arguments_one assms(3) layer_ref_def
      del: append_Cons)

lemma resolve_LT:
  assumes "catalog_ok cat" "layer_table_ok layer_ids m" "is_ident target" "m target = Some l"
    and "map_of cat tap = Some t" "is_ident tap" "t \<le> 0xff"
  shows "resolve_keycode (''LT'' @ CHR ''('' # (target @ '', '' @ tap) @ '')'') m cat =
    Inr (0x4000 OR push_bit 8 (ucast l) OR t)"
proof -
  have "call_arguments (target @ '', '' @ tap) = [target, tap]"
    using assms(3,6) by (intro call_arguments_two) (auto simp: is_ident_notin is_ident_graph)
  with assms(4,7) show ?thesis
    by (subst resolve_keycode.simps, subst call_parts_call)
      (simp_all add: call_not_plain [OF assms(1,2)] resolve_name [OF assms(5)] layer_ref_def not_less
        del: append_Cons append_assoc)
qed

lemma resolve_tap_macro:
  assumes "catalog_ok cat" "layer_table_ok layer_ids m" "map_of simple_mod_taps b = Some f"
    and "map_of cat tap = Some t" "is_ident tap" "t \<le> 0xff"
  shows "resolve_keycode (f @ CHR ''('' # tap @ '')'') m cat = Inr (0x2000 OR push_bit 8 (b AND 0x1f) OR t)"
proof -
  let ?e = "f @ CHR ''('' # tap @ '')''"
  from simple_mod_tap_bits [OF assms(3), of ?e] obtain md where
    f: "CHR ''('' \<notin> set f" "ends_with f ''_T''" "f \<noteq> ''TO''" "f \<noteq> ''MO''" "map_of tap_macros f = Some md"
      "collect_mods ?e md = Inr b" by blast
  with assms(6) show ?thesis
    by (subst resolve_keycode.simps, subst call_parts_call)
      (simp_all add: call_not_plain [OF assms(1,2)] call_arguments_one assms(5) mod_tap_keycode.simps
        resolve_name [OF assms(4)] not_less del: append_Cons)
qed

lemma resolve_MT:
  assumes "catalog_ok cat" "layer_table_ok layer_ids m" "b < 32" "b AND 0x0f \<noteq> 0"
    and "map_of cat tap = Some t" "is_ident tap" "t \<le> 0xff"
  shows "resolve_keycode (''MT'' @ CHR ''('' # (join ''|'' (mod_names b) @ '', '' @ tap) @ '')'') m cat =
    Inr (0x2000 OR push_bit 8 (b AND 0x1f) OR t)"
proof -
  have "call_arguments (join ''|'' (mod_names b) @ '', '' @ tap) = [join ''|'' (mod_names b), tap]"
    using mod_names_graph [OF assms(3)] assms(6)
    by (intro call_arguments_two) (auto simp: list_all_iff)
  with assms(7) show ?thesis
    by (subst resolve_keycode.simps, subst call_parts_call)
      (simp_all add: call_not_plain [OF assms(1,2)] resolve_name [OF assms(5)] mod_tap_keycode.simps
        collect_mods_names [OF assms(3,4)] not_less del: append_Cons append_assoc)
qed



lemma resolve_describe_layer_tap:
  assumes cat: "catalog_ok cat" and tab: "layer_table_ok layer_ids m"
    and k: "k AND 0xf000 = 0x4000" and i: "unat (drop_bit 8 k AND 0x0f) < length layer_ids"
    and tap: "preferred_keycode_name (k AND 0xff) cat = Inr tap"
  shows "resolve_keycode (''LT('' @ layer_ids ! unat (drop_bit 8 k AND 0x0f) @ '', '' @ tap @ '')'') m cat = Inr k"
proof -
  have "k AND 0xff \<le> 0xff" by (rule field_bounds)
  with preferred_keycode_name_sound [OF tap cat] resolve_LT [OF cat tab layer_table_nth [OF tab i]]
    u16_fields(1) [of k] k
  show ?thesis by (simp add: ucast_of_nat_unat field_bounds)
qed

lemma resolve_describe_mod_tap:
  assumes cat: "catalog_ok cat" and tab: "layer_table_ok layer_ids m"
    and k: "k AND 0xe000 = 0x2000" and mods: "drop_bit 8 k AND 0x0f \<noteq> 0"
    and tap: "preferred_keycode_name (k AND 0xff) cat = Inr tap"
    and e: "e = (case map_of simple_mod_taps (drop_bit 8 k AND 0x1f) of
       Some f \<Rightarrow> f @ ''('' @ tap @ '')''
     | None \<Rightarrow> ''MT('' @ join ''|'' (mod_names (drop_bit 8 k AND 0x1f)) @ '', '' @ tap @ '')'')"
  shows "resolve_keycode e m cat = Inr k"
proof -
  let ?b = "drop_bit 8 k AND 0x1f"
  note snd = preferred_keycode_name_sound [OF tap cat]
  have low: "k AND 0xff \<le> 0xff" by (rule field_bounds)
  have b: "?b < 32" "?b AND 0x0f \<noteq> 0"
    using mods by (simp_all add: field_bounds and.assoc)
  have k': "0x2000 OR push_bit 8 (?b AND 0x1f) OR (k AND 0xff) = k"
    using u16_fields(2) [of k] k by (simp add: and.assoc)
  show ?thesis
  proof (cases "map_of simple_mod_taps ?b")
    case None
    with e resolve_MT [OF cat tab b] snd low k' show ?thesis by simp
  next
    case (Some f)
    with e resolve_tap_macro [OF cat tab Some] snd low k' show ?thesis by simp
  qed
qed

lemma describe_resolves:
  assumes d: "describe_keycode k layer_ids cat = Inr e"
    and cat: "catalog_ok cat" and tab: "layer_table_ok layer_ids m"
    and mods: "k AND 0xe000 = 0x2000 \<Longrightarrow> drop_bit 8 k AND 0x0f \<noteq> 0"
  shows "resolve_keycode e m cat = Inr k"
proof -
  consider "0x5200 \<le> k \<and> k \<le> 0x521f"
    | "\<not> (0x5200 \<le> k \<and> k \<le> 0x521f)" "0x5220 \<le> k \<and> k \<le> 0x522f"
    | "\<not> (0x5200 \<le> k \<and> k \<le> 0x521f)" "\<not> (0x5220 \<le> k \<and> k \<le> 0x522f)"
    by blast
  then show ?thesis
  proof cases
    case 1
    with d to_field [of k] resolve_TO [OF cat tab] show ?thesis
      by (auto simp: describe_keycode_def Let_def)
  next
    case 2
    with d mo_field [of k] resolve_MO [OF cat tab layer_table_nth [OF tab]] show ?thesis
      by (auto simp: describe_keycode_def Let_def)
  next
    case 3
    then show ?thesis
      using d resolve_describe_layer_tap [OF cat tab, of k] resolve_describe_mod_tap [OF cat tab, of k]
        mods preferred_keycode_name_sound [OF _ cat, of k]
      by (auto simp: describe_keycode_def Let_def resolve_name split: if_splits option.splits)
  qed
qed


definition sample_catalog :: catalog where
  "sample_catalog = [(''KC_A'', 0x04), (''KC_SPACE'', 0x2c), (''KC_SPC'', 0x2c), (''KC_TRNS'', 0x01)]"


text \<open>
  A mod-tap keycode without modifiers, which a keyboard can hold, is described by an
  expression that \<open>resolve_keycode\<close> rejects, whatever the layers: a snapshot of such a
  keyboard fails its own validation.
\<close>
theorem empty_mod_tap_rejected:
  "describe_keycode 0x2004 layer_ids sample_catalog = Inr ''MT(, KC_A)'' \<and>
   (m ''MT(, KC_A)'' = None \<longrightarrow>
    resolve_keycode ''MT(, KC_A)'' m sample_catalog = Inl (UnsupportedModifier ''MT(, KC_A)'' []))"
proof (intro conjI impI)
  show "describe_keycode 0x2004 layer_ids sample_catalog = Inr ''MT(, KC_A)''"
    by code_simp
next
  assume m: "m ''MT(, KC_A)'' = None"
  have "map_of sample_catalog ''MT(, KC_A)'' = None" "call_parts ''MT(, KC_A)'' = Some (''MT'', '', KC_A'')"
    "call_arguments '', KC_A'' = [[], ''KC_A'']"
    "collect_mods ''MT(, KC_A)'' [] = Inl (UnsupportedModifier ''MT(, KC_A)'' [])"
    by code_simp+
  with m show "resolve_keycode ''MT(, KC_A)'' m sample_catalog = Inl (UnsupportedModifier ''MT(, KC_A)'' [])"
    by (simp add: resolve_keycode.simps mod_tap_keycode.simps)
qed

theorem empty_mod_tap_rejected_witness:
  "resolve_keycode ''MT(, KC_A)'' Map.empty sample_catalog = Inl (UnsupportedModifier ''MT(, KC_A)'' [])"
  using empty_mod_tap_rejected [of "[]" Map.empty] by simp

lemma u16_le_255_bits: "t \<le> (0xff :: u16) \<Longrightarrow> t AND 0xff = t"
proof -
  assume "t \<le> 0xff"
  then have "unat t < 2 ^ 8" by (simp add: word_le_nat_alt)
  then have "take_bit 8 t = t"
    by (simp add: word_eq_iff_unsigned [where 'a = nat] unsigned_take_bit_eq take_bit_nat_eq_self)
  then show ?thesis by (simp add: take_bit_eq_mask mask_eq_exp_minus_1)
qed

lemma u8_less_16_bits: "l < (16 :: u8) \<Longrightarrow> l AND 0x0f = l"
proof -
  assume "l < 16"
  then have "unat l < 2 ^ 4" by (simp add: word_less_nat_alt)
  then have "take_bit 4 l = l"
    by (simp add: word_eq_iff_unsigned [where 'a = nat] unsigned_take_bit_eq take_bit_nat_eq_self)
  then show ?thesis by (simp add: take_bit_eq_mask mask_eq_exp_minus_1)
qed

lemma layer_tap_bits:
  fixes l :: u8 and t :: u16
  shows "(0x4000 OR push_bit 8 (ucast l) OR (t AND 0xff)) AND 0xff = t AND 0xff"
    and "(0x4000 OR push_bit 8 (ucast (l AND 0x0f)) OR (t AND 0xff)) AND 0xf000 = 0x4000"
    and "drop_bit 8 (0x4000 OR push_bit 8 (ucast (l AND 0x0f)) OR (t AND 0xff)) AND 0x0f = ucast (l AND 0x0f)"
  by (rule bit_word_eqI; drule less_16; elim disjE; simp add: bit_simps)+

text \<open>
  A layer-tap expression over a basic key compiles to the QMK layer-tap keycode that
  carries the layer in its four-bit field and the key in its low byte, when the layer is
  below 16. A layer from 16 up is accepted as well, without an error, but the keycode
  produced never carries it: \<open>resolve_keycode\<close> lacks the range check of the firmware
  generator (\<open>layer_tap_keycode\<close> in \<open>generate-keymap.py\<close>).
\<close>
theorem resolve_layer_tap_fields:
  assumes cat: "catalog_ok cat" and tab: "layer_table_ok layer_ids m"
    and target: "is_ident target" "m target = Some l"
    and tap: "map_of cat tap = Some t" "is_ident tap" "t \<le> 0xff"
  shows "\<exists>k. resolve_keycode (''LT('' @ target @ '', '' @ tap @ '')'') m cat = Inr k \<and>
    k AND 0xff = t \<and>
    (k AND 0xf000 = 0x4000 \<and> drop_bit 8 k AND 0x0f = ucast l \<longleftrightarrow> l < 16)"
proof (intro exI conjI)
  let ?k = "0x4000 OR push_bit 8 (ucast l) OR t"
  show "resolve_keycode (''LT('' @ target @ '', '' @ tap @ '')'') m cat = Inr ?k"
    using resolve_LT [OF cat tab target tap] by simp
  note t = u16_le_255_bits [OF tap(3)]
  show "?k AND 0xff = t" using layer_tap_bits(1) [of l t] t by simp
  show "?k AND 0xf000 = 0x4000 \<and> drop_bit 8 ?k AND 0x0f = ucast l \<longleftrightarrow> l < 16"
  proof
    assume "?k AND 0xf000 = 0x4000 \<and> drop_bit 8 ?k AND 0x0f = ucast l"
    then have "unat (ucast l :: u16) < 16" using field_bounds(2) [of "drop_bit 8 ?k"] by simp
    then show "l < 16" using u8_less [of l] by (simp add: word_less_nat_alt unsigned_ucast_eq take_bit_nat_eq_self)
  next
    assume "l < 16"
    from u8_less_16_bits [OF this] layer_tap_bits(2,3) [of l t] t
    show "?k AND 0xf000 = 0x4000 \<and> drop_bit 8 ?k AND 0x0f = ucast l" by simp
  qed
qed

theorem resolve_layer_tap_fields_witness:
  "\<exists>k. resolve_keycode (''LT('' @ ''_L64'' @ '', '' @ ''KC_A'' @ '')'') (map_of [(''_L64'', 64)]) sample_catalog = Inr k \<and>
    k AND 0xff = 4 \<and> (k AND 0xf000 = 0x4000 \<and> drop_bit 8 k AND 0x0f = ucast (64 :: u8) \<longleftrightarrow> (64 :: u8) < 16)"
proof (rule resolve_layer_tap_fields [where layer_ids = "[]"])
  show "catalog_ok sample_catalog" by code_simp
  show "layer_table_ok [] (map_of [(''_L64'', 64)])" by (auto simp: layer_table_ok_def)
  show "is_ident ''_L64''" "is_ident ''KC_A''" by code_simp+
  show "map_of sample_catalog ''KC_A'' = Some 4" by code_simp
qed simp_all

text \<open>
  The same for momentary layers: \<open>MO(layer)\<close> is always accepted, and the keycode lies in
  the momentary range of \<open>describe_keycode\<close> with the right offset exactly for layers below
  16. For example \<open>MO(32)\<close> is stored as \<open>MO(0)\<close>.
\<close>
theorem resolve_momentary_fields:
  assumes cat: "catalog_ok cat" and tab: "layer_table_ok layer_ids m"
    and target: "is_ident target" "m target = Some l"
  shows "\<exists>k. resolve_keycode (''MO('' @ target @ '')'') m cat = Inr k \<and>
    (0x5220 \<le> k \<and> k \<le> 0x522f \<and> unat (k - 0x5220) = unat l \<longleftrightarrow> l < 16)"
proof (intro exI conjI)
  let ?k = "0x5220 OR ucast l :: u16"
  show "resolve_keycode (''MO('' @ target @ '')'') m cat = Inr ?k"
    using resolve_MO [OF cat tab target] by simp
  have "list_all (\<lambda>i. let l = of_nat i :: u8; k = 0x5220 OR ucast l :: u16 in
      (0x5220 \<le> k \<and> k \<le> 0x522f \<and> unat (k - 0x5220) = unat l) = (l < 16)) [0..<256]"
    by code_simp
  moreover have "unat l \<in> {0..<256}" using u8_less [of l] by simp
  ultimately show "0x5220 \<le> ?k \<and> ?k \<le> 0x522f \<and> unat (?k - 0x5220) = unat l \<longleftrightarrow> l < 16"
    unfolding list_all_iff set_upt Let_def by (auto dest!: bspec [where x = "unat l"])
qed

theorem resolve_momentary_fields_witness:
  "\<exists>k. resolve_keycode (''MO('' @ ''_L32'' @ '')'') (map_of [(''_L32'', 32)]) sample_catalog = Inr k \<and>
    (0x5220 \<le> k \<and> k \<le> 0x522f \<and> unat (k - 0x5220) = unat (32 :: u8) \<longleftrightarrow> (32 :: u8) < 16)"
proof (rule resolve_momentary_fields [where layer_ids = "[]"])
  show "catalog_ok sample_catalog" by code_simp
  show "layer_table_ok [] (map_of [(''_L32'', 32)])" by (auto simp: layer_table_ok_def)
  show "is_ident ''_L32''" by code_simp
qed simp

end
