(* ===== verification/Layer_Config.thy ===== *)
theory Layer_Config
  imports Keycodes
begin

text \<open>
  The keyboard configuration of \<open>packages/silakka54/sync/src/main.rs\<close>: the structures read
  from \<open>configuration.json\<close>, \<open>validate_configuration\<close>, the expansion into one key entry per
  layer and matrix position, and the lookup of a layer by name. JSON objects and
  \<open>BTreeMap\<close>s are association lists in key order; parsing the JSON text is the job of
  \<open>serde_json\<close> and not modelled.
\<close>

section \<open>Data\<close>

datatype json_number = PosInt nat | NegInt int | Float real

datatype json =
    JNull
  | JBool bool
  | JNumber json_number
  | JString string
  | JArray "json list"
  | JObject "(string \<times> json) list"

definition i64_max :: int where "i64_max = 9223372036854775807"

fun as_u64 :: "json \<Rightarrow> nat option" where
  "as_u64 (JNumber (PosInt n)) = Some n"
| "as_u64 _ = None"

fun as_i64 :: "json \<Rightarrow> int option" where
  "as_i64 (JNumber (PosInt n)) = (if int n \<le> i64_max then Some (int n) else None)"
| "as_i64 (JNumber (NegInt n)) = Some n"
| "as_i64 _ = None"

fun as_bool :: "json \<Rightarrow> bool option" where
  "as_bool (JBool b) = Some b"
| "as_bool _ = None"

fun as_str :: "json \<Rightarrow> string option" where
  "as_str (JString s) = Some s"
| "as_str _ = None"

fun json_get :: "string \<Rightarrow> json \<Rightarrow> json option" where
  "json_get k (JObject kvs) = map_of kvs k"
| "json_get k _ = None"

record configured_layer =
  layer_id :: string
  layer_name :: string
  layer_keys :: "string list"

record via_configuration =
  layers :: "configured_layer list"
  layout_options :: u32
  macros :: "string list"

record tap_hold_configuration =
  hold_on_other_key_press_mods :: "string list"
  speculative_hold_mods :: "string list"

record combo_configuration =
  combo_name :: string
  combo_keys :: "string list"
  combo_output :: string

record qmk_configuration =
  qmk_defines :: "(string \<times> json) list"
  qmk_rules :: "(string \<times> bool) list"
  tap_hold :: tap_hold_configuration
  combos :: "combo_configuration list"

record configuration =
  schema_version :: u32
  via :: via_configuration
  qmk :: qmk_configuration

record qmk_catalog =
  qmk_revision :: string
  keycodes :: catalog
  options :: "(string \<times> json) list"

record key_entry =
  entry_layer :: u8
  entry_row :: u8
  entry_col :: u8
  entry_keycode :: u16
  entry_label :: string
  entry_qmk :: string

datatype config_error =
    UnsupportedSchema u32
  | DefineNotU8 string
  | LayerCountRange u8
  | TooManyMacros nat u8
  | MacroNotAscii nat
  | LayerKeyCount string nat
  | DuplicateLayerId string
  | LayerIdNotIdentifier string
  | DuplicateLayerName string
  | DefineNotInCatalog string
  | DefineIsRule string
  | DefineNotScalar string
  | RuleNotInCatalog string
  | RuleIsDefine string
  | RuleMustBeEnabled string
  | QuickTapExceedsTapping
  | UnsupportedTapHoldModifier string string
  | DuplicateTapHoldModifier string string
  | TapHoldRequiresDefine string string
  | CombosRequireRule
  | KeycodeError keycode_error
  | ComboNameInvalid string
  | DuplicateComboName string
  | ComboTooFewKeys string
  | ComboDuplicateKeycodes string
  | ComboKeyAbsent string u16
  | LayoutPositions
  | IndexPanic
  | UnknownLayer string "string list"
  | AmbiguousLayer string
  | LayerIndexTooLarge

section \<open>Validation\<close>

definition configuration_define_u8 :: "configuration \<Rightarrow> string \<Rightarrow> (config_error, u8) res" where
  "configuration_define_u8 config name =
     ok_or (DefineNotU8 name)
       (Option.bind (Option.bind (map_of (qmk_defines (qmk config)) name) as_u64)
         (\<lambda>value. if value < 256 then Some (of_nat value) else None))"

definition check_macros :: "string list \<Rightarrow> (config_error, unit) res" where
  "check_macros ms =
     each_res (\<lambda>(index, value).
         if \<not> list_all is_ascii value \<or> CHR 0x00 \<in> set value then Inl (MacroNotAscii index)
         else Inr ())
       (enumerate 0 ms)"

definition valid_layer_id :: "string \<Rightarrow> bool" where
  "valid_layer_id ident \<longleftrightarrow>
     starts_with ident ''_'' \<and>
     list_all (\<lambda>ch. ch = CHR ''_'' \<or> is_upper ch \<or> is_digit ch) ident"

fun check_layers ::
  "string set \<Rightarrow> string set \<Rightarrow> configured_layer list \<Rightarrow> (config_error, unit) res" where
  "check_layers ids names [] = Inr ()"
| "check_layers ids names (layer # rest) =
    (if length (layer_keys layer) \<noteq> 54 then
       Inl (LayerKeyCount (layer_name layer) (length (layer_keys layer)))
     else if layer_id layer \<in> ids then Inl (DuplicateLayerId (layer_id layer))
     else if \<not> valid_layer_id (layer_id layer) then Inl (LayerIdNotIdentifier (layer_id layer))
     else if layer_name layer \<in> names then Inl (DuplicateLayerName (layer_name layer))
     else check_layers (insert (layer_id layer) ids) (insert (layer_name layer) names) rest)"

definition is_scalar_define :: "json \<Rightarrow> bool" where
  "is_scalar_define value \<longleftrightarrow>
     as_bool value \<noteq> None \<or> as_str value \<noteq> None \<or> as_i64 value \<noteq> None \<or> as_u64 value \<noteq> None"

definition option_kind :: "json \<Rightarrow> string option" where
  "option_kind metadata = Option.bind (json_get ''kind'' metadata) as_str"

definition check_define :: "qmk_catalog \<Rightarrow> string \<times> json \<Rightarrow> (config_error, unit) res" where
  "check_define catalog = (\<lambda>(name, value).
     bind_res (ok_or (DefineNotInCatalog name) (map_of (options catalog) name)) (\<lambda>metadata.
     if option_kind metadata \<noteq> Some ''define'' then Inl (DefineIsRule name)
     else if \<not> is_scalar_define value then Inl (DefineNotScalar name)
     else Inr ()))"

definition check_rule :: "qmk_catalog \<Rightarrow> string \<times> bool \<Rightarrow> (config_error, unit) res" where
  "check_rule catalog = (\<lambda>(name, _).
     bind_res (ok_or (RuleNotInCatalog name) (map_of (options catalog) name)) (\<lambda>metadata.
     if option_kind metadata \<noteq> Some ''rule'' then Inl (RuleIsDefine name) else Inr ()))"

definition quick_exceeds_tapping :: "(string \<times> json) list \<Rightarrow> bool" where
  "quick_exceeds_tapping ds =
     (case (Option.bind (map_of ds ''QUICK_TAP_TERM'') as_u64,
            Option.bind (map_of ds ''TAPPING_TERM'') as_u64) of
        (Some quick, Some tapping) \<Rightarrow> tapping < quick
      | _ \<Rightarrow> False)"

definition supported_modifiers :: "string list" where
  "supported_modifiers =
    [''MOD_LCTL'', ''MOD_LSFT'', ''MOD_LALT'', ''MOD_LGUI'', ''MOD_RCTL'', ''MOD_RSFT'',
     ''MOD_RALT'', ''MOD_RGUI'']"

fun check_modifiers :: "string \<Rightarrow> string set \<Rightarrow> string list \<Rightarrow> (config_error, unit) res" where
  "check_modifiers field unique [] = Inr ()"
| "check_modifiers field unique (modifier # rest) =
    (if modifier \<notin> set supported_modifiers then Inl (UnsupportedTapHoldModifier field modifier)
     else if modifier \<in> unique then Inl (DuplicateTapHoldModifier field modifier)
     else check_modifiers field (insert modifier unique) rest)"

definition check_tap_hold ::
  "configuration \<Rightarrow> string \<times> string list \<times> string \<Rightarrow> (config_error, unit) res" where
  "check_tap_hold config = (\<lambda>(field, modifiers, required_define).
     bind_res (check_modifiers field {} modifiers) (\<lambda>_.
     if modifiers \<noteq> [] \<and>
        Option.bind (map_of (qmk_defines (qmk config)) required_define) as_bool \<noteq> Some True
     then Inl (TapHoldRequiresDefine field required_define)
     else Inr ()))"

text \<open>
  The layer table: identifiers and display names with the layer index as a \<open>u8\<close>. A
  \<open>BTreeMap\<close> collected from pairs keeps the last value of a repeated key.
\<close>

definition layer_pairs :: "configured_layer list \<Rightarrow> (string \<times> u8) list" where
  "layer_pairs ls =
     concat (map (\<lambda>(index, layer). [(layer_id layer, of_nat index), (layer_name layer, of_nat index)])
       (enumerate 0 ls))"

definition layer_table :: "configured_layer list \<Rightarrow> layer_map" where
  "layer_table ls = map_of (rev (layer_pairs ls))"

definition valid_combo_name :: "string \<Rightarrow> bool" where
  "valid_combo_name name =
     (case name of
        [] \<Rightarrow> False
      | ch # rest \<Rightarrow> is_lower ch \<and> list_all (\<lambda>ch. is_lower ch \<or> is_digit ch \<or> ch = CHR ''_'') rest)"

definition resolve_in ::
  "configuration \<Rightarrow> qmk_catalog \<Rightarrow> string \<Rightarrow> (config_error, u16) res" where
  "resolve_in config catalog key =
     map_err KeycodeError
       (resolve_keycode key (layer_table (layers (via config))) (keycodes catalog))"

fun check_combos ::
  "configuration \<Rightarrow> qmk_catalog \<Rightarrow> u16 set \<Rightarrow> string set \<Rightarrow> combo_configuration list \<Rightarrow>
    (config_error, unit) res" where
  "check_combos config catalog active names [] = Inr ()"
| "check_combos config catalog active names (combo # rest) =
    (if \<not> valid_combo_name (combo_name combo) then Inl (ComboNameInvalid (combo_name combo))
     else if combo_name combo \<in> names then Inl (DuplicateComboName (combo_name combo))
     else if length (combo_keys combo) < 2 then Inl (ComboTooFewKeys (combo_name combo))
     else
       bind_res (map_res (resolve_in config catalog) (combo_keys combo)) (\<lambda>keys.
       if length (remdups keys) \<noteq> length (combo_keys combo) then
         Inl (ComboDuplicateKeycodes (combo_name combo))
       else
       bind_res (each_res (\<lambda>key. if key \<in> active then Inr ()
                   else Inl (ComboKeyAbsent (combo_name combo) key)) (sort (remdups keys))) (\<lambda>_.
       bind_res (resolve_in config catalog (combo_output combo)) (\<lambda>_.
       check_combos config catalog active (insert (combo_name combo) names) rest))))"

definition validate_configuration ::
  "configuration \<Rightarrow> qmk_catalog \<Rightarrow> (config_error, unit) res" where
  "validate_configuration config catalog =
    (if schema_version config \<noteq> 1 then Inl (UnsupportedSchema (schema_version config)) else
     bind_res (configuration_define_u8 config ''DYNAMIC_KEYMAP_LAYER_COUNT'') (\<lambda>layer_count.
     bind_res (configuration_define_u8 config ''DYNAMIC_KEYMAP_MACRO_COUNT'') (\<lambda>macro_count.
     if layers (via config) = [] \<or> unat layer_count < length (layers (via config)) then
       Inl (LayerCountRange layer_count)
     else if unat macro_count < length (macros (via config)) then
       Inl (TooManyMacros (length (macros (via config))) macro_count)
     else
     bind_res (check_macros (macros (via config))) (\<lambda>_.
     bind_res (check_layers {} {} (layers (via config))) (\<lambda>_.
     bind_res (each_res (check_define catalog) (qmk_defines (qmk config))) (\<lambda>_.
     bind_res (each_res (check_rule catalog) (qmk_rules (qmk config))) (\<lambda>_.
     bind_res (each_res (\<lambda>required. if map_of (qmk_rules (qmk config)) required \<noteq> Some True
                 then Inl (RuleMustBeEnabled required) else Inr ())
               [''VIA_ENABLE'', ''RAW_ENABLE'']) (\<lambda>_.
     if quick_exceeds_tapping (qmk_defines (qmk config)) then Inl QuickTapExceedsTapping else
     bind_res (each_res (check_tap_hold config)
        [(''hold_on_other_key_press_mods'', hold_on_other_key_press_mods (tap_hold (qmk config)),
          ''HOLD_ON_OTHER_KEY_PRESS_PER_KEY''),
         (''speculative_hold_mods'', speculative_hold_mods (tap_hold (qmk config)),
          ''SPECULATIVE_HOLD'')]) (\<lambda>_.
     if combos (qmk config) \<noteq> [] \<and> map_of (qmk_rules (qmk config)) ''COMBO_ENABLE'' \<noteq> Some True then
       Inl CombosRequireRule
     else
     bind_res (map_res (resolve_in config catalog) (concat (map layer_keys (layers (via config)))))
       (\<lambda>active.
     check_combos config catalog (set active) {} (combos (qmk config))))))))))))"

section \<open>Key entries\<close>

definition key_name :: "configured_layer option \<Rightarrow> nat \<Rightarrow> (config_error, string) res" where
  "key_name configured index =
     (case configured of
        None \<Rightarrow> Inr ''KC_TRNS''
      | Some layer \<Rightarrow> ok_or IndexPanic (list_get (layer_keys layer) index))"

definition layer_entries ::
  "configuration \<Rightarrow> qmk_catalog \<Rightarrow> (u8 \<times> u8) list \<Rightarrow> nat \<Rightarrow> (config_error, key_entry list) res" where
  "layer_entries config catalog positions layer_index =
     map_res (\<lambda>(index, row, col).
        bind_res (key_name (list_get (layers (via config)) layer_index) index) (\<lambda>name.
        bind_res (resolve_in config catalog name) (\<lambda>keycode.
        Inr \<lparr>entry_layer = of_nat layer_index, entry_row = row, entry_col = col,
             entry_keycode = keycode, entry_label = name, entry_qmk = name\<rparr>)))
       (enumerate 0 positions)"

definition base_positions :: "key_entry list \<Rightarrow> (u8 \<times> u8) list" where
  "base_positions packaged =
     map (\<lambda>e. (entry_row e, entry_col e)) (filter (\<lambda>e. entry_layer e = 0) packaged)"

definition configuration_entries ::
  "configuration \<Rightarrow> qmk_catalog \<Rightarrow> key_entry list \<Rightarrow> (config_error, key_entry list) res" where
  "configuration_entries config catalog packaged =
     bind_res (validate_configuration config catalog) (\<lambda>_.
     let positions = base_positions packaged in
     if length positions \<noteq> 54 then Inl LayoutPositions else
     bind_res (configuration_define_u8 config ''DYNAMIC_KEYMAP_LAYER_COUNT'') (\<lambda>capacity.
     bind_res (map_res (layer_entries config catalog positions) [0..<unat capacity])
       (\<lambda>rows. Inr (concat rows))))"

section \<open>Layers by name\<close>

definition layer_matches :: "string \<Rightarrow> configured_layer \<Rightarrow> bool" where
  "layer_matches requested layer \<longleftrightarrow>
     eq_ignore_ascii_case (layer_name layer) requested \<or>
     eq_ignore_ascii_case (layer_id layer) requested \<or>
     (case strip_prefix ''_'' (layer_id layer) of
        Some ident \<Rightarrow> eq_ignore_ascii_case ident requested
      | None \<Rightarrow> False)"

definition resolve_layer ::
  "configuration \<Rightarrow> string \<Rightarrow> (config_error, u8 \<times> string) res" where
  "resolve_layer config requested =
     (case filter (\<lambda>(_, layer). layer_matches requested layer) (enumerate 0 (layers (via config))) of
        [(index, layer)] \<Rightarrow>
          if index < 256 then Inr (of_nat index, layer_name layer) else Inl LayerIndexTooLarge
      | [] \<Rightarrow> Inl (UnknownLayer requested (map layer_name (layers (via config))))
      | _ \<Rightarrow> Inl (AmbiguousLayer requested))"

section \<open>What validation establishes\<close>

definition layers_ok :: "configured_layer list \<Rightarrow> bool" where
  "layers_ok ls \<longleftrightarrow>
     distinct (map layer_id ls) \<and> distinct (map layer_name ls) \<and>
     (\<forall>l \<in> set ls. length (layer_keys l) = 54 \<and> valid_layer_id (layer_id l))"

lemma check_layers_iff:
  "check_layers ids names ls = Inr () \<longleftrightarrow>
     layers_ok ls \<and> (\<forall>l \<in> set ls. layer_id l \<notin> ids \<and> layer_name l \<notin> names)"
  by (induction ids names ls rule: check_layers.induct)
    (auto simp: layers_ok_def image_iff)

lemma check_modifiers_iff:
  "check_modifiers field unique ms = Inr () \<longleftrightarrow>
     distinct ms \<and> set ms \<subseteq> set supported_modifiers \<and> set ms \<inter> unique = {}"
  by (induction field unique ms rule: check_modifiers.induct) auto

lemma check_macros_iff:
  "check_macros ms = Inr () \<longleftrightarrow> (\<forall>m \<in> set ms. list_all is_ascii m \<and> CHR 0x00 \<notin> set m)"
proof -
  have "(\<forall>p \<in> set (enumerate n ms). Q (snd p)) \<longleftrightarrow> (\<forall>m \<in> set ms. Q m)" for Q n
    by (induction ms arbitrary: n) auto
  from this [of 0 "\<lambda>m. list_all is_ascii m \<and> CHR 0x00 \<notin> set m"] show ?thesis
    by (simp add: check_macros_def split_beta)
qed

definition combo_ok :: "configuration \<Rightarrow> qmk_catalog \<Rightarrow> u16 set \<Rightarrow> combo_configuration \<Rightarrow> bool" where
  "combo_ok config catalog active combo \<longleftrightarrow>
     valid_combo_name (combo_name combo) \<and> 2 \<le> length (combo_keys combo) \<and>
     (\<exists>keys. map_res (resolve_in config catalog) (combo_keys combo) = Inr keys \<and>
        distinct keys \<and> set keys \<subseteq> active) \<and>
     (\<exists>k. resolve_in config catalog (combo_output combo) = Inr k)"

lemma check_combos_iff:
  "check_combos config catalog active names cs = Inr () \<longleftrightarrow>
     distinct (map combo_name cs) \<and>
     (\<forall>c \<in> set cs. combo_name c \<notin> names \<and> combo_ok config catalog active c)"
proof (induction cs arbitrary: names)
  case Nil
  then show ?case by simp
next
  case (Cons combo rest)
  have len: "length (remdups keys) = length (combo_keys combo) \<longleftrightarrow> distinct keys"
    if "map_res (resolve_in config catalog) (combo_keys combo) = Inr keys" for keys
    using map_res_length [OF that] by (metis distinct_remdups length_remdups_eq remdups_id_iff_distinct)
  have act: "each_res (\<lambda>key. if key \<in> active then Inr () else Inl (f key)) (sort (remdups keys)) = Inr ()
      \<longleftrightarrow> set keys \<subseteq> active" for keys and f :: "u16 \<Rightarrow> config_error"
    by (auto split: if_splits)
  show ?case
    by (cases "map_res (resolve_in config catalog) (combo_keys combo)";
        cases "resolve_in config catalog (combo_output combo)")
      (auto simp: Cons.IH act combo_ok_def len image_iff simp del: each_res_Inr)
qed

text \<open>The declarative reading of \<open>validate_configuration\<close>.\<close>

definition configuration_ok :: "configuration \<Rightarrow> qmk_catalog \<Rightarrow> bool" where
  "configuration_ok config catalog \<longleftrightarrow>
     schema_version config = 1 \<and>
     (\<exists>layer_count macro_count.
        configuration_define_u8 config ''DYNAMIC_KEYMAP_LAYER_COUNT'' = Inr layer_count \<and>
        configuration_define_u8 config ''DYNAMIC_KEYMAP_MACRO_COUNT'' = Inr macro_count \<and>
        length (layers (via config)) \<le> unat layer_count \<and>
        length (macros (via config)) \<le> unat macro_count) \<and>
     layers (via config) \<noteq> [] \<and> layers_ok (layers (via config)) \<and>
     (\<forall>m \<in> set (macros (via config)). list_all is_ascii m \<and> CHR 0x00 \<notin> set m) \<and>
     (\<forall>(name, value) \<in> set (qmk_defines (qmk config)). is_scalar_define value \<and>
        (\<exists>md. map_of (options catalog) name = Some md \<and> option_kind md = Some ''define'')) \<and>
     (\<forall>(name, _) \<in> set (qmk_rules (qmk config)).
        \<exists>md. map_of (options catalog) name = Some md \<and> option_kind md = Some ''rule'') \<and>
     map_of (qmk_rules (qmk config)) ''VIA_ENABLE'' = Some True \<and>
     map_of (qmk_rules (qmk config)) ''RAW_ENABLE'' = Some True \<and>
     \<not> quick_exceeds_tapping (qmk_defines (qmk config)) \<and>
     (\<forall>(ms, required) \<in>
        {(hold_on_other_key_press_mods (tap_hold (qmk config)), ''HOLD_ON_OTHER_KEY_PRESS_PER_KEY''),
         (speculative_hold_mods (tap_hold (qmk config)), ''SPECULATIVE_HOLD'')}.
        distinct ms \<and> set ms \<subseteq> set supported_modifiers \<and>
        (ms = [] \<or> Option.bind (map_of (qmk_defines (qmk config)) required) as_bool = Some True)) \<and>
     (combos (qmk config) = [] \<or> map_of (qmk_rules (qmk config)) ''COMBO_ENABLE'' = Some True) \<and>
     distinct (map combo_name (combos (qmk config))) \<and>
     (\<exists>active. map_res (resolve_in config catalog) (concat (map layer_keys (layers (via config)))) = Inr active \<and>
        (\<forall>c \<in> set (combos (qmk config)). combo_ok config catalog (set active) c))"

lemma check_define_iff:
  "check_define catalog (name, value) = Inr () \<longleftrightarrow> is_scalar_define value \<and>
     (\<exists>md. map_of (options catalog) name = Some md \<and> option_kind md = Some ''define'')"
  by (auto simp: check_define_def)

lemma check_rule_iff:
  "check_rule catalog (name, b) = Inr () \<longleftrightarrow>
     (\<exists>md. map_of (options catalog) name = Some md \<and> option_kind md = Some ''rule'')"
  by (auto simp: check_rule_def)

lemma check_tap_hold_iff:
  "check_tap_hold config (field, ms, required) = Inr () \<longleftrightarrow>
     distinct ms \<and> set ms \<subseteq> set supported_modifiers \<and>
     (ms = [] \<or> Option.bind (map_of (qmk_defines (qmk config)) required) as_bool = Some True)"
  by (auto simp: check_tap_hold_def check_modifiers_iff)

text \<open>
  C19: \<open>validate_configuration\<close> accepts exactly the well-formed configurations: schema 1, at
  least one and at most \<open>DYNAMIC_KEYMAP_LAYER_COUNT\<close> layers with 54 keys each and distinct
  identifiers and names, NUL-free ASCII macros within capacity, options of the right kind,
  known tap-hold modifiers, every key resolvable, and combos of distinct active keys.
\<close>
theorem validate_configuration_iff:
  "validate_configuration config catalog = Inr () \<longleftrightarrow> configuration_ok config catalog"
  unfolding validate_configuration_def configuration_ok_def
  by (auto simp: check_macros_iff check_layers_iff check_combos_iff check_define_iff check_rule_iff check_tap_hold_iff
      Ball_def split_beta not_less)

section \<open>Key entries are complete\<close>

text \<open>The key the configuration assigns to a layer and a position.\<close>

definition expected_key :: "configuration \<Rightarrow> nat \<Rightarrow> nat \<Rightarrow> string" where
  "expected_key config l i =
     (if l < length (layers (via config)) then layer_keys (layers (via config) ! l) ! i else ''KC_TRNS'')"

definition entry_for ::
  "configuration \<Rightarrow> qmk_catalog \<Rightarrow> (u8 \<times> u8) list \<Rightarrow> nat \<Rightarrow> nat \<Rightarrow> key_entry \<Rightarrow> bool" where
  "entry_for config catalog positions l i e \<longleftrightarrow>
     entry_layer e = of_nat l \<and> (entry_row e, entry_col e) = positions ! i \<and>
     entry_qmk e = expected_key config l i \<and> entry_label e = expected_key config l i \<and>
     resolve_in config catalog (expected_key config l i) = Inr (entry_keycode e)"

lemma key_name_iff:
  "key_name (list_get (layers (via config)) l) i = Inr name \<longleftrightarrow>
     (if l < length (layers (via config)) then i < length (layer_keys (layers (via config) ! l)) else True) \<and>
     name = expected_key config l i"
  by (auto simp: key_name_def expected_key_def list_get_def)

lemma layer_entries_nth:
  assumes "layer_entries config catalog positions l = Inr es"
  shows "length es = length positions" and "i < length positions \<Longrightarrow> entry_for config catalog positions l i (es ! i)"
proof -
  show len: "length es = length positions"
    using map_res_length [OF assms [unfolded layer_entries_def]] by simp
  assume i: "i < length positions"
  obtain e where e: "e = es ! i" by simp
  have "entry_for config catalog positions l i e"
    using map_res_nth [OF assms [unfolded layer_entries_def], of i] i
    by (cases "positions ! i") (auto simp: nth_enumerate_eq entry_for_def key_name_iff simp flip: e)
  then show "entry_for config catalog positions l i (es ! i)" by (simp add: e)
qed

lemma configuration_entries_shape:
  assumes "configuration_entries config catalog packaged = Inr es"
  shows "\<exists>capacity. configuration_define_u8 config ''DYNAMIC_KEYMAP_LAYER_COUNT'' = Inr capacity \<and>
    length es = unat capacity * 54 \<and>
    (\<forall>l < unat capacity. \<forall>i < 54.
       entry_for config catalog (base_positions packaged) l i (es ! (l * 54 + i)))"
proof -
  from assms obtain capacity rows where cap:
      "configuration_define_u8 config ''DYNAMIC_KEYMAP_LAYER_COUNT'' = Inr capacity"
    and rows: "map_res (layer_entries config catalog (base_positions packaged)) [0..<unat capacity] = Inr rows"
    and es: "es = concat rows" and p: "length (base_positions packaged) = 54"
    by (auto simp: configuration_entries_def Let_def split: if_splits)
  have row: "l < unat capacity \<Longrightarrow> layer_entries config catalog (base_positions packaged) l = Inr (rows ! l)" for l
    using map_res_nth [OF rows, of l] by simp
  have len: "length rows = unat capacity"
    using map_res_length [OF rows] by simp
  have u: "length r = 54" if "r \<in> set rows" for r
    using that row layer_entries_nth(1) p len by (metis in_set_conv_nth)
  show ?thesis
    using row layer_entries_nth(2) p len u
    by (auto simp: cap es concat_length_uniform concat_nth_uniform)
qed

text \<open>
  C20: The expanded configuration holds one entry for each of the firmware's layers and each
  of the 54 positions, in order, with the key the configuration names there (\<open>KC_TRNS\<close> on
  layers beyond the configured ones) and the keycode that key resolves to.
\<close>
theorem configuration_entries_correct:
  assumes "configuration_entries config catalog packaged = Inr es"
  shows "\<exists>capacity. configuration_define_u8 config ''DYNAMIC_KEYMAP_LAYER_COUNT'' = Inr capacity \<and>
    length es = unat capacity * 54 \<and>
    (\<forall>l < unat capacity. \<forall>i < 54.
       entry_for config catalog (base_positions packaged) l i (es ! (l * 54 + i)))"
  by (rule configuration_entries_shape [OF assms])

text \<open>
  No two entries of the expanded configuration address the same layer, row and column
  when the packaged layout has distinct positions.
\<close>
lemma configuration_entries_positions_distinct:
  assumes "configuration_entries config catalog packaged = Inr es" and d: "distinct (base_positions packaged)"
  shows "distinct (map (\<lambda>e. (entry_layer e, entry_row e, entry_col e)) es)"
proof -
  obtain capacity where len: "length es = unat (capacity :: u8) * 54"
    and e: "\<And>l i. l < unat capacity \<Longrightarrow> i < 54 \<Longrightarrow>
       entry_for config catalog (base_positions packaged) l i (es ! (l * 54 + i))"
    using configuration_entries_shape [OF assms(1)] by blast
  have p: "length (base_positions packaged) = 54"
    using assms(1) by (auto simp: configuration_entries_def Let_def split: if_splits)
  have at: "entry_for config catalog (base_positions packaged) (n div 54) (n mod 54) (es ! n)"
    if "n < length es" for n
    using e [of "n div 54" "n mod 54"] that len by (simp add: less_mult_imp_div_less)
  have inj: "a div 54 = b div 54" if "a < length es" "b < length es"
    "(of_nat (a div 54) :: u8) = of_nat (b div 54)" for a b
  proof -
    have "a div 54 < unat capacity" "b div 54 < unat capacity"
      using that len by (simp_all add: less_mult_imp_div_less)
    then have "a div 54 < 256" "b div 54 < 256" using u8_less [of capacity] by linarith+
    with that(3) show ?thesis by (simp add: word_of_nat_eq_iff take_bit_nat_eq_self)
  qed
  show ?thesis
  proof (rule distinct_conv_nth [THEN iffD2], intro allI impI)
    fix a b assume ab: "a < length (map (\<lambda>e. (entry_layer e, entry_row e, entry_col e)) es)"
      "b < length (map (\<lambda>e. (entry_layer e, entry_row e, entry_col e)) es)" "a \<noteq> b"
    show "map (\<lambda>e. (entry_layer e, entry_row e, entry_col e)) es ! a \<noteq> map (\<lambda>e. (entry_layer e, entry_row e, entry_col e)) es ! b"
    proof
      assume eq: "map (\<lambda>e. (entry_layer e, entry_row e, entry_col e)) es ! a =
        map (\<lambda>e. (entry_layer e, entry_row e, entry_col e)) es ! b"
      have "base_positions packaged ! (a mod 54) = base_positions packaged ! (b mod 54)"
        using eq ab at [of a] at [of b] by (simp add: entry_for_def)
      then have m: "a mod 54 = b mod 54"
        using d p by (simp add: nth_eq_iff_index_eq)
      have "a div 54 = b div 54"
        by (rule inj) (use eq ab at [of a] at [of b] in \<open>simp_all add: entry_for_def\<close>)
      with m ab(3) show False by (metis div_mult_mod_eq)
    qed
  qed
qed

section \<open>The layer table and the lookup by name\<close>

lemma layer_pairs_snoc:
  "layer_pairs (ls @ [l]) = layer_pairs ls @
     [(layer_id l, of_nat (length ls)), (layer_name l, of_nat (length ls))]"
  by (simp add: layer_pairs_def enumerate_append_eq)

definition names_layer :: "string \<Rightarrow> configured_layer \<Rightarrow> bool" where
  "names_layer s l \<longleftrightarrow> layer_id l = s \<or> layer_name l = s"

lemma layer_table_snoc:
  "layer_table (ls @ [l]) s = (if names_layer s l then Some (of_nat (length ls)) else layer_table ls s)"
  by (auto simp: layer_table_def layer_pairs_snoc names_layer_def)

lemma layer_table_Nil: "layer_table [] s = None"
  by (simp add: layer_table_def layer_pairs_def)

text \<open>
  The layer table maps a string to the last layer whose identifier or display name it is.
\<close>
theorem layer_table_last:
  assumes "length ls \<le> 256"
  shows "layer_table ls s = Some v \<longleftrightarrow>
    (\<exists>i < length ls. v = of_nat i \<and> names_layer s (ls ! i) \<and>
       (\<forall>j. i < j \<longrightarrow> j < length ls \<longrightarrow> \<not> names_layer s (ls ! j)))"
  using assms
proof (induction ls arbitrary: v rule: rev_induct)
  case Nil
  then show ?case by (simp add: layer_table_Nil)
next
  case (snoc l ls)
  show ?case
  proof (cases "names_layer s l")
    case True
    have "i = length ls" if "i < Suc (length ls)"
      "\<forall>j. i < j \<longrightarrow> j < Suc (length ls) \<longrightarrow> \<not> names_layer s ((ls @ [l]) ! j)" for i
      using that True by (metis less_antisym lessI nth_append_length)
    then show ?thesis using True
      by (auto simp: layer_table_snoc less_Suc_eq)
  next
    case False
    then show ?thesis using snoc
      by (auto simp: layer_table_snoc nth_append less_Suc_eq)
  qed
qed

text \<open>
  A layer request succeeds exactly when one layer answers to it, by name, by identifier
  or by identifier without its underscore, ignoring ASCII case; the result is that layer's
  index and display name.
\<close>
theorem resolve_layer_unique:
  assumes "length (layers (via config)) \<le> 255"
  shows "resolve_layer config requested = Inr (index, name) \<longleftrightarrow>
    (\<exists>i < length (layers (via config)). index = of_nat i \<and>
       layer_matches requested (layers (via config) ! i) \<and> name = layer_name (layers (via config) ! i) \<and>
       (\<forall>j < length (layers (via config)). layer_matches requested (layers (via config) ! j) \<longrightarrow> j = i))"
proof -
  let ?ls = "layers (via config)"
  have small: "i < 256" if "i < length ?ls" for i
    using that assms by linarith
  have "resolve_layer config requested = Inr (index, name) \<longleftrightarrow>
     (\<exists>i. filter (\<lambda>i. layer_matches requested (?ls ! i)) [0..<length ?ls] = [i] \<and> i < 256 \<and>
        index = of_nat i \<and> name = layer_name (?ls ! i))"
    by (auto simp: resolve_layer_def filter_enumerate split: list.splits)
  then show ?thesis
    unfolding filter_upt_single using small by blast
qed

section \<open>A sample configuration\<close>

definition sample_options :: "(string \<times> json) list" where
  "sample_options =
    [(''COMBO_ENABLE'', JObject [(''kind'', JString ''rule'')]),
     (''DYNAMIC_KEYMAP_LAYER_COUNT'', JObject [(''kind'', JString ''define'')]),
     (''DYNAMIC_KEYMAP_MACRO_COUNT'', JObject [(''kind'', JString ''define'')]),
     (''RAW_ENABLE'', JObject [(''kind'', JString ''rule'')]),
     (''VIA_ENABLE'', JObject [(''kind'', JString ''rule'')])]"

definition sample_qmk_catalog :: qmk_catalog where
  "sample_qmk_catalog = \<lparr>qmk_revision = ''r1'', keycodes = sample_catalog, options = sample_options\<rparr>"

definition sample_layer :: "string \<Rightarrow> string \<Rightarrow> string \<Rightarrow> configured_layer" where
  "sample_layer ident name first =
     \<lparr>layer_id = ident, layer_name = name, layer_keys = first # ''KC_SPC'' # replicate 52 ''KC_A''\<rparr>"

definition sample_configuration :: "configured_layer list \<Rightarrow> nat \<Rightarrow> configuration" where
  "sample_configuration ls count =
     \<lparr>schema_version = 1,
      via = \<lparr>layers = ls, layout_options = 0, macros = [''hi'']\<rparr>,
      qmk = \<lparr>qmk_defines = [(''DYNAMIC_KEYMAP_LAYER_COUNT'', JNumber (PosInt count)),
                            (''DYNAMIC_KEYMAP_MACRO_COUNT'', JNumber (PosInt 16))],
             qmk_rules = [(''COMBO_ENABLE'', True), (''RAW_ENABLE'', True), (''VIA_ENABLE'', True)],
             tap_hold = \<lparr>hold_on_other_key_press_mods = [], speculative_hold_mods = []\<rparr>,
             combos = [\<lparr>combo_name = ''ab'', combo_keys = [''KC_A'', ''KC_SPACE''],
                        combo_output = ''MO(1)''\<rparr>]\<rparr>\<rparr>"

definition sample_packaged :: "key_entry list" where
  "sample_packaged = map (\<lambda>i.
     \<lparr>entry_layer = 0, entry_row = of_nat (i div 6), entry_col = of_nat (i mod 6),
      entry_keycode = 0, entry_label = [], entry_qmk = []\<rparr>) [0..<54]"

definition sample_layers :: "configured_layer list" where
  "sample_layers = [sample_layer ''_A'' ''Base'' ''MO(_B)'', sample_layer ''_B'' ''Nav'' ''KC_A'']"

lemma sample_entries:
  "is_ok (configuration_entries (sample_configuration sample_layers 3) sample_qmk_catalog sample_packaged)"
  by code_simp

theorem configuration_entries_correct_witness:
  "\<exists>es. configuration_entries (sample_configuration sample_layers 3) sample_qmk_catalog sample_packaged = Inr es \<and>
     length es = 162 \<and> entry_qmk (es ! 54) = ''KC_A'' \<and> entry_qmk (es ! 108) = ''KC_TRNS''"
proof -
  let ?c = "sample_configuration sample_layers 3"
  obtain es where es: "configuration_entries ?c sample_qmk_catalog sample_packaged = Inr es"
    using sample_entries by (auto simp: is_ok_iff)
  have cap: "configuration_define_u8 ?c ''DYNAMIC_KEYMAP_LAYER_COUNT'' = Inr 3"
    by code_simp
  have keys: "expected_key ?c 1 0 = ''KC_A''" "expected_key ?c 2 0 = ''KC_TRNS''"
    by code_simp+
  have len: "length es = 162"
    and at: "\<forall>l < 3. \<forall>i < 54. entry_for ?c sample_qmk_catalog (base_positions sample_packaged) l i (es ! (l * 54 + i))"
    using configuration_entries_correct [OF es] cap by auto
  have "entry_qmk (es ! 54) = ''KC_A''" "entry_qmk (es ! 108) = ''KC_TRNS''"
    using at [rule_format, of 1 0] at [rule_format, of 2 0] keys by (simp_all add: entry_for_def)
  with es len show ?thesis by blast
qed

theorem resolve_layer_unique_witness:
  "resolve_layer (sample_configuration sample_layers 3) ''b'' = Inr (1, ''Nav'')"
proof -
  have small: "length (layers (via (sample_configuration sample_layers 3))) \<le> 255"
    by code_simp
  have m: "layer_matches ''b'' (sample_layers ! 1)" "\<not> layer_matches ''b'' (sample_layers ! 0)"
    by code_simp+
  have "layers (via (sample_configuration sample_layers 3)) = sample_layers" "length sample_layers = 2"
    "layer_name (sample_layers ! 1) = ''Nav''"
    by (simp_all add: sample_configuration_def sample_layers_def sample_layer_def)
  with m show ?thesis
    by (intro resolve_layer_unique [OF small, THEN iffD2] exI [of _ "1 :: nat"])
      (simp add: less_2_cases_iff)
qed

theorem layer_table_last_witness:
  "layer_table sample_layers ''Nav'' = Some 1"
proof -
  have small: "length sample_layers \<le> 256" by code_simp
  have "length sample_layers = 2" "names_layer ''Nav'' (sample_layers ! 1)"
    by (simp_all add: sample_layers_def sample_layer_def names_layer_def)
  then show ?thesis
    by (intro layer_table_last [OF small, THEN iffD2] exI [of _ "1 :: nat"]) simp
qed

text \<open>
  Validation compares identifiers with identifiers and names with names only. A layer
  whose display name is another layer's identifier therefore passes, and takes that
  identifier over: \<open>MO(_A)\<close> activates layer 1 although \<open>_A\<close> identifies layer 0.
\<close>
theorem display_name_takes_identifier:
  "let ls = [sample_layer ''_A'' ''Base'' ''MO(_A)'', sample_layer ''_B'' ''_A'' ''KC_A''];
       config = sample_configuration ls 2
   in validate_configuration config sample_qmk_catalog = Inr () \<and> layer_id (ls ! 0) = ''_A'' \<and>
      resolve_in config sample_qmk_catalog ''MO(_A)'' = resolve_in config sample_qmk_catalog ''MO(1)''"
  unfolding Let_def
  by (intro conjI; code_simp)

end
