(* ===== verification/Macro_Buffer.thy ===== *)
theory Macro_Buffer
  imports Layer_Config
begin

text \<open>
  The VIA macro buffer of \<open>packages/silakka54/sync/src/main.rs\<close>: \<open>desired_macro_buffer\<close> lays
  the configured macros out as NUL-terminated strings in a zeroed buffer,
  \<open>decode_macro_buffer\<close> reads them back from a keyboard.
\<close>

section \<open>Strings as bytes\<close>

definition byte_of :: "char \<Rightarrow> byte" where "byte_of c = of_nat (code c)"
definition char_of_byte :: "byte \<Rightarrow> char" where "char_of_byte b = char_of (unat b)"

definition as_bytes :: "string \<Rightarrow> byte list" where "as_bytes s = map byte_of s"

lemma unat_byte_of: "unat (byte_of c) = code c"
  by (simp add: byte_of_def unsigned_of_nat take_bit_nat_eq_self)

lemma char_of_byte_of [simp]: "char_of_byte (byte_of c) = c"
  by (simp add: char_of_byte_def unat_byte_of code_def)

lemma as_bytes_inverse [simp]: "map char_of_byte (as_bytes s) = s"
  by (simp add: as_bytes_def o_def)

lemma length_as_bytes [simp]: "length (as_bytes s) = length s"
  by (simp add: as_bytes_def)

lemma byte_of_eq_0: "byte_of c = 0 \<longleftrightarrow> c = CHR 0x00"
proof -
  have "byte_of c = 0 \<longleftrightarrow> code c = 0"
    by (metis unat_byte_of unsigned_eq_0_iff)
  then show ?thesis
    using code_inj [of c "CHR 0x00"] by simp
qed

definition is_cont :: "byte \<Rightarrow> bool" where "is_cont b \<longleftrightarrow> 0x80 \<le> b \<and> b \<le> 0xbf"

text \<open>\<open>std::str::from_utf8\<close>: the well-formed byte sequences of Unicode's table 3-7.\<close>

fun utf8_valid :: "byte list \<Rightarrow> bool" where
  "utf8_valid [] = True"
| "utf8_valid (b # rest) =
    (if b < 0x80 then utf8_valid rest
     else if 0xc2 \<le> b \<and> b \<le> 0xdf then
       (case rest of c # rest' \<Rightarrow> is_cont c \<and> utf8_valid rest' | _ \<Rightarrow> False)
     else if 0xe0 \<le> b \<and> b \<le> 0xef then
       (case rest of
          c # d # rest' \<Rightarrow>
            (if b = 0xe0 then 0xa0 \<le> c \<and> c \<le> 0xbf
             else if b = 0xed then 0x80 \<le> c \<and> c \<le> 0x9f else is_cont c) \<and>
            is_cont d \<and> utf8_valid rest'
        | _ \<Rightarrow> False)
     else if 0xf0 \<le> b \<and> b \<le> 0xf4 then
       (case rest of
          c # d # e # rest' \<Rightarrow>
            (if b = 0xf0 then 0x90 \<le> c \<and> c \<le> 0xbf
             else if b = 0xf4 then 0x80 \<le> c \<and> c \<le> 0x8f else is_cont c) \<and>
            is_cont d \<and> is_cont e \<and> utf8_valid rest'
        | _ \<Rightarrow> False)
     else False)"

definition from_utf8 :: "byte list \<Rightarrow> string option" where
  "from_utf8 bs = (if utf8_valid bs then Some (map char_of_byte bs) else None)"

lemma utf8_valid_ascii: "list_all (\<lambda>b. b < 0x80) bs \<Longrightarrow> utf8_valid bs"
  by (induction bs) auto

lemma from_utf8_ascii: "list_all is_ascii s \<Longrightarrow> from_utf8 (as_bytes s) = Some s"
proof -
  assume "list_all is_ascii s"
  then have "list_all (\<lambda>b. b < 0x80) (as_bytes s)"
    by (auto simp: list_all_iff as_bytes_def is_ascii_def word_less_nat_alt unat_byte_of)
  then show ?thesis by (simp add: from_utf8_def utf8_valid_ascii)
qed

section \<open>The two functions\<close>

datatype macro_error =
    MacrosExceedCapacity nat u8
  | MacroExceedsBuffer nat nat
  | MacroNotUtf8

fun split_bytes :: "byte list \<Rightarrow> byte list list" where
  "split_bytes [] = [[]]"
| "split_bytes (b # bs) =
     (if b = 0 then [] # split_bytes bs
      else (case split_bytes bs of [] \<Rightarrow> [[b]] | y # ys \<Rightarrow> (b # y) # ys))"

fun pop_empty :: "string list \<Rightarrow> string list" where
  "pop_empty [] = []"
| "pop_empty (m # ms) = (case pop_empty ms of [] \<Rightarrow> (if m = [] then [] else [m]) | r \<Rightarrow> m # r)"

definition decode_macro_buffer :: "byte list \<Rightarrow> u8 \<Rightarrow> (macro_error, string list) res" where
  "decode_macro_buffer buffer capacity =
     bind_res (map_res (\<lambda>value. ok_or MacroNotUtf8 (from_utf8 value))
                 (take (unat capacity) (split_bytes buffer)))
       (\<lambda>values. Inr (pop_empty values))"

definition write_macro ::
  "nat \<Rightarrow> byte list \<times> nat \<Rightarrow> nat \<times> string \<Rightarrow> (macro_error, byte list \<times> nat) res" where
  "write_macro buffer_size = (\<lambda>(output, cursor) (index, value).
     let required = length value + 1 in
     if length output < cursor + required then Inl (MacroExceedsBuffer index buffer_size)
     else Inr (take cursor output @ as_bytes value @ drop (cursor + length value) output,
               cursor + required))"

definition desired_macro_buffer :: "string list \<Rightarrow> u8 \<Rightarrow> nat \<Rightarrow> (macro_error, byte list) res" where
  "desired_macro_buffer values capacity buffer_size =
    (if unat capacity < length values then Inl (MacrosExceedCapacity (length values) capacity)
     else bind_res (fold_res (write_macro buffer_size) (replicate buffer_size 0, 0) (enumerate 0 values))
            (\<lambda>(output, _). Inr output))"

section \<open>Layout and round trip\<close>

definition macro_bytes :: "string list \<Rightarrow> byte list" where
  "macro_bytes ms = concat (map (\<lambda>m. as_bytes m @ [0]) ms)"

lemma length_macro_bytes: "length (macro_bytes ms) = (\<Sum>m\<leftarrow>ms. length m + 1)"
  by (induction ms) (simp_all add: macro_bytes_def)

lemma macro_bytes_Cons: "macro_bytes (m # ms) = as_bytes m @ 0 # macro_bytes ms"
  by (simp add: macro_bytes_def)

lemma write_macro_fits:
  assumes "length m + 1 \<le> n"
  shows "write_macro sz (pre @ replicate n 0, length pre) (k, m) =
    Inr ((pre @ as_bytes m @ [0]) @ replicate (n - length m - 1) 0, length (pre @ as_bytes m @ [0]))"
  using assms by (cases "n - length m") (auto simp: write_macro_def Let_def)

lemma write_macro_full:
  assumes "\<not> length m + 1 \<le> n"
  shows "write_macro sz (pre @ replicate n 0, length pre) (k, m) = Inl (MacroExceedsBuffer k sz)"
  using assms by (auto simp: write_macro_def Let_def)

lemma write_macros_fit:
  "length (macro_bytes ms) \<le> n \<Longrightarrow>
   fold_res (write_macro sz) (pre @ replicate n 0, length pre) (enumerate k ms) =
     Inr (pre @ macro_bytes ms @ replicate (n - length (macro_bytes ms)) 0,
          length pre + length (macro_bytes ms))"
proof (induction ms arbitrary: pre n k)
  case Nil
  then show ?case by (simp add: macro_bytes_def)
next
  case (Cons m ms)
  then show ?case
    using Cons.IH [of "n - length m - 1" "pre @ as_bytes m @ [0]" "Suc k"]
    by (simp add: macro_bytes_Cons write_macro_fits [simplified])
qed

lemma write_macros_overflow:
  "n < length (macro_bytes ms) \<Longrightarrow>
   \<exists>i < length ms. fold_res (write_macro sz) (pre @ replicate n 0, length pre) (enumerate k ms) =
     Inl (MacroExceedsBuffer (k + i) sz)"
proof (induction ms arbitrary: pre n k)
  case Nil
  then show ?case by (simp add: macro_bytes_def)
next
  case (Cons m ms)
  show ?case
  proof (cases "length m + 1 \<le> n")
    case True
    have "n - length m - 1 < length (macro_bytes ms)"
      using Cons.prems True by (simp add: macro_bytes_Cons)
    then obtain i where "i < length ms" "fold_res (write_macro sz) ((pre @ as_bytes m @ [0]) @ replicate (n - length m - 1) 0,
        length (pre @ as_bytes m @ [0])) (enumerate (Suc k) ms) = Inl (MacroExceedsBuffer (Suc k + i) sz)"
      using Cons.IH [of "n - length m - 1" "pre @ as_bytes m @ [0]" "Suc k"] by blast
    then show ?thesis
      using write_macro_fits [OF True, of sz pre k] by (intro exI [of _ "Suc i"]) simp
  next
    case False
    then show ?thesis
      using write_macro_full [OF False, of sz pre k] by (intro exI [of _ 0]) simp
  qed
qed

lemma written_buffer:
  "desired_macro_buffer ms capacity sz = Inr buffer \<longleftrightarrow>
     length ms \<le> unat capacity \<and> (\<Sum>m\<leftarrow>ms. length m + 1) \<le> sz \<and>
     buffer = macro_bytes ms @ replicate (sz - length (macro_bytes ms)) 0"
proof (cases "length (macro_bytes ms) \<le> sz")
  case True
  then show ?thesis
    using write_macros_fit [OF True, of sz "[]" 0]
    by (auto simp: desired_macro_buffer_def length_macro_bytes)
next
  case False
  then show ?thesis
    using write_macros_overflow [of sz ms sz "[]" 0]
    by (auto simp: desired_macro_buffer_def length_macro_bytes)
qed

text \<open>
  The buffer is built exactly when the macros fit the firmware's slots and bytes; it then
  holds each macro followed by a NUL, and zeros up to its full size.
\<close>
theorem desired_macro_buffer_layout:
  "desired_macro_buffer ms capacity sz = Inr buffer \<longleftrightarrow>
     length ms \<le> unat capacity \<and> (\<Sum>m\<leftarrow>ms. length m + 1) \<le> sz \<and>
     buffer = macro_bytes ms @ replicate (sz - length (macro_bytes ms)) 0"
  by (rule written_buffer)

definition macro_text :: "string \<Rightarrow> bool" where
  "macro_text m \<longleftrightarrow> list_all is_ascii m \<and> CHR 0x00 \<notin> set m"

lemma split_bytes_append:
  "0 \<notin> set a \<Longrightarrow> split_bytes (a @ 0 # b) = a # split_bytes b"
  by (induction a) auto

lemma split_bytes_zeros: "split_bytes (replicate n 0) = replicate (Suc n) []"
  by (induction n) auto

lemma split_macro_bytes:
  "(\<And>m. m \<in> set ms \<Longrightarrow> macro_text m) \<Longrightarrow>
   split_bytes (macro_bytes ms @ replicate n 0) = map as_bytes ms @ replicate (Suc n) []"
proof (induction ms)
  case Nil
  then show ?case by (simp add: macro_bytes_def split_bytes_zeros)
next
  case (Cons m ms)
  have "0 \<notin> set (as_bytes m)"
    using Cons.prems [of m] by (auto simp: as_bytes_def macro_text_def byte_of_eq_0)
  then show ?case using Cons by (simp add: macro_bytes_Cons split_bytes_append)
qed

lemma pop_empty_snoc: "pop_empty (ms @ [m]) = (if m = [] then pop_empty ms else ms @ [m])"
  by (induction ms) (auto split: list.splits)

lemma pop_empty_replicate: "pop_empty (ms @ replicate n []) = pop_empty ms"
proof (induction n)
  case (Suc n)
  have "ms @ replicate (Suc n) [] = (ms @ replicate n []) @ [[]]"
    by (simp add: replicate_append_same)
  with Suc show ?case by (simp only: pop_empty_snoc if_True simp_thms)
qed simp

lemma pop_empty_last: "ms = [] \<or> last ms \<noteq> [] \<Longrightarrow> pop_empty ms = ms"
  by (cases ms rule: rev_cases) (auto simp: pop_empty_snoc)

lemma decode_written_buffer:
  assumes "desired_macro_buffer ms capacity sz = Inr buffer" and "\<And>m. m \<in> set ms \<Longrightarrow> macro_text m"
  shows "decode_macro_buffer buffer capacity = Inr (pop_empty ms)"
proof -
  obtain n where buffer: "buffer = macro_bytes ms @ replicate n 0" and len: "length ms \<le> unat capacity"
    using assms(1) unfolding written_buffer by blast
  have "split_bytes buffer = map as_bytes ms @ replicate (Suc n) []"
    unfolding buffer by (rule split_macro_bytes) (rule assms(2))
  then have "take (unat capacity) (split_bytes buffer) =
      map as_bytes (ms @ replicate (min (unat capacity - length ms) (Suc n)) [])"
    using len by (simp add: as_bytes_def take_replicate del: replicate_Suc)
  moreover have texts: "map_res (\<lambda>value. ok_or MacroNotUtf8 (from_utf8 value)) (map as_bytes xs) = Inr xs"
    if "\<And>x. x \<in> set xs \<Longrightarrow> macro_text x" for xs
    using that by (induction xs) (auto simp: from_utf8_ascii macro_text_def)
  moreover have "map_res (\<lambda>value. ok_or MacroNotUtf8 (from_utf8 value))
      (map as_bytes (ms @ replicate k [])) = Inr (ms @ replicate k [])" for k
    by (rule texts) (use assms(2) in \<open>auto simp: macro_text_def\<close>)
  ultimately show ?thesis
    by (simp add: decode_macro_buffer_def pop_empty_replicate del: map_append)
qed

text \<open>
  C22: Reading a written buffer back yields the configured macros without the empty ones at
  the end, for every list of macros that validation accepts.
\<close>
theorem macro_buffer_roundtrip:
  assumes "desired_macro_buffer ms capacity sz = Inr buffer" and "\<And>m. m \<in> set ms \<Longrightarrow> macro_text m"
  shows "decode_macro_buffer buffer capacity = Inr (pop_empty ms)"
  by (rule decode_written_buffer [OF assms])

theorem macro_buffer_roundtrip_witness:
  "decode_macro_buffer (as_bytes ''hi'' @ [0, 0] @ as_bytes ''x'' @ [0, 0, 0]) 4 = Inr [''hi'', [], ''x'']"
proof -
  have enc: "desired_macro_buffer [''hi'', [], ''x'', []] 4 8 =
      Inr (as_bytes ''hi'' @ [0, 0] @ as_bytes ''x'' @ [0, 0, 0])"
    by code_simp
  have "list_all macro_text [''hi'', [], ''x'', []]"
    by code_simp
  then have "decode_macro_buffer (as_bytes ''hi'' @ [0, 0] @ as_bytes ''x'' @ [0, 0, 0]) 4 =
      Inr (pop_empty [''hi'', [], ''x'', []])"
    by (intro macro_buffer_roundtrip [OF enc]) auto
  then show ?thesis by simp
qed

text \<open>The macro buffer is a codec for the macro lists that end in a macro that is not empty.\<close>

definition macro_encode :: "u8 \<Rightarrow> nat \<Rightarrow> string list \<Rightarrow> byte list" where
  "macro_encode capacity sz ms = (case desired_macro_buffer ms capacity sz of Inr b \<Rightarrow> b | Inl _ \<Rightarrow> [])"

definition macro_decode :: "u8 \<Rightarrow> byte list \<Rightarrow> string list option" where
  "macro_decode capacity b = (case decode_macro_buffer b capacity of Inr ms \<Rightarrow> Some ms | Inl _ \<Rightarrow> None)"

definition macro_valid :: "u8 \<Rightarrow> nat \<Rightarrow> string list \<Rightarrow> bool" where
  "macro_valid capacity sz ms \<longleftrightarrow>
     is_ok (desired_macro_buffer ms capacity sz) \<and> list_all macro_text ms \<and> (ms = [] \<or> last ms \<noteq> [])"

lemma macro_decode_encode:
  assumes "macro_valid capacity sz ms"
  shows "macro_decode capacity (macro_encode capacity sz ms) = Some ms"
proof -
  obtain b where b: "desired_macro_buffer ms capacity sz = Inr b"
    using assms by (auto simp: macro_valid_def is_ok_iff)
  have "decode_macro_buffer b capacity = Inr (pop_empty ms)"
    using assms by (intro decode_written_buffer [OF b]) (auto simp: macro_valid_def list_all_iff)
  then show ?thesis
    using assms by (simp add: macro_encode_def macro_decode_def b macro_valid_def pop_empty_last)
qed

interpretation macro_codec: codec "macro_encode capacity sz" "macro_decode capacity" "macro_valid capacity sz"
  for capacity sz
  by unfold_locales (rule macro_decode_encode)

theorem macro_buffers_differ:
  assumes "desired_macro_buffer ms capacity sz = Inr b" and "desired_macro_buffer ns capacity sz = Inr b"
    and "list_all macro_text ms" "list_all macro_text ns"
    and "ms = [] \<or> last ms \<noteq> []" "ns = [] \<or> last ns \<noteq> []"
  shows "ms = ns"
  using macro_codec.enc_inj [of capacity sz ms ns] assms
  by (simp add: macro_valid_def macro_encode_def)
end
