(* ===== verification/Device_Ops.thy ===== *)
theory Device_Ops
  imports Hid_Transport Macro_Buffer
begin

text \<open>
  The requests \<open>packages/silakka54/sync/src/main.rs\<close> sends to a keyboard, each over one or
  more transactions: the firmware's status pages, the bootloader jump, the active layer,
  layout options, macros and single keycodes of the dynamic keymap.
\<close>

section \<open>Big-endian integers\<close>

definition be16 :: "byte \<Rightarrow> byte \<Rightarrow> u16" where
  "be16 hi lo = of_nat (unat hi * 256 + unat lo)"

definition u16_bytes :: "u16 \<Rightarrow> byte list" where
  "u16_bytes v = [ucast (drop_bit 8 v), ucast v]"

definition be32 :: "byte \<Rightarrow> byte \<Rightarrow> byte \<Rightarrow> byte \<Rightarrow> u32" where
  "be32 a b c d = of_nat (((unat a * 256 + unat b) * 256 + unat c) * 256 + unat d)"

definition u32_bytes :: "u32 \<Rightarrow> byte list" where
  "u32_bytes v = [ucast (drop_bit 24 v), ucast (drop_bit 16 v), ucast (drop_bit 8 v), ucast v]"

fun read_u16 :: "byte list \<Rightarrow> u16 option" where
  "read_u16 [hi, lo] = Some (be16 hi lo)"
| "read_u16 _ = None"

fun read_u32 :: "byte list \<Rightarrow> u32 option" where
  "read_u32 [a, b, c, d] = Some (be32 a b c d)"
| "read_u32 _ = None"

lemma be16_u16 [simp]: "be16 (ucast (drop_bit 8 v)) (ucast v) = v"
proof -
  have hi: "unat (ucast (drop_bit 8 v) :: byte) = unat v div 256"
    using unsigned_less [of v, where 'a = nat]
    by (simp add: unsigned_ucast_eq unsigned_drop_bit_eq drop_bit_eq_div take_bit_eq_mod unat_div_distrib)
  have lo: "unat (ucast v :: byte) = unat v mod 256"
    by (simp add: unsigned_ucast_eq take_bit_eq_mod)
  show ?thesis unfolding be16_def hi lo by simp
qed

lemma be32_u32 [simp]:
  "be32 (ucast (drop_bit 24 v)) (ucast (drop_bit 16 v)) (ucast (drop_bit 8 v)) (ucast v) = v"
proof -
  let ?n = "unat v"
  have b: "unat (ucast (drop_bit 24 v) :: byte) = ?n div 16777216 mod 256"
    "unat (ucast (drop_bit 16 v) :: byte) = ?n div 65536 mod 256"
    "unat (ucast (drop_bit 8 v) :: byte) = ?n div 256 mod 256"
    "unat (ucast v :: byte) = ?n mod 256"
    by (simp_all add: unsigned_ucast_eq unsigned_drop_bit_eq drop_bit_eq_div take_bit_eq_mod unat_div_distrib)
  have top: "?n div 16777216 mod 256 = ?n div 16777216"
    using unsigned_less [of v, where 'a = nat] by (simp add: div_less_iff_less_mult)
  have d: "?n div 16777216 = ?n div 65536 div 256" "?n div 65536 = ?n div 256 div 256"
    by (simp_all flip: div_mult2_eq)
  have join: "m div 256 * 256 + m mod 256 = m" for m :: nat
    by (rule div_mult_mod_eq)
  have whole: "((?n div 16777216 mod 256 * 256 + ?n div 65536 mod 256) * 256 + ?n div 256 mod 256) * 256 + ?n mod 256 = ?n"
    by (simp only: top) (simp only: d join)
  show ?thesis unfolding be32_def b whole by simp
qed

interpretation be16_codec: codec u16_bytes read_u16 "\<lambda>_. True"
  by unfold_locales (simp add: u16_bytes_def)

interpretation be32_codec: codec u32_bytes read_u32 "\<lambda>_. True"
  by unfold_locales (simp add: u32_bytes_def)

section \<open>Errors and results\<close>

datatype device_error =
    Hid hid_error
  | NoSyncAnswer
  | SyncMagicMismatch
  | NoLegacySyncAnswer
  | LegacyMagicMismatch
  | NoBootloaderAck
  | NoLayerAck
  | LayerRejected u8
  | LayerDiffers u8 u8
  | MacroBufferTooLarge
  | MacroError macro_error
  | LayoutNotVerified
  | MacrosNotVerified
  | AbiMismatch string string
  | OpenFailed string

datatype keyboard_half = HalfLeft | HalfRight

record firmware_status =
  abi_hash_prefix :: string
  runtime_hash_prefix :: string
  keymap_hash_prefix :: string
  layer_count :: u8
  macro_count :: u8
  rows :: u8
  cols :: u8
  half :: "keyboard_half option"

record legacy_firmware_status =
  legacy_abi_hash_prefix :: string
  legacy_keymap_hash_prefix :: string
  legacy_layer_count :: u8
  legacy_rows :: u8
  legacy_cols :: u8

definition bytes_to_hex :: "byte list \<Rightarrow> string" where
  "bytes_to_hex bytes = concat (map hex2 bytes)"

definition hash_prefix :: "string \<Rightarrow> string" where
  "hash_prefix hash = to_ascii_lowercase (take 16 hash)"

section \<open>Transactions\<close>

definition one_second :: int where "one_second = 1000000000"

text \<open>A transaction of one second, as every request uses.\<close>

definition transact :: "'s transport \<Rightarrow> report \<Rightarrow> byte \<Rightarrow> ('s, device_error, report) io" where
  "transact T report command = io_map_err Hid (raw_transaction T report command one_second)"

definition via_protocol :: "'s transport \<Rightarrow> ('s, device_error, u16) io" where
  "via_protocol T =
     io_bind (transact T (command_report ID_GET_PROTOCOL_VERSION) ID_GET_PROTOCOL_VERSION) (\<lambda>response.
     io_return (be16 (response ! 1) (response ! 2)))"

definition query_report :: "byte \<Rightarrow> byte \<Rightarrow> byte \<Rightarrow> report" where
  "query_report kind version argument =
     (command_report ID_GET_KEYBOARD_VALUE)[1 := kind, 2 := version, 3 := argument]"

definition firmware_status_page :: "'s transport \<Rightarrow> u8 \<Rightarrow> ('s, device_error, report) io" where
  "firmware_status_page T page =
     io_bind (transact T (query_report SILAKKA54_SYNC_QUERY SILAKKA54_SYNC_VERSION page)
                ID_GET_KEYBOARD_VALUE) (\<lambda>response.
     if response ! 1 \<noteq> SILAKKA54_SYNC_QUERY \<or> response ! 2 \<noteq> SILAKKA54_SYNC_VERSION \<or>
        response ! 3 \<noteq> page then io_fail NoSyncAnswer
     else if slice 4 11 response \<noteq> SILAKKA54_SYNC_MAGIC then io_fail SyncMagicMismatch
     else io_return response)"

definition half_of :: "byte \<Rightarrow> keyboard_half option" where
  "half_of b = (if b = 1 then Some HalfLeft else if b = 2 then Some HalfRight else None)"

definition firmware_status :: "'s transport \<Rightarrow> ('s, device_error, firmware_status) io" where
  "firmware_status T =
     io_bind (firmware_status_page T 0) (\<lambda>capabilities.
     io_bind (firmware_status_page T 1) (\<lambda>hashes.
     io_bind (firmware_status_page T 2) (\<lambda>defaults.
     io_return \<lparr>abi_hash_prefix = bytes_to_hex (slice 11 19 hashes),
                runtime_hash_prefix = bytes_to_hex (slice 19 27 hashes),
                keymap_hash_prefix = bytes_to_hex (slice 11 19 defaults),
                layer_count = capabilities ! 11, macro_count = capabilities ! 12,
                rows = capabilities ! 13, cols = capabilities ! 14,
                half = half_of (capabilities ! 15)\<rparr>)))"

definition legacy_firmware_status :: "'s transport \<Rightarrow> ('s, device_error, legacy_firmware_status) io" where
  "legacy_firmware_status T =
     io_bind (transact T (query_report SILAKKA54_SYNC_QUERY SILAKKA54_LEGACY_SYNC_VERSION 0)
                ID_GET_KEYBOARD_VALUE) (\<lambda>response.
     if response ! 1 \<noteq> SILAKKA54_SYNC_QUERY \<or> response ! 2 \<noteq> SILAKKA54_LEGACY_SYNC_VERSION
     then io_fail NoLegacySyncAnswer
     else if slice 3 10 response \<noteq> SILAKKA54_SYNC_MAGIC then io_fail LegacyMagicMismatch
     else io_return
       \<lparr>legacy_abi_hash_prefix = bytes_to_hex (slice 11 19 response),
        legacy_keymap_hash_prefix = bytes_to_hex (slice 19 27 response),
        legacy_layer_count = response ! 27, legacy_rows = response ! 28,
        legacy_cols = response ! 29\<rparr>)"

definition silakka54_bootloader_jump :: "'s transport \<Rightarrow> ('s, device_error, unit) io" where
  "silakka54_bootloader_jump T =
     io_bind (transact T (query_report SILAKKA54_SYNC_BOOTLOADER SILAKKA54_SYNC_VERSION 0)
                ID_GET_KEYBOARD_VALUE) (\<lambda>response.
     if response ! 1 \<noteq> SILAKKA54_SYNC_BOOTLOADER \<or> response ! 2 \<noteq> SILAKKA54_SYNC_VERSION
     then io_fail NoBootloaderAck
     else if slice 3 10 response \<noteq> SILAKKA54_SYNC_MAGIC then io_fail SyncMagicMismatch
     else io_return ())"

definition set_active_layer :: "'s transport \<Rightarrow> u8 \<Rightarrow> ('s, device_error, unit) io" where
  "set_active_layer T target =
     io_bind (transact T (query_report SILAKKA54_SYNC_LAYER SILAKKA54_SYNC_VERSION target)
                ID_GET_KEYBOARD_VALUE) (\<lambda>response.
     if response ! 1 \<noteq> SILAKKA54_SYNC_LAYER \<or> response ! 2 \<noteq> SILAKKA54_SYNC_VERSION \<or>
        response ! 3 \<noteq> target then io_fail NoLayerAck
     else if slice 4 11 response \<noteq> SILAKKA54_SYNC_MAGIC then io_fail SyncMagicMismatch
     else if response ! 11 \<noteq> 0 then io_fail (LayerRejected target)
     else if response ! 12 \<noteq> target then io_fail (LayerDiffers target (response ! 12))
     else io_return ())"

section \<open>VIA state\<close>

definition get_layout_options :: "'s transport \<Rightarrow> ('s, device_error, u32) io" where
  "get_layout_options T =
     io_bind (transact T ((command_report ID_GET_KEYBOARD_VALUE)[1 := ID_LAYOUT_OPTIONS])
                ID_GET_KEYBOARD_VALUE) (\<lambda>response.
     io_return (be32 (response ! 2) (response ! 3) (response ! 4) (response ! 5)))"

text \<open>\<open>report[a..].copy_from_slice(bytes)\<close>\<close>

definition splice :: "nat \<Rightarrow> 'a list \<Rightarrow> 'a list \<Rightarrow> 'a list" where
  "splice a bytes xs = take a xs @ bytes @ drop (a + length bytes) xs"

definition set_layout_options :: "'s transport \<Rightarrow> u32 \<Rightarrow> ('s, device_error, unit) io" where
  "set_layout_options T value =
     io_bind (transact T (splice 2 (u32_bytes value)
                ((command_report ID_SET_KEYBOARD_VALUE)[1 := ID_LAYOUT_OPTIONS]))
                ID_SET_KEYBOARD_VALUE) (\<lambda>_.
     io_return ())"

definition macro_capacity :: "'s transport \<Rightarrow> ('s, device_error, u8) io" where
  "macro_capacity T =
     io_bind (transact T (command_report ID_DYNAMIC_KEYMAP_MACRO_GET_COUNT)
                ID_DYNAMIC_KEYMAP_MACRO_GET_COUNT) (\<lambda>response.
     io_return (response ! 1))"

definition macro_buffer_size :: "'s transport \<Rightarrow> ('s, device_error, nat) io" where
  "macro_buffer_size T =
     io_bind (transact T (command_report ID_DYNAMIC_KEYMAP_MACRO_GET_BUFFER_SIZE)
                ID_DYNAMIC_KEYMAP_MACRO_GET_BUFFER_SIZE) (\<lambda>response.
     io_return (unat (be16 (response ! 1) (response ! 2))))"

text \<open>\<open>(0..size).step_by(28)\<close>\<close>

definition chunk_offsets :: "nat \<Rightarrow> nat list" where
  "chunk_offsets n = map (\<lambda>k. 28 * k) [0..<(n + 27) div 28]"

definition get_macro_buffer :: "'s transport \<Rightarrow> nat \<Rightarrow> ('s, device_error, byte list) io" where
  "get_macro_buffer T buffer_size =
     io_fold (\<lambda>buffer offset.
         let chunk_size = min (buffer_size - offset) 28 in
         if 65536 \<le> offset then io_fail MacroBufferTooLarge
         else io_bind (transact T ((splice 1 (u16_bytes (of_nat offset))
                  (command_report ID_DYNAMIC_KEYMAP_MACRO_GET_BUFFER))[3 := of_nat chunk_size])
                  ID_DYNAMIC_KEYMAP_MACRO_GET_BUFFER) (\<lambda>response.
              io_return (splice offset (slice 4 (4 + chunk_size) response) buffer)))
       (replicate buffer_size 0) (chunk_offsets buffer_size)"

definition set_macro_buffer :: "'s transport \<Rightarrow> byte list \<Rightarrow> ('s, device_error, unit) io" where
  "set_macro_buffer T buffer =
     io_fold (\<lambda>_ offset.
         let chunk_size = min (length buffer - offset) 28 in
         if 65536 \<le> offset then io_fail MacroBufferTooLarge
         else io_bind (transact T (splice 4 (slice offset (offset + chunk_size) buffer)
                  ((splice 1 (u16_bytes (of_nat offset))
                    (command_report ID_DYNAMIC_KEYMAP_MACRO_SET_BUFFER))[3 := of_nat chunk_size]))
                  ID_DYNAMIC_KEYMAP_MACRO_SET_BUFFER) (\<lambda>_.
              io_return ()))
       () (chunk_offsets (length buffer))"

section \<open>Keycodes\<close>

type_synonym position = "u8 \<times> u8 \<times> u8"

definition entry_position :: "key_entry \<Rightarrow> position" where
  "entry_position e = (entry_layer e, entry_row e, entry_col e)"

definition get_keycode_report :: "position \<Rightarrow> report" where
  "get_keycode_report = (\<lambda>(layer, row, col).
     (command_report ID_DYNAMIC_KEYMAP_GET_KEYCODE)[1 := layer, 2 := row, 3 := col])"

definition set_keycode_report :: "position \<Rightarrow> u16 \<Rightarrow> report" where
  "set_keycode_report = (\<lambda>(layer, row, col) keycode.
     (command_report ID_DYNAMIC_KEYMAP_SET_KEYCODE)
       [1 := layer, 2 := row, 3 := col, 4 := ucast (drop_bit 8 keycode), 5 := ucast (keycode AND 0xff)])"

definition get_keycode :: "'s transport \<Rightarrow> position \<Rightarrow> ('s, device_error, u16) io" where
  "get_keycode T p =
     io_bind (transact T (get_keycode_report p) ID_DYNAMIC_KEYMAP_GET_KEYCODE) (\<lambda>response.
     io_return (be16 (response ! 4) (response ! 5)))"

definition set_keycode :: "'s transport \<Rightarrow> position \<Rightarrow> u16 \<Rightarrow> ('s, device_error, unit) io" where
  "set_keycode T p keycode =
     io_bind (transact T (set_keycode_report p keycode) ID_DYNAMIC_KEYMAP_SET_KEYCODE) (\<lambda>_.
     io_return ())"

section \<open>Every request returns\<close>

context timed_transport
begin

lemma transact_total: "total (transact T report c)"
  using returns by (auto simp: total_def transact_def io_map_err_def split: option.splits)

end

lemmas device_op_defs =
  via_protocol_def firmware_status_def firmware_status_page_def legacy_firmware_status_def
  silakka54_bootloader_jump_def set_active_layer_def get_layout_options_def set_layout_options_def
  macro_capacity_def macro_buffer_size_def get_macro_buffer_def set_macro_buffer_def
  get_keycode_def set_keycode_def Let_def

text \<open>
  On a device whose clock moves forward and whose reads take time, every request of the
  program returns, with a value or an error, whatever the device sends.
\<close>
theorem requests_return:
  assumes "timed_transport T clock"
  shows "total (via_protocol T) \<and> total (firmware_status T) \<and> total (legacy_firmware_status T) \<and>
    total (silakka54_bootloader_jump T) \<and> total (set_active_layer T layer) \<and>
    total (get_layout_options T) \<and> total (set_layout_options T value) \<and> total (macro_capacity T) \<and>
    total (macro_buffer_size T) \<and> total (get_macro_buffer T n) \<and> total (set_macro_buffer T buffer) \<and>
    total (get_keycode T p) \<and> total (set_keycode T p keycode)"
  unfolding device_op_defs
  by (intro conjI io_total timed_transport.transact_total [OF assms])

end
