(* ===== verification/Sync_Args.thy ===== *)
theory Sync_Args
  imports Device_Ops
begin

text \<open>
  The command lines of \<open>packages/silakka54/sync/src/main.rs\<close>: one parser per command. A path
  is the text of its argument; \<open>CONFIGURATION_PATH\<close>, set by the build, is a parameter.
\<close>

section \<open>Commands\<close>

datatype args_error =
    ConfigNeedsPath
  | OutputNeedsPath
  | SearchNeedsValue
  | UnknownOption string
  | BothHalves
  | LayerNeedsName
  | ConfigNeedsCommand
  | UnknownConfigCommand string
  | UnknownCommand string

record status_args =
  sa_config :: string
  sa_json :: bool
  sa_check :: bool

fun scan_status_args :: "status_args \<Rightarrow> string list \<Rightarrow> (args_error, status_args) res" where
  "scan_status_args parsed [] = Inr parsed"
| "scan_status_args parsed (arg # rest) =
     (if arg = ''--config'' then
        (case rest of
           [] \<Rightarrow> Inl ConfigNeedsPath
         | path # rest' \<Rightarrow> scan_status_args (parsed\<lparr>sa_config := path\<rparr>) rest')
      else if arg = ''--json'' then scan_status_args (parsed\<lparr>sa_json := True\<rparr>) rest
      else if arg = ''--check'' then scan_status_args (parsed\<lparr>sa_check := True\<rparr>) rest
      else Inl (UnknownOption arg))"

definition parse_status_args :: "string \<Rightarrow> string list \<Rightarrow> (args_error, status_args) res" where
  "parse_status_args configuration_path args =
     scan_status_args \<lparr>sa_config = configuration_path, sa_json = False, sa_check = False\<rparr> args"

fun parse_config_arg :: "string \<Rightarrow> string list \<Rightarrow> (args_error, string) res" where
  "parse_config_arg path [] = Inr path"
| "parse_config_arg path (arg # rest) =
     (if arg = ''--config'' then
        (case rest of [] \<Rightarrow> Inl ConfigNeedsPath | value' # rest' \<Rightarrow> parse_config_arg value' rest')
      else Inl (UnknownOption arg))"

fun parse_options_args :: "string option \<times> bool \<Rightarrow> string list \<Rightarrow> (args_error, string option \<times> bool) res" where
  "parse_options_args parsed [] = Inr parsed"
| "parse_options_args (search, as_json) (arg # rest) =
     (if arg = ''--search'' then
        (case rest of
           [] \<Rightarrow> Inl SearchNeedsValue
         | term # rest' \<Rightarrow> parse_options_args (Some (to_ascii_uppercase term), as_json) rest')
      else if arg = ''--json'' then parse_options_args (search, True) rest
      else Inl (UnknownOption arg))"

fun parse_snapshot_args :: "string \<times> string option \<Rightarrow> string list \<Rightarrow> (args_error, string \<times> string option) res" where
  "parse_snapshot_args parsed [] = Inr parsed"
| "parse_snapshot_args (config, output) (arg # rest) =
     (if arg = ''--config'' then
        (case rest of [] \<Rightarrow> Inl ConfigNeedsPath | path # rest' \<Rightarrow> parse_snapshot_args (path, output) rest')
      else if arg = ''--output'' then
        (case rest of [] \<Rightarrow> Inl OutputNeedsPath | path # rest' \<Rightarrow> parse_snapshot_args (config, Some path) rest')
      else Inl (UnknownOption arg))"

definition set_flash_half ::
  "keyboard_half option \<Rightarrow> keyboard_half \<Rightarrow> (args_error, keyboard_half option) res" where
  "set_flash_half selected half' =
     (if selected \<noteq> None \<and> selected \<noteq> Some half' then Inl BothHalves else Inr (Some half'))"

fun scan_flash_args ::
  "bool \<times> keyboard_half option \<Rightarrow> string list \<Rightarrow> (args_error, bool \<times> keyboard_half option) res" where
  "scan_flash_args parsed [] = Inr parsed"
| "scan_flash_args (yes, half') (arg # rest) =
     (if arg = ''--yes'' \<or> arg = ''-y'' then scan_flash_args (True, half') rest
      else if arg = ''--left'' then
        bind_res (set_flash_half half' HalfLeft) (\<lambda>half'. scan_flash_args (yes, half') rest)
      else if arg = ''--right'' then
        bind_res (set_flash_half half' HalfRight) (\<lambda>half'. scan_flash_args (yes, half') rest)
      else Inl (UnknownOption arg))"

definition parse_flash_args :: "string list \<Rightarrow> (args_error, bool \<times> keyboard_half option) res" where
  "parse_flash_args args = scan_flash_args (False, None) args"

datatype config_command =
    ConfigValidate string
  | ConfigOptions "string option" bool
  | ConfigDiff string
  | ConfigSnapshot string "string option"

text \<open>What \<open>main\<close> and \<open>config_command\<close> run for a command line.\<close>

datatype sync_command =
    CmdStatus status_args
  | CmdApply string
  | CmdConfig config_command
  | CmdLayer string
  | CmdFlash bool "keyboard_half option"
  | CmdHotplug
  | CmdWatch
  | CmdHelp

definition parse_config_command :: "string \<Rightarrow> string list \<Rightarrow> (args_error, config_command) res" where
  "parse_config_command configuration_path args =
    (case args of
       [] \<Rightarrow> Inl ConfigNeedsCommand
     | subcommand # rest \<Rightarrow>
         if subcommand = ''validate'' then map_sum id ConfigValidate (parse_config_arg configuration_path rest)
         else if subcommand = ''options'' then
           map_sum id (\<lambda>(search, as_json). ConfigOptions search as_json) (parse_options_args (None, False) rest)
         else if subcommand = ''diff'' then map_sum id ConfigDiff (parse_config_arg configuration_path rest)
         else if subcommand = ''snapshot-live'' then
           map_sum id (\<lambda>(config, output). ConfigSnapshot config output)
             (parse_snapshot_args (configuration_path, None) rest)
         else Inl (UnknownConfigCommand subcommand))"

definition parse_command :: "string \<Rightarrow> string list \<Rightarrow> (args_error, sync_command) res" where
  "parse_command configuration_path args =
    (let command = (case args of [] \<Rightarrow> ''status'' | c # _ \<Rightarrow> c);
         remaining = tl args
     in if command = ''status'' then map_sum id CmdStatus (parse_status_args configuration_path remaining)
        else if command \<in> {''apply'', ''sync-keymap''} then
          map_sum id CmdApply (parse_config_arg configuration_path remaining)
        else if command = ''config'' then map_sum id CmdConfig (parse_config_command configuration_path remaining)
        else if command = ''layer'' then
          (case remaining of [requested] \<Rightarrow> Inr (CmdLayer requested) | _ \<Rightarrow> Inl LayerNeedsName)
        else if command \<in> {''flash'', ''flash-firmware''} then
          map_sum id (\<lambda>(yes, half'). CmdFlash yes half') (parse_flash_args remaining)
        else if command = ''hotplug'' then Inr CmdHotplug
        else if command = ''watch'' then Inr CmdWatch
        else if command \<in> {''--help'', ''-h'', ''help''} then Inr CmdHelp
        else Inl (UnknownCommand command))"

section \<open>Flash options\<close>

definition flash_option :: "string \<Rightarrow> bool" where
  "flash_option arg \<longleftrightarrow> arg \<in> {''--yes'', ''-y'', ''--left'', ''--right''}"

definition chosen_half :: "string list \<Rightarrow> keyboard_half option" where
  "chosen_half args =
     (if ''--left'' \<in> set args then Some HalfLeft
      else if ''--right'' \<in> set args then Some HalfRight else None)"

lemma scan_flash_iff:
  "scan_flash_args (yes, half') args = Inr (y, h) \<longleftrightarrow>
   list_all flash_option args \<and>
   (''--left'' \<in> set args \<longrightarrow> half' \<noteq> Some HalfRight \<and> ''--right'' \<notin> set args) \<and>
   (''--right'' \<in> set args \<longrightarrow> half' \<noteq> Some HalfLeft) \<and>
   y = (yes \<or> ''--yes'' \<in> set args \<or> ''-y'' \<in> set args) \<and>
   h = (case chosen_half args of None \<Rightarrow> half' | Some x \<Rightarrow> Some x)"
proof (induction args arbitrary: yes half')
  case Nil
  then show ?case by (auto simp: chosen_half_def)
next
  case (Cons a args)
  consider "a = ''--yes'' \<or> a = ''-y''" | "a = ''--left''" | "a = ''--right''" | "\<not> flash_option a"
    by (auto simp: flash_option_def)
  then show ?case
  proof cases
    case 1
    then show ?thesis by (auto simp: Cons.IH flash_option_def chosen_half_def)
  next
    case 2
    then show ?thesis
      by (cases half'; cases "the half'") (auto simp: Cons.IH flash_option_def chosen_half_def set_flash_half_def)
  next
    case 3
    then show ?thesis
      by (cases half'; cases "the half'") (auto simp: Cons.IH flash_option_def chosen_half_def set_flash_half_def)
  next
    case 4
    then show ?thesis by (auto simp: flash_option_def)
  qed
qed

text \<open>
  The flash options in any order: they are accepted exactly when every argument is known
  and not both halves are named, and then the prompt is skipped exactly when \<open>--yes\<close> or
  \<open>-y\<close> is among them and the half is the named one.
\<close>
theorem parse_flash_args_iff:
  "parse_flash_args args = Inr (yes, half') \<longleftrightarrow>
   list_all flash_option args \<and> \<not> (''--left'' \<in> set args \<and> ''--right'' \<in> set args) \<and>
   yes = (''--yes'' \<in> set args \<or> ''-y'' \<in> set args) \<and> half' = chosen_half args"
  by (auto simp: parse_flash_args_def scan_flash_iff split: option.splits)

end
