(* ===== verification/Hid_Link.thy ===== *)
theory Hid_Link
  imports Hid_Transport
begin

text \<open>
  The device side of the trait \<open>HidTransport\<close>: a keyboard behind an unreliable raw HID
  link. The keyboard is a handler from a request to the reports it sends and its next
  state. A schedule decides what the link does: a write may be lost before it reaches the
  keyboard, a read may time out while a reply is still under way (the reply stays queued
  and arrives later, so retransmissions leave duplicates behind), and a report nobody asked
  for may arrive. An exhausted schedule is a link without faults.
\<close>

section \<open>The link\<close>

type_synonym 'k handler = "report \<Rightarrow> 'k \<Rightarrow> byte list list \<times> 'k"

datatype link_event = Deliver | Late | Unsolicited "byte list"

record 'k link =
  l_kb :: 'k
  l_queue :: "byte list list"
  l_clock :: int
  l_lost :: "bool list"
  l_events :: "link_event list"

definition next_lost :: "'k link \<Rightarrow> bool" where
  "next_lost s = (case l_lost s of [] \<Rightarrow> False | b # _ \<Rightarrow> b)"

definition next_event :: "'k link \<Rightarrow> link_event" where
  "next_event s = (case l_events s of [] \<Rightarrow> Deliver | e # _ \<Rightarrow> e)"

definition link_write ::
  "'k handler \<Rightarrow> byte list \<Rightarrow> 'k link \<Rightarrow> (string, nat) res \<times> 'k link" where
  "link_write h bytes s =
    (let s' = s\<lparr>l_lost := tl (l_lost s)\<rparr> in
     if next_lost s then (Inr (length bytes), s')
     else let (replies, kb) = h (tl bytes) (l_kb s)
          in (Inr (length bytes), s'\<lparr>l_kb := kb, l_queue := l_queue s @ replies\<rparr>))"

definition link_read :: "int \<Rightarrow> 'k link \<Rightarrow> (string, byte list) res \<times> 'k link" where
  "link_read ms s =
    (let s' = s\<lparr>l_events := tl (l_events s)\<rparr>;
         timeout = s'\<lparr>l_clock := l_clock s + max 1 (ms * 1000000)\<rparr>;
         arrived = s'\<lparr>l_clock := l_clock s + 1\<rparr>
     in case next_event s of
          Late \<Rightarrow> (Inr [], timeout)
        | Unsolicited bytes \<Rightarrow> (Inr bytes, arrived)
        | Deliver \<Rightarrow>
            (case l_queue s of
               [] \<Rightarrow> (Inr [], timeout)
             | bytes # queue \<Rightarrow> (Inr bytes, arrived\<lparr>l_queue := queue\<rparr>)))"

definition link_transport :: "'k handler \<Rightarrow> 'k link transport" where
  "link_transport h =
     \<lparr>t_write = link_write h, t_read = link_read, t_now = (\<lambda>s. (l_clock s, s))\<rparr>"

lemma link_transport_simps [simp]:
  "t_write (link_transport h) = link_write h"
  "t_read (link_transport h) = link_read"
  "t_now (link_transport h) s = (l_clock s, s)"
  by (simp_all add: link_transport_def)

interpretation link: timed_transport "link_transport h" l_clock for h
  by unfold_locales
    (auto simp: link_write_def link_read_def Let_def split: if_splits prod.splits list.splits link_event.splits)

section \<open>What the queue can hold\<close>

text \<open>
  Reports the keyboard sends on its own are the layer reports of the firmware, which start
  with the byte \<open>K\<close> of their magic.
\<close>

definition unsolicited_ok :: "byte list \<Rightarrow> bool" where
  "unsolicited_ok bytes \<longleftrightarrow> length bytes = 32 \<and> bytes ! 0 = 0x4b"

definition quiet :: "'k link \<Rightarrow> bool" where
  "quiet s \<longleftrightarrow> (\<forall>bytes. Unsolicited bytes \<in> set (l_events s) \<longrightarrow> unsolicited_ok bytes)"

lemma quiet_step:
  assumes "quiet s"
  shows "quiet (s\<lparr>l_events := tl (l_events s)\<rparr>)" "next_event s = Unsolicited bytes \<Longrightarrow> unsolicited_ok bytes"
  using assms by (cases "l_events s"; auto simp: quiet_def next_event_def)+

definition link_inv :: "('k \<Rightarrow> byte list list \<Rightarrow> bool) \<Rightarrow> 'k link \<Rightarrow> bool" where
  "link_inv J s \<longleftrightarrow> J (l_kb s) (l_queue s) \<and> quiet s"

lemma quiet_cong: "l_events s = l_events s' \<Longrightarrow> quiet s = quiet s'"
  by (simp add: quiet_def)

lemma link_keeps:
  assumes handle: "\<And>kb queue replies kb'. J kb queue \<Longrightarrow> h report kb = (replies, kb') \<Longrightarrow> J kb' (queue @ replies)"
    and drop: "\<And>kb bytes queue. J kb (bytes # queue) \<Longrightarrow> J kb queue"
    and read: "\<And>kb bytes queue. J kb (bytes # queue) \<Longrightarrow> R bytes kb"
    and noise: "\<And>kb bytes. unsolicited_ok bytes \<Longrightarrow> R bytes kb"
  shows "keeps (link_transport h) report (link_inv J) (\<lambda>bytes s. R bytes (l_kb s))"
proof -
  have w: "link_inv J (snd (link_write h (0 # report) s))" if "link_inv J s" for s
    using that handle by (auto simp: link_inv_def link_write_def Let_def quiet_def split: prod.splits)
  have r: "link_inv J (snd (link_read ms s)) \<and>
      (\<forall>bytes. fst (link_read ms s) = Inr bytes \<longrightarrow> bytes \<noteq> [] \<longrightarrow> R bytes (l_kb (snd (link_read ms s))))"
    if I: "link_inv J s" for s ms
  proof -
    have q: "quiet (s\<lparr>l_events := tl (l_events s)\<rparr>)" and q': "\<And>bytes. next_event s = Unsolicited bytes \<Longrightarrow> unsolicited_ok bytes"
      using I quiet_step unfolding link_inv_def by blast+
    have J: "J (l_kb s) (l_queue s)" using I by (simp add: link_inv_def)
    show ?thesis
    proof (cases "next_event s")
      case Deliver
      then show ?thesis
        using q J drop read by (cases "l_queue s") (auto simp: link_inv_def link_read_def Let_def quiet_def)
    next
      case Late
      then show ?thesis using q J by (auto simp: link_inv_def link_read_def Let_def quiet_def)
    next
      case (Unsolicited bytes)
      then show ?thesis
        using q J noise [OF q'] by (auto simp: link_inv_def link_read_def Let_def quiet_def)
    qed
  qed
  show ?thesis using w r by (simp add: keeps_def)
qed

section \<open>Retransmission\<close>

lemma link_retries:
  assumes "l_lost s = replicate n True @ rest" "rest = [] \<or> hd rest = False" "l_events s = []" "l_queue s = []"
    and "h report (l_kb s) = (reply # replies, kb')" "accept_report report c reply = Some r"
    and "next_write \<le> l_clock s" "l_clock s + 10000000 * int n < deadline"
  shows "\<exists>s'. io_loop (transaction_step (link_transport h) report c deadline) next_write s = Some (Inr r, s') \<and>
    l_kb s' = kb' \<and> l_queue s' = replies \<and> l_lost s' = tl rest \<and> l_events s' = [] \<and>
    l_clock s' = l_clock s + 10000000 * int n + 1"
  using assms
proof (induction n arbitrary: s next_write)
  case 0
  have "next_lost s = False"
    using 0 by (cases rest) (auto simp: next_lost_def)
  moreover have "reply \<noteq> []" using 0(6) by (auto simp: accept_report_Some normalize_report_def)
  ultimately show ?case using 0
    by (subst io_loop.simps)
      (simp add: transaction_step_def link_write_def link_read_def next_event_def Let_def)
next
  case (Suc n)
  have lost: "next_lost s" using Suc.prems by (simp add: next_lost_def)
  define s1 where "s1 = s\<lparr>l_lost := replicate n True @ rest, l_clock := l_clock s + 10000000\<rparr>"
  have c: "l_clock s < deadline" "l_clock s + 10000000 < deadline" using Suc.prems by simp_all
  have step: "transaction_step (link_transport h) report c deadline next_write s = (Inr (l_clock s + 10000000), s1)"
    using Suc.prems c lost
    by (simp add: transaction_step_def link_write_def link_read_def next_event_def Let_def s1_def
        HID_TRANSACTION_RETRY_INTERVAL_def)
  have "\<exists>s'. io_loop (transaction_step (link_transport h) report c deadline) (l_clock s + 10000000) s1 = Some (Inr r, s') \<and>
    l_kb s' = kb' \<and> l_queue s' = replies \<and> l_lost s' = tl rest \<and> l_events s' = [] \<and>
    l_clock s' = l_clock s1 + 10000000 * int n + 1"
    by (rule Suc.IH) (use Suc.prems in \<open>simp_all add: s1_def\<close>)
  then show ?case
    by (subst io_loop.simps) (simp add: step s1_def)
qed

text \<open>
  On a link that loses the first requests and nothing else, a transaction whose timeout
  covers that many retransmission intervals returns the keyboard's answer, after exactly
  those intervals and the time of one read.
\<close>
theorem transaction_survives_losses:
  assumes "l_lost s = replicate n True" "l_events s = []" "l_queue s = []"
    and "h report (l_kb s) = (reply # replies, kb')" "accept_report report c reply = Some r"
    and "10000000 * int n < timeout"
  shows "\<exists>s'. raw_transaction (link_transport h) report c timeout s = Some (Inr r, s') \<and>
    l_kb s' = kb' \<and> l_queue s' = replies \<and> l_clock s' = l_clock s + 10000000 * int n + 1"
  using link_retries [of s n "[]" h report reply replies kb' c r "l_clock s" "l_clock s + timeout"] assms
  by (auto simp: raw_transaction_def transaction_loop_def)

text \<open>A keyboard that answers every report with the report itself.\<close>

definition echo :: "nat handler" where
  "echo report n = ([report], Suc n)"

lemma echo_accepted: "accept_report (command_report 0x0c) 0x0c (command_report 0x0c) = Some (command_report 0x0c)"
  by (simp add: accept_report_Some normalize_report_def REPORT_LEN_def
      command_report_def response_matches_request_def hid_constants)

lemma link_answers_sample:
  "\<exists>s'. raw_transaction (link_transport echo) (command_report 0x0c) 0x0c 1000000000
      \<lparr>l_kb = 7, l_queue = [], l_clock = 5, l_lost = replicate 99 True, l_events = []\<rparr>
      = Some (Inr (command_report 0x0c), s')"
  using link_retries [of "\<lparr>l_kb = 7, l_queue = [], l_clock = 5, l_lost = replicate 99 True, l_events = []\<rparr>"
      99 "[]" echo "command_report 0x0c" "command_report 0x0c" "[]" 8 "0x0c" "command_report 0x0c" 5 1000000005]
  by (auto simp: raw_transaction_def transaction_loop_def echo_def echo_accepted)

theorem transaction_survives_losses_witness:
  "\<exists>s'. raw_transaction (link_transport echo) (command_report 0x0c) 0x0c 1000000000
      \<lparr>l_kb = 7, l_queue = [], l_clock = 5, l_lost = replicate 99 True, l_events = []\<rparr>
      = Some (Inr (command_report 0x0c), s') \<and>
    l_kb s' = 8 \<and> l_queue s' = [] \<and> l_clock s' = 990000006"
  using transaction_survives_losses [of "\<lparr>l_kb = 7, l_queue = [], l_clock = 5, l_lost = replicate 99 True, l_events = []\<rparr>"
      99 echo "command_report 0x0c" "command_report 0x0c" "[]" 8 "0x0c" "command_report 0x0c" 1000000000]
  by (simp add: echo_def echo_accepted)

theorem raw_transaction_ends_witness:
  "\<exists>res s'. raw_transaction (link_transport echo) (command_report 0x0c) 0x0c 5
      \<lparr>l_kb = 0, l_queue = [], l_clock = 0, l_lost = [True], l_events = [Late]\<rparr> = Some (res, s')"
  using raw_transaction_ends [OF link.timed_transport_axioms, of echo] by blast


end
