(* ===== verification/Firmware.thy ===== *)
theory Firmware
  imports Hid_Link Device_Ops
begin

text \<open>
  The keyboard's side of the sync protocol: \<open>via_command_kb\<close> and the layer reports of the C
  source in \<open>packages/silakka54/generate-keymap.py\<close>. Requests this code leaves to QMK's VIA
  implementation, which is not part of the repository, go to a parameter \<open>core\<close>.
\<close>

section \<open>Image and state\<close>

record firmware_image =
  fw_abi_hash :: "byte list"
  fw_runtime_hash :: "byte list"
  fw_keymap_hash :: "byte list"
  fw_layer_count :: u8
  fw_macro_count :: u8
  fw_rows :: u8
  fw_cols :: u8
  fw_half :: "keyboard_half option"

record 'c keyboard =
  k_core :: 'c
  k_layer :: u8
  k_reported :: u8
  k_sequence :: u8
  k_bootloader :: bool

definition REPORT_MAGIC :: "byte list" where
  "REPORT_MAGIC = [0x4b, 0x42, 0x4c, 0x41, 0x59, 0x52]"

definition pad_report :: "byte list \<Rightarrow> report" where
  "pad_report bytes = bytes @ replicate (32 - length bytes) 0"

section \<open>Handling a report\<close>

definition layer_report :: "u8 \<Rightarrow> u8 \<Rightarrow> report" where
  "layer_report layer sequence = pad_report (REPORT_MAGIC @ [1, 1, layer, sequence])"

text \<open>\<open>layer_move\<close> with \<open>layer_state_set_user\<close>: a change of the highest layer is reported.\<close>

definition layer_move :: "u8 \<Rightarrow> 'c keyboard \<Rightarrow> byte list list \<times> 'c keyboard" where
  "layer_move target kb =
    (if target \<noteq> k_reported kb then
       ([layer_report target (k_sequence kb + 1)],
        kb\<lparr>k_layer := target, k_reported := target, k_sequence := k_sequence kb + 1\<rparr>)
     else ([], kb\<lparr>k_layer := target\<rparr>))"

definition half_byte :: "keyboard_half option \<Rightarrow> byte" where
  "half_byte x = (case x of None \<Rightarrow> 0 | Some HalfLeft \<Rightarrow> 1 | Some HalfRight \<Rightarrow> 2)"

definition status_page :: "firmware_image \<Rightarrow> byte \<Rightarrow> report" where
  "status_page F page =
     pad_report ([0x02, SILAKKA54_SYNC_QUERY, SILAKKA54_SYNC_VERSION, page] @ SILAKKA54_SYNC_MAGIC @
       (if page = 0 then [fw_layer_count F, fw_macro_count F, fw_rows F, fw_cols F, half_byte (fw_half F)]
        else if page = 1 then fw_abi_hash F @ fw_runtime_hash F
        else if page = 2 then fw_keymap_hash F
        else []))"

definition via_command_kb ::
  "firmware_image \<Rightarrow> report \<Rightarrow> 'c keyboard \<Rightarrow> (byte list list \<times> 'c keyboard) option" where
  "via_command_kb F data kb =
    (if take 6 data = REPORT_MAGIC \<and> data ! 6 = 1 \<and> data ! 7 = 0 then
       Some ([layer_report (if k_reported kb = 0xff then k_layer kb else k_reported kb)
                (k_sequence kb + 1)], kb\<lparr>k_sequence := k_sequence kb + 1\<rparr>)
     else if data ! 0 \<noteq> 0x02 \<or> data ! 2 \<noteq> SILAKKA54_SYNC_VERSION then None
     else if data ! 1 = SILAKKA54_SYNC_BOOTLOADER then
       Some ([pad_report ([0x02, SILAKKA54_SYNC_BOOTLOADER, SILAKKA54_SYNC_VERSION] @ SILAKKA54_SYNC_MAGIC)],
             kb\<lparr>k_bootloader := True\<rparr>)
     else if data ! 1 = SILAKKA54_SYNC_LAYER then
       (let target = data ! 3;
            valid = target < fw_layer_count F;
            (reports, kb') = (if valid then layer_move target kb else ([], kb))
        in Some (reports @
             [pad_report ([0x02, SILAKKA54_SYNC_LAYER, SILAKKA54_SYNC_VERSION, target] @
                SILAKKA54_SYNC_MAGIC @ [if valid then 0 else 1, k_layer kb'])], kb'))
     else if data ! 1 \<noteq> SILAKKA54_SYNC_QUERY then None
     else Some ([status_page F (data ! 3)], kb))"

text \<open>
  A report reaches \<open>via_command_kb\<close> first and QMK's own VIA commands after it. A keyboard
  that jumped to its bootloader no longer answers.
\<close>

definition firmware_handler :: "firmware_image \<Rightarrow> 'c handler \<Rightarrow> 'c keyboard handler" where
  "firmware_handler F core data kb =
    (if k_bootloader kb then ([], kb)
     else case via_command_kb F data kb of
       Some out \<Rightarrow> out
     | None \<Rightarrow> (let (reports, c) = core data (k_core kb) in (reports, kb\<lparr>k_core := c\<rparr>)))"

definition image_ok :: "firmware_image \<Rightarrow> bool" where
  "image_ok F \<longleftrightarrow> length (fw_abi_hash F) = 8 \<and> length (fw_runtime_hash F) = 8 \<and> length (fw_keymap_hash F) = 8"

section \<open>Shape of the reports\<close>

lemma length_pad [simp]: "length bytes \<le> 32 \<Longrightarrow> length (pad_report bytes) = 32"
  by (simp add: pad_report_def)

lemma pad_nth: "i < length bytes \<Longrightarrow> pad_report bytes ! i = bytes ! i"
  by (simp add: pad_report_def nth_append)

lemma layer_report_ok: "unsolicited_ok (layer_report l n)"
  by (simp add: unsolicited_ok_def layer_report_def REPORT_MAGIC_def pad_nth)

lemma length_status_page: "image_ok F \<Longrightarrow> length (status_page F page) = 32"
  by (simp add: status_page_def image_ok_def)

lemma status_page_head: "status_page F page ! 0 = 0x02"
  by (simp add: status_page_def pad_nth)

lemma via_command_reports:
  assumes "via_command_kb F data kb = Some (reports, kb')" "image_ok F" "q \<in> set reports"
  shows "length q = 32 \<and> (unsolicited_ok q \<or> q ! 0 = 0x02)"
  using assms layer_report_ok
  by (auto simp: via_command_kb_def layer_move_def Let_def length_status_page status_page_head pad_nth
      unsolicited_ok_def split: if_splits prod.splits)

lemma via_command_core: "via_command_kb F data kb = Some (reports, kb') \<Longrightarrow> k_core kb' = k_core kb"
  by (auto simp: via_command_kb_def layer_move_def Let_def split: if_splits prod.splits)

lemma via_command_other:
  assumes "data ! 0 \<noteq> 0x02" "data ! 0 \<noteq> 0x4b"
  shows "via_command_kb F data kb = None"
proof -
  have "take 6 data \<noteq> REPORT_MAGIC"
  proof
    assume "take 6 data = REPORT_MAGIC"
    then have "take 6 data ! 0 = 0x4b" by (simp add: REPORT_MAGIC_def)
    with assms(2) show False by simp
  qed
  with assms(1) show ?thesis by (simp add: via_command_kb_def)
qed

end
