(* ===== verification/Device_Sync.thy ===== *)
theory Device_Sync
  imports Firmware
begin

text \<open>
  Writing the configured keymap to a keyboard: \<open>keymap_drift_for_device\<close> and
  \<open>sync_keymap_for_device\<close> of \<open>packages/silakka54/sync/src/main.rs\<close>. The two loops need of
  their get and set operations only the laws of the locale \<open>keycode_store\<close>; the requests
  over the unreliable link to a VIA keyboard provide them.
\<close>

section \<open>The two loops\<close>

definition keymap_drift ::
  "('p \<Rightarrow> ('s, 'e, 'v) io) \<Rightarrow> ('p \<times> 'v) list \<Rightarrow> ('s, 'e, nat) io" where
  "keymap_drift get =
     io_fold (\<lambda>drift (p, v). io_bind (get p) (\<lambda>current.
       io_return (if current \<noteq> v then drift + 1 else drift))) 0"

definition sync_entries ::
  "('p \<Rightarrow> ('s, 'e, 'v) io) \<Rightarrow> ('p \<Rightarrow> 'v \<Rightarrow> ('s, 'e, unit) io) \<Rightarrow> ('p \<times> 'v) list \<Rightarrow> ('s, 'e, nat) io" where
  "sync_entries get put =
     io_fold (\<lambda>changed (p, v). io_bind (get p) (\<lambda>current.
       if current \<noteq> v then io_bind (put p v) (\<lambda>_. io_return (changed + 1))
       else io_return changed)) 0"

definition wanted :: "key_entry list \<Rightarrow> (position \<times> u16) list" where
  "wanted entries = map (\<lambda>e. (entry_position e, entry_keycode e)) entries"

definition keymap_drift_for_device :: "'s transport \<Rightarrow> key_entry list \<Rightarrow> ('s, device_error, nat) io" where
  "keymap_drift_for_device T entries = keymap_drift (get_keycode T) (wanted entries)"

definition sync_keymap_for_device ::
  "string \<Rightarrow> ('s, string, 's transport) io \<Rightarrow> key_entry list \<Rightarrow> ('s, device_error, nat) io" where
  "sync_keymap_for_device expected_abi open_hid entries =
     io_bind (io_map_err OpenFailed open_hid) (\<lambda>device.
     io_bind (firmware_status device) (\<lambda>firmware.
     if abi_hash_prefix firmware \<noteq> hash_prefix expected_abi
     then io_fail (AbiMismatch (abi_hash_prefix firmware) (hash_prefix expected_abi))
     else sync_entries (get_keycode device) (set_keycode device) (wanted entries)))"

section \<open>A store of keycodes\<close>

locale keycode_store =
  fixes get :: "'p \<Rightarrow> ('s, 'e, 'v) io"
    and put :: "'p \<Rightarrow> 'v \<Rightarrow> ('s, 'e, unit) io"
    and keys :: "'s \<Rightarrow> 'p \<Rightarrow> 'v"
    and ready :: "'p set \<Rightarrow> 'p set \<Rightarrow> 's \<Rightarrow> bool"
  assumes get_law: "ready G S s \<Longrightarrow> p \<in> G \<Longrightarrow> get p s = Some (r, s') \<Longrightarrow>
      keys s' = keys s \<and> ready (G - {p}) S s' \<and> (\<forall>v. r = Inr v \<longrightarrow> v = keys s p)"
    and put_law: "ready G S s \<Longrightarrow> p \<in> S \<Longrightarrow> put p v s = Some (u, s') \<Longrightarrow>
      ready G (S - {p}) s' \<and> (keys s' = keys s \<or> keys s' = (keys s)(p := v)) \<and>
      (u = Inr () \<longrightarrow> keys s' = (keys s)(p := v))"
begin

lemma drift_counts:
  "ready G S s \<Longrightarrow> distinct (map fst es) \<Longrightarrow> set (map fst es) \<subseteq> G \<Longrightarrow>
   io_fold (\<lambda>drift (p, v). io_bind (get p) (\<lambda>current.
       io_return (if current \<noteq> v then drift + 1 else drift))) n es s = Some (r, s') \<Longrightarrow>
   keys s' = keys s \<and> (\<forall>m. r = Inr m \<longrightarrow> m = n + length (filter (\<lambda>(p, v). keys s p \<noteq> v) es))"
proof (induction es arbitrary: n s G)
  case Nil
  then show ?case by (auto simp: io_return_def)
next
  case (Cons e es)
  obtain p v where e: "e = (p, v)" by fastforce
  from Cons.prems obtain g s1 where g: "get p s = Some (g, s1)"
    by (auto simp: e io_bind_eq_Some)
  have law: "keys s1 = keys s" "ready (G - {p}) S s1" "\<And>w. g = Inr w \<Longrightarrow> w = keys s p"
    using get_law [OF Cons.prems(1) _ g] Cons.prems(3) by (auto simp: e)
  show ?case
  proof (cases g)
    case (Inl x)
    then show ?thesis using Cons.prems(4) g law(1) by (auto simp: e io_bind_def)
  next
    case (Inr w)
    then have w: "w = keys s p" by (rule law(3))
    have "io_fold (\<lambda>drift (p, v). io_bind (get p) (\<lambda>current.
        io_return (if current \<noteq> v then drift + 1 else drift))) (if keys s p \<noteq> v then n + 1 else n) es s1 = Some (r, s')"
      using Cons.prems(4) g Inr w by (simp add: e io_bind_step io_return_app [of _ s1])
    moreover have "set (map fst es) \<subseteq> G - {p}" "distinct (map fst es)"
      using Cons.prems by (auto simp: e)
    ultimately show ?thesis
      using Cons.IH [OF law(2)] law(1) by (fastforce simp: e)
  qed
qed

lemma drift_ok:
  assumes "ready G S s" "distinct (map fst es)" "set (map fst es) \<subseteq> G"
    and "keymap_drift get es s = Some (r, s')"
  shows "keys s' = keys s \<and> (\<forall>m. r = Inr m \<longrightarrow> m = length (filter (\<lambda>(p, v). keys s p \<noteq> v) es))"
  using drift_counts [OF assms(1-3), of 0 r s'] assms(4) by (simp add: keymap_drift_def)

lemma sync_writes:
  "ready G S s \<Longrightarrow> distinct (map fst es) \<Longrightarrow> set (map fst es) \<subseteq> G \<inter> S \<Longrightarrow>
   io_fold (\<lambda>changed (p, v). io_bind (get p) (\<lambda>current.
       if current \<noteq> v then io_bind (put p v) (\<lambda>_. io_return (changed + 1))
       else io_return changed)) n es s = Some (r, s') \<Longrightarrow>
   (\<exists>G' S'. ready G' S' s') \<and> (\<forall>p. p \<notin> set (map fst es) \<longrightarrow> keys s' p = keys s p) \<and>
   (\<forall>(p, v) \<in> set es. keys s' p = keys s p \<or> keys s' p = v) \<and>
   (\<forall>m. r = Inr m \<longrightarrow> (\<forall>(p, v) \<in> set es. keys s' p = v) \<and>
        m = n + length (filter (\<lambda>(p, v). keys s p \<noteq> v) es))"
proof (induction es arbitrary: n s G S)
  case Nil
  then show ?case by (auto simp: io_return_def)
next
  case (Cons e es)
  obtain p v where e: "e = (p, v)" by fastforce
  let ?loop = "io_fold (\<lambda>changed (p, v). io_bind (get p) (\<lambda>current.
       if current \<noteq> v then io_bind (put p v) (\<lambda>_. io_return (changed + 1)) else io_return changed))"
  from Cons.prems obtain g s1 where g: "get p s = Some (g, s1)"
    by (auto simp: e io_bind_eq_Some)
  have law: "keys s1 = keys s" "ready (G - {p}) S s1" "\<And>w. g = Inr w \<Longrightarrow> w = keys s p"
    using get_law [OF Cons.prems(1) _ g] Cons.prems(3) by (auto simp: e)
  have p: "p \<in> S" "p \<notin> set (map fst es)" "set (map fst es) \<subseteq> (G - {p}) \<inter> S" "set (map fst es) \<subseteq> (G - {p}) \<inter> (S - {p})"
    using Cons.prems(2,3) by (auto simp: e)
  have d: "distinct (map fst es)" using Cons.prems(2) by simp
  have fst_in: "(q, w) \<in> set es \<Longrightarrow> q \<noteq> p" for q w using p(2) by force
  have split: "filter (\<lambda>(p, v). keys s2 p \<noteq> v) es = filter (\<lambda>(p, v). keys s p \<noteq> v) es"
    if other: "\<And>q. q \<noteq> p \<Longrightarrow> keys s2 q = keys s q" for s2
    by (intro filter_cong refl) (auto simp: other dest: fst_in)
  show ?case
  proof (cases g)
    case (Inl x)
    then show ?thesis using Cons.prems(4) g law(1,2) by (auto simp: e io_bind_def)
  next
    case (Inr w)
    then have w: "w = keys s p" by (rule law(3))
    show ?thesis
    proof (cases "w = v")
      case True
      then have "?loop n es s1 = Some (r, s')"
        using Cons.prems(4) g Inr by (simp add: e io_simps)
      from Cons.IH [OF law(2) d p(3) this] show ?thesis
        using True w law(1) p(2) by (auto simp: e)
    next
      case False
      obtain q s2 where put: "put p v s1 = Some (q, s2)"
        using Cons.prems(4) g Inr False by (auto simp: e io_bind_def split: option.splits)
      from put_law [OF law(2) p(1) put]
      have pl: "ready (G - {p}) (S - {p}) s2" "keys s2 = keys s \<or> keys s2 = (keys s)(p := v)"
        "q = Inr () \<Longrightarrow> keys s2 = (keys s)(p := v)" by (auto simp: law(1))
      show ?thesis
      proof (cases q)
        case (Inl x)
        then show ?thesis
          using Cons.prems(4) g Inr False put pl(1,2) fst_in by (fastforce simp: e io_bind_def)
      next
        case (Inr u)
        then have k2: "keys s2 = (keys s)(p := v)" using pl(3) by simp
        have "?loop (n + 1) es s2 = Some (r, s')"
          using Cons.prems(4) g \<open>g = Inr w\<close> False put Inr by (simp add: e io_simps)
        from Cons.IH [OF pl(1) d p(4) this] show ?thesis
          using False w k2 p(2) split [of s2] fst_in by (auto simp: e)
      qed
    qed
  qed
qed

lemma sync_ok:
  assumes "ready G S s" "distinct (map fst es)" "set (map fst es) \<subseteq> G \<inter> S"
    and "sync_entries get put es s = Some (r, s')"
  shows "(\<exists>G' S'. ready G' S' s') \<and> (\<forall>p. p \<notin> set (map fst es) \<longrightarrow> keys s' p = keys s p) \<and>
   (\<forall>(p, v) \<in> set es. keys s' p = keys s p \<or> keys s' p = v) \<and>
   (\<forall>m. r = Inr m \<longrightarrow> (\<forall>(p, v) \<in> set es. keys s' p = v) \<and>
        m = length (filter (\<lambda>(p, v). keys s p \<noteq> v) es))"
  using sync_writes [OF assms(1-3), of 0 r s'] assms(4) by (simp add: sync_entries_def)

end

text \<open>A store that also answers every request about the positions \<open>P\<close>.\<close>

locale live_store = keycode_store +
  fixes live :: "'a set \<Rightarrow> 'b \<Rightarrow> bool"
  assumes get_live: "live P s \<Longrightarrow> p \<in> P \<Longrightarrow> \<exists>v s'. get p s = Some (Inr v, s') \<and> live P s'"
    and put_live: "live P s \<Longrightarrow> p \<in> P \<Longrightarrow> \<exists>s'. put p v s = Some (Inr (), s') \<and> live P s'"
begin

lemma sync_live:
  "live P s \<Longrightarrow> set (map fst es) \<subseteq> P \<Longrightarrow> \<exists>n s'. sync_entries get put es s = Some (Inr n, s') \<and> live P s'"
proof -
  have "live P s \<Longrightarrow> set (map fst es) \<subseteq> P \<Longrightarrow>
    \<exists>n s'. io_fold (\<lambda>changed (p, v). io_bind (get p) (\<lambda>current.
       if current \<noteq> v then io_bind (put p v) (\<lambda>_. io_return (changed + 1))
       else io_return changed)) k es s = Some (Inr n, s') \<and> live P s'" for k
  proof (induction es arbitrary: s k)
    case Nil
    then show ?case by (simp add: io_return_def)
  next
    case (Cons e es)
    obtain p v where e: "e = (p, v)" by fastforce
    obtain w s1 where g: "get p s = Some (Inr w, s1)" "live P s1"
      using get_live [OF Cons.prems(1), of p] Cons.prems(2) by (auto simp: e)
    obtain s2 where u: "put p v s1 = Some (Inr (), s2)" "live P s2"
      using put_live [OF g(2), of p v] Cons.prems(2) by (auto simp: e)
    show ?case
      using Cons.IH [OF g(2), of k] Cons.IH [OF u(2), of "k + 1"] Cons.prems(2) g(1) u(1)
      by (cases "w = v") (simp_all add: e io_bind_step io_return_app [of _ s1] io_return_app [of _ s2])
  qed
  then show "live P s \<Longrightarrow> set (map fst es) \<subseteq> P \<Longrightarrow> ?thesis" by (simp add: sync_entries_def)
qed

end

section \<open>A VIA keyboard over the link\<close>

definition position_bytes :: "position \<Rightarrow> byte list" where
  "position_bytes = (\<lambda>(layer, row, col). [layer, row, col])"

lemma position_bytes_inj [simp]: "position_bytes p = position_bytes q \<longleftrightarrow> p = q"
  by (auto simp: position_bytes_def split: prod.splits)

definition answers_get :: "position \<Rightarrow> byte list \<Rightarrow> bool" where
  "answers_get p q \<longleftrightarrow> q ! 0 = ID_DYNAMIC_KEYMAP_GET_KEYCODE \<and> slice 1 4 q = position_bytes p"

definition answers_set :: "position \<Rightarrow> byte list \<Rightarrow> bool" where
  "answers_set p q \<longleftrightarrow> q ! 0 = ID_DYNAMIC_KEYMAP_SET_KEYCODE \<and> slice 1 4 q = position_bytes p"

text \<open>
  What the program relies on in a VIA firmware with handler \<open>h\<close> and dynamic keymap \<open>km\<close>:
  a get request reads the keycode of a supported position and answers with the position
  and the keycode; a set request stores the keycode and echoes the request, or is ignored
  without an answer; the keyboard-value requests leave the keymap alone. Every report has
  32 bytes.
\<close>

definition via_keymap ::
  "'k handler \<Rightarrow> ('k \<Rightarrow> position \<Rightarrow> u16) \<Rightarrow> position set \<Rightarrow> bool" where
  "via_keymap h km D \<longleftrightarrow>
    (\<forall>p \<in> D. \<forall>kb. case h (get_keycode_report p) kb of (reports, kb') \<Rightarrow>
       km kb' = km kb \<and>
       (\<forall>q \<in> set reports. length q = 32 \<and> q ! 0 \<noteq> ID_DYNAMIC_KEYMAP_SET_KEYCODE \<and>
          (q ! 0 = ID_DYNAMIC_KEYMAP_GET_KEYCODE \<longrightarrow>
             slice 1 4 q = position_bytes p \<and> be16 (q ! 4) (q ! 5) = km kb p))) \<and>
    (\<forall>p \<in> D. \<forall>v kb. case h (set_keycode_report p v) kb of (reports, kb') \<Rightarrow>
       km kb' = km kb \<and> reports = [] \<or>
       km kb' = (km kb)(p := v) \<and>
       (\<forall>q \<in> set reports. length q = 32 \<and> q ! 0 \<noteq> ID_DYNAMIC_KEYMAP_GET_KEYCODE \<and>
          (q ! 0 = ID_DYNAMIC_KEYMAP_SET_KEYCODE \<longrightarrow> slice 1 4 q = position_bytes p))) \<and>
    (\<forall>report kb. report ! 0 = ID_GET_KEYBOARD_VALUE \<longrightarrow> (case h report kb of (reports, kb') \<Rightarrow>
       km kb' = km kb \<and>
       (\<forall>q \<in> set reports. length q = 32 \<and>
          q ! 0 \<noteq> ID_DYNAMIC_KEYMAP_GET_KEYCODE \<and> q ! 0 \<noteq> ID_DYNAMIC_KEYMAP_SET_KEYCODE)))"

lemma via_keymap_get:
  assumes "via_keymap h km D" "p \<in> D" "h (get_keycode_report p) kb = (reports, kb')"
  shows "km kb' = km kb"
    and "q \<in> set reports \<Longrightarrow> length q = 32 \<and> q ! 0 \<noteq> ID_DYNAMIC_KEYMAP_SET_KEYCODE \<and>
      (q ! 0 = ID_DYNAMIC_KEYMAP_GET_KEYCODE \<longrightarrow>
         slice 1 4 q = position_bytes p \<and> be16 (q ! 4) (q ! 5) = km kb p)"
  using bspec [OF assms(1) [unfolded via_keymap_def, THEN conjunct1] assms(2), THEN spec, of kb] assms(3)
  by auto

lemma via_keymap_set:
  assumes "via_keymap h km D" "p \<in> D" "h (set_keycode_report p v) kb = (reports, kb')"
  shows "km kb' = km kb \<and> reports = [] \<or> km kb' = (km kb)(p := v) \<and>
       (\<forall>q \<in> set reports. length q = 32 \<and> q ! 0 \<noteq> ID_DYNAMIC_KEYMAP_GET_KEYCODE \<and>
          (q ! 0 = ID_DYNAMIC_KEYMAP_SET_KEYCODE \<longrightarrow> slice 1 4 q = position_bytes p))"
  using bspec [OF assms(1) [unfolded via_keymap_def, THEN conjunct2, THEN conjunct1] assms(2), THEN spec [of _ v], THEN spec [of _ kb]] assms(3)
  by simp

lemma via_keymap_query:
  assumes "via_keymap h km D" "report ! 0 = ID_GET_KEYBOARD_VALUE" "h report kb = (reports, kb')"
  shows "km kb' = km kb"
    and "q \<in> set reports \<Longrightarrow> length q = 32 \<and>
      q ! 0 \<noteq> ID_DYNAMIC_KEYMAP_GET_KEYCODE \<and> q ! 0 \<noteq> ID_DYNAMIC_KEYMAP_SET_KEYCODE"
  using assms(1) [unfolded via_keymap_def, THEN conjunct2, THEN conjunct2, rule_format, of report kb] assms(2,3)
  by auto

definition queue_clear :: "position set \<Rightarrow> position set \<Rightarrow> byte list list \<Rightarrow> bool" where
  "queue_clear G S queue \<longleftrightarrow>
     (\<forall>q \<in> set queue. length q = 32 \<and> (\<forall>p \<in> G. \<not> answers_get p q) \<and> (\<forall>p \<in> S. \<not> answers_set p q))"

definition link_ready ::
  "'k handler \<Rightarrow> ('k \<Rightarrow> position \<Rightarrow> u16) \<Rightarrow> position set \<Rightarrow> position set \<Rightarrow> position set \<Rightarrow> 'k link \<Rightarrow> bool" where
  "link_ready h km D G S s \<longleftrightarrow>
     via_keymap h km D \<and> G \<union> S \<subseteq> D \<and> quiet s \<and> queue_clear G S (l_queue s)"

lemma get_report_bytes:
  "length (get_keycode_report p) = 32" "get_keycode_report p ! 0 = ID_DYNAMIC_KEYMAP_GET_KEYCODE"
  "slice 1 4 (get_keycode_report p) = position_bytes p"
  by (auto simp: get_keycode_report_def command_report_def REPORT_LEN_def slice_def position_bytes_def
      numeral_eq_Suc split: prod.splits)

lemma set_report_bytes:
  "length (set_keycode_report p v) = 32" "set_keycode_report p v ! 0 = ID_DYNAMIC_KEYMAP_SET_KEYCODE"
  "slice 1 4 (set_keycode_report p v) = position_bytes p"
  by (auto simp: set_keycode_report_def command_report_def REPORT_LEN_def slice_def position_bytes_def
      numeral_eq_Suc split: prod.splits)

lemma normalize_32: "length q = 32 \<Longrightarrow> normalize_report q = q"
  by (simp add: normalize_report_def REPORT_LEN_def)

lemma accept_get:
  "length q = 32 \<Longrightarrow> accept_report (get_keycode_report p) ID_DYNAMIC_KEYMAP_GET_KEYCODE q = Some r \<longleftrightarrow>
     r = q \<and> answers_get p q"
  by (auto simp: accept_report_Some normalize_32 response_matches_request_def get_report_bytes answers_get_def
      hid_constants get_report_bytes(3) [unfolded One_nat_def])

lemma slice_prefix: "slice 1 6 a = slice 1 6 b \<Longrightarrow> slice 1 4 a = slice 1 4 b"
proof -
  have "slice 1 4 x = take 3 (slice 1 6 x)" for x :: "'a list" by (simp add: slice_def min_def)
  then show "slice 1 6 a = slice 1 6 b \<Longrightarrow> slice 1 4 a = slice 1 4 b" by simp
qed

lemma accept_set:
  "length q = 32 \<Longrightarrow> accept_report (set_keycode_report p v) ID_DYNAMIC_KEYMAP_SET_KEYCODE q = Some r \<Longrightarrow>
     answers_set p q"
  using slice_prefix [of q "set_keycode_report p v"]
  by (auto simp: accept_report_Some normalize_32 response_matches_request_def set_report_bytes answers_set_def
      hid_constants set_report_bytes(3) [unfolded One_nat_def])

lemma unsolicited_never:
  "unsolicited_ok q \<Longrightarrow> length q = 32 \<and> \<not> answers_get p q \<and> \<not> answers_set p q"
  by (auto simp: unsolicited_ok_def answers_get_def answers_set_def hid_constants)

lemma transact_eq:
  "transact T report c s = Some (r, s') \<longleftrightarrow>
     (\<exists>q. raw_transaction T report c one_second s = Some (q, s') \<and> r = map_err Hid q)"
  by (auto simp: transact_def io_map_err_eq_Some)

lemma transact_then:
  "io_bind (transact T report c) (\<lambda>x. io_return (f x)) s = Some (r, s') \<longleftrightarrow>
     (\<exists>q. raw_transaction T report c one_second s = Some (q, s') \<and>
        r = (case q of Inl e \<Rightarrow> Inl (Hid e) | Inr x \<Rightarrow> Inr (f x)))"
proof -
  obtain o1 where o1: "raw_transaction T report c one_second s = o1" by simp
  show ?thesis
  proof (cases o1)
    case None
    then show ?thesis by (simp add: o1 transact_def io_bind_def io_map_err_def)
  next
    case (Some qs)
    then show ?thesis
      by (cases qs; cases "fst qs") (auto simp: o1 transact_def io_bind_def io_map_err_def io_return_def)
  qed
qed

lemma get_keycode_link:
  assumes ready: "link_ready h km D G S s" and p: "p \<in> G"
    and run: "get_keycode (link_transport h) p s = Some (r, s')"
  shows "km (l_kb s') = km (l_kb s) \<and> link_ready h km D (G - {p}) S s' \<and> (\<forall>v. r = Inr v \<longrightarrow> v = km (l_kb s) p)"
proof -
  let ?rep = "get_keycode_report p" and ?K = "km (l_kb s)"
  define J where "J kb queue \<longleftrightarrow> km kb = ?K \<and> queue_clear (G - {p}) S queue \<and>
      (\<forall>q \<in> set queue. answers_get p q \<longrightarrow> be16 (q ! 4) (q ! 5) = ?K p)" for kb queue
  define R where "R bytes (kb :: 'a) \<longleftrightarrow> length bytes = 32 \<and> (answers_get p bytes \<longrightarrow> be16 (bytes ! 4) (bytes ! 5) = ?K p)" for bytes kb
  have via: "via_keymap h km D" and pD: "p \<in> D" using ready p by (auto simp: link_ready_def)
  have K: "keeps (link_transport h) ?rep (link_inv J) (\<lambda>bytes s. R bytes (l_kb s))"
  proof (rule link_keeps)
    fix kb queue replies kb'
    assume J: "J kb queue" and h: "h ?rep kb = (replies, kb')"
    show "J kb' (queue @ replies)"
      using J via_keymap_get [OF via pD h]
      by (auto simp: J_def queue_clear_def answers_get_def answers_set_def)
  qed (auto simp: J_def R_def queue_clear_def dest: unsolicited_never)
  have I0: "link_inv J s"
    using ready p by (auto simp: link_inv_def J_def link_ready_def queue_clear_def)
  have res: "link_inv J s' \<and> (\<forall>x. q = Inr x \<longrightarrow> (\<exists>bytes. R bytes (l_kb s') \<and> accept_report ?rep ID_DYNAMIC_KEYMAP_GET_KEYCODE bytes = Some x))"
    if "raw_transaction (link_transport h) ?rep ID_DYNAMIC_KEYMAP_GET_KEYCODE one_second s = Some (q, s')" for q
    using transaction_keeps(1) [OF that K I0] transaction_keeps(2) [OF that K I0] by blast
  have R_get: "be16 (x ! 4) (x ! 5) = ?K p" if "R bytes kb" "accept_report ?rep ID_DYNAMIC_KEYMAP_GET_KEYCODE bytes = Some x" for bytes kb x
    using that accept_get [of bytes p x] by (auto simp: R_def)
  from run obtain q where q: "raw_transaction (link_transport h) ?rep ID_DYNAMIC_KEYMAP_GET_KEYCODE one_second s = Some (q, s')"
      "r = (case q of Inl e \<Rightarrow> Inl (Hid e) | Inr x \<Rightarrow> Inr (be16 (x ! 4) (x ! 5)))"
    unfolding get_keycode_def transact_then by blast
  have J': "link_inv J s'" using res [OF q(1)] by blast
  have v: "\<forall>v. r = Inr v \<longrightarrow> v = ?K p"
  proof (cases q)
    case (Inl e)
    then show ?thesis using q(2) by simp
  next
    case (Inr x)
    then obtain bytes where "R bytes (l_kb s')" "accept_report ?rep ID_DYNAMIC_KEYMAP_GET_KEYCODE bytes = Some x"
      using res [OF q(1)] by blast
    from R_get [OF this] show ?thesis using q(2) Inr by simp
  qed
  then show ?thesis
    using ready J' v by (auto simp: link_inv_def J_def link_ready_def)
qed

lemma set_keycode_link:
  assumes ready: "link_ready h km D G S s" and p: "p \<in> S"
    and run: "set_keycode (link_transport h) p v s = Some (r, s')"
  shows "link_ready h km D G (S - {p}) s' \<and> (km (l_kb s') = km (l_kb s) \<or> km (l_kb s') = (km (l_kb s))(p := v)) \<and>
    (r = Inr () \<longrightarrow> km (l_kb s') = (km (l_kb s))(p := v))"
proof -
  let ?rep = "set_keycode_report p v" and ?K = "km (l_kb s)"
  define J where "J kb queue \<longleftrightarrow> queue_clear G (S - {p}) queue \<and>
      (km kb = ?K \<and> (\<forall>q \<in> set queue. \<not> answers_set p q) \<or> km kb = ?K(p := v))" for kb queue
  define R where "R bytes kb \<longleftrightarrow> length bytes = 32 \<and> (answers_set p bytes \<longrightarrow> km kb = ?K(p := v))" for bytes kb
  have via: "via_keymap h km D" and pD: "p \<in> D" using ready p by (auto simp: link_ready_def)
  have K: "keeps (link_transport h) ?rep (link_inv J) (\<lambda>bytes s. R bytes (l_kb s))"
  proof (rule link_keeps)
    fix kb queue replies kb'
    assume J: "J kb queue" and h: "h ?rep kb = (replies, kb')"
    show "J kb' (queue @ replies)"
      using J via_keymap_set [OF via pD h]
      by (auto simp: J_def queue_clear_def answers_get_def answers_set_def)
  qed (auto simp: J_def R_def queue_clear_def dest: unsolicited_never)
  have I0: "link_inv J s"
    using ready p by (auto simp: link_inv_def J_def link_ready_def queue_clear_def)
  have res: "link_inv J s' \<and> (\<forall>x. q = Inr x \<longrightarrow> (\<exists>bytes. R bytes (l_kb s') \<and> accept_report ?rep ID_DYNAMIC_KEYMAP_SET_KEYCODE bytes = Some x))"
    if "raw_transaction (link_transport h) ?rep ID_DYNAMIC_KEYMAP_SET_KEYCODE one_second s = Some (q, s')" for q
    using transaction_keeps(1) [OF that K I0] transaction_keeps(2) [OF that K I0] by blast
  have R_set: "km kb = ?K(p := v)" if "R bytes kb" "accept_report ?rep ID_DYNAMIC_KEYMAP_SET_KEYCODE bytes = Some x" for bytes kb x
    using that accept_set [of bytes p v x] by (auto simp: R_def)
  from run obtain q where q: "raw_transaction (link_transport h) ?rep ID_DYNAMIC_KEYMAP_SET_KEYCODE one_second s = Some (q, s')"
      "r = (case q of Inl e \<Rightarrow> Inl (Hid e) | Inr x \<Rightarrow> Inr ())"
    unfolding set_keycode_def transact_then by blast
  have J': "link_inv J s'" using res [OF q(1)] by blast
  have v: "r = Inr () \<longrightarrow> km (l_kb s') = ?K(p := v)"
  proof (cases q)
    case (Inl e)
    then show ?thesis using q(2) by simp
  next
    case (Inr x)
    then obtain bytes where "R bytes (l_kb s')" "accept_report ?rep ID_DYNAMIC_KEYMAP_SET_KEYCODE bytes = Some x"
      using res [OF q(1)] by blast
    from R_set [OF this] show ?thesis using q(2) Inr by simp
  qed
  then show ?thesis
    using ready J' v by (auto simp: link_inv_def J_def link_ready_def)
qed

interpretation link_store: keycode_store
  "get_keycode (link_transport h)" "set_keycode (link_transport h)" "\<lambda>s. km (l_kb s)" "link_ready h km D"
  for h km D
  by unfold_locales (erule (2) get_keycode_link, erule (2) set_keycode_link)

section \<open>The status queries leave the keymap alone\<close>

lemma query_link:
  assumes ready: "link_ready h km D G S s" and q0: "report ! 0 = ID_GET_KEYBOARD_VALUE"
    and run: "raw_transaction (link_transport h) report c t s = Some (q, s')"
  shows "km (l_kb s') = km (l_kb s) \<and> link_ready h km D G S s'"
proof -
  let ?K = "km (l_kb s)"
  define J where "J kb queue \<longleftrightarrow> km kb = ?K \<and> queue_clear G S queue" for kb queue
  have via: "via_keymap h km D" using ready by (simp add: link_ready_def)
  have K: "keeps (link_transport h) report (link_inv J) (\<lambda>bytes s. True)"
  proof (rule link_keeps)
    fix kb queue replies kb'
    assume J: "J kb queue" and h: "h report kb = (replies, kb')"
    show "J kb' (queue @ replies)"
      using J via_keymap_query [OF via q0 h]
      by (auto simp: J_def queue_clear_def answers_get_def answers_set_def)
  qed (auto simp: J_def queue_clear_def)
  have "link_inv J s"
    using ready by (auto simp: link_inv_def J_def link_ready_def)
  from transaction_keeps(1) [OF run K this] show ?thesis
    using ready by (auto simp: link_inv_def J_def link_ready_def)
qed

lemma query_report_0: "query_report k v a ! 0 = ID_GET_KEYBOARD_VALUE"
  by (simp add: query_report_def command_report_def REPORT_LEN_def)

lemma query_preserves:
  assumes "report ! 0 = ID_GET_KEYBOARD_VALUE"
  shows "preserves (\<lambda>s. km (l_kb s) = K \<and> link_ready h km D G S s) (transact (link_transport h) report c)"
  unfolding transact_def
  by (rule preserves_map_err) (unfold preserves_def; metis query_link [OF _ assms])

lemma firmware_status_preserves:
  "preserves (\<lambda>s. km (l_kb s) = K \<and> link_ready h km D G S s) (firmware_status (link_transport h))"
  unfolding firmware_status_def firmware_status_page_def
  by (intro io_keeps query_preserves query_report_0)

lemma firmware_status_link:
  assumes "link_ready h km D G S s" "firmware_status (link_transport h) s = Some (r, s')"
  shows "km (l_kb s') = km (l_kb s) \<and> link_ready h km D G S s'"
  using preservesD [OF firmware_status_preserves assms(2), of km "km (l_kb s)" D G S] assms(1) by simp

section \<open>Applying the configured keymap\<close>

text \<open>Opening a device gives a fresh handle: reports that arrived before are not seen.\<close>

definition link_open :: "'k handler \<Rightarrow> ('k link, string, 'k link transport) io" where
  "link_open h s = Some (Inr (link_transport h), s\<lparr>l_queue := []\<rparr>)"

lemma link_ready_open:
  assumes "via_keymap h km D" "quiet s" "P \<subseteq> D"
  shows "link_ready h km D P P (s\<lparr>l_queue := []\<rparr>)"
  using assms by (auto simp: link_ready_def queue_clear_def quiet_def)

lemma sync_run:
  assumes via: "via_keymap h km D" and quiet: "quiet s"
    and d: "distinct (map entry_position entries)" and D: "entry_position ` set entries \<subseteq> D"
    and run: "sync_keymap_for_device abi (link_open h) entries s = Some (r, s')"
  shows "quiet s' \<and> (\<forall>p. p \<notin> entry_position ` set entries \<longrightarrow> km (l_kb s') p = km (l_kb s) p) \<and>
    (\<forall>e \<in> set entries. km (l_kb s') (entry_position e) \<in> {km (l_kb s) (entry_position e), entry_keycode e}) \<and>
    (\<forall>n. r = Inr n \<longrightarrow>
       (\<forall>e \<in> set entries. km (l_kb s') (entry_position e) = entry_keycode e) \<and>
       n = length (filter (\<lambda>e. km (l_kb s) (entry_position e) \<noteq> entry_keycode e) entries))"
proof -
  let ?P = "entry_position ` set entries"
  have fst_wanted: "map fst (wanted entries) = map entry_position entries" by (simp add: wanted_def)
  have ready: "link_ready h km D ?P ?P (s\<lparr>l_queue := []\<rparr>)"
    by (rule link_ready_open [OF via quiet D])
  from run obtain f s1 where f: "firmware_status (link_transport h) (s\<lparr>l_queue := []\<rparr>) = Some (f, s1)"
    by (auto simp: sync_keymap_for_device_def io_bind_eq_Some io_map_err_eq_Some link_open_def)
  from firmware_status_link [OF ready f]
  have s1: "km (l_kb s1) = km (l_kb s)" "link_ready h km D ?P ?P s1" by auto
  from run f consider (stop) x where "r = Inl x" "s' = s1"
    | (go) "sync_entries (get_keycode (link_transport h)) (set_keycode (link_transport h)) (wanted entries) s1 = Some (r, s')"
    by (auto simp: sync_keymap_for_device_def io_bind_eq_Some io_map_err_eq_Some link_open_def io_fail_def split: if_splits)
  then show ?thesis
  proof cases
    case stop
    then show ?thesis using s1 by (simp add: link_ready_def)
  next
    case go
    from link_store.sync_ok [OF s1(2) _ _ go] d
    have "\<exists>G' S'. link_ready h km D G' S' s'" by (simp add: fst_wanted)
    then have "quiet s'" by (auto simp: link_ready_def)
    with link_store.sync_ok [OF s1(2) _ _ go] d
    show ?thesis by (simp add: fst_wanted s1 wanted_def filter_map o_def image_image)
  qed
qed
text \<open>
  C1: Applying the keymap over the unreliable link writes only configured keycodes, only at
  configured positions, and never anything else, even when it fails half way. When it
  reports success every configured position holds its keycode, and the number it reports
  is the number of positions that differed before.
\<close>
theorem sync_keymap_correct:
  assumes "via_keymap h km D" and "quiet s"
    and "distinct (map entry_position entries)" and "entry_position ` set entries \<subseteq> D"
    and "sync_keymap_for_device abi (link_open h) entries s = Some (r, s')"
  shows "(\<forall>p. p \<notin> entry_position ` set entries \<longrightarrow> km (l_kb s') p = km (l_kb s) p) \<and>
    (\<forall>e \<in> set entries. km (l_kb s') (entry_position e) \<in> {km (l_kb s) (entry_position e), entry_keycode e}) \<and>
    (\<forall>n. r = Inr n \<longrightarrow>
       (\<forall>e \<in> set entries. km (l_kb s') (entry_position e) = entry_keycode e) \<and>
       n = length (filter (\<lambda>e. km (l_kb s) (entry_position e) \<noteq> entry_keycode e) entries))"
  using sync_run [OF assms] by (elim conjE) (intro conjI)

text \<open>
  After a successful application the keyboard is up to date: applying the same keymap
  again, if it succeeds, writes nothing, and a drift check that succeeds finds none.
\<close>
theorem sync_keymap_settles:
  assumes via: "via_keymap h km D" and quiet: "quiet s"
    and d: "distinct (map entry_position entries)" and D: "entry_position ` set entries \<subseteq> D"
    and first: "sync_keymap_for_device abi (link_open h) entries s = Some (Inr n, s1)"
  shows "(\<forall>m s2. sync_keymap_for_device abi (link_open h) entries s1 = Some (Inr m, s2) \<longrightarrow> m = 0) \<and>
    (\<forall>m s2. keymap_drift_for_device (link_transport h) entries (s1\<lparr>l_queue := []\<rparr>) = Some (Inr m, s2) \<longrightarrow> m = 0)"
proof -
  from sync_run [OF via quiet d D first]
  have q1: "quiet s1" and cur: "\<And>e. e \<in> set entries \<Longrightarrow> km (l_kb s1) (entry_position e) = entry_keycode e"
    by auto
  have none: "filter (\<lambda>e. km (l_kb s1) (entry_position e) \<noteq> entry_keycode e) entries = []"
    using cur by (simp add: filter_empty_conv)
  have "m = 0" if "sync_keymap_for_device abi (link_open h) entries s1 = Some (Inr m, s2)" for m s2
    using sync_run [OF via q1 d D that] none by simp
  moreover have "m = 0"
    if "keymap_drift_for_device (link_transport h) entries (s1\<lparr>l_queue := []\<rparr>) = Some (Inr m, s2)" for m s2
  proof -
    have "distinct (map fst (wanted entries))" "set (map fst (wanted entries)) \<subseteq> entry_position ` set entries"
      using d by (auto simp: wanted_def o_def)
    from link_store.drift_ok [OF link_ready_open [OF via q1 D] this that [unfolded keymap_drift_for_device_def]]
    have "m = length (filter (\<lambda>(p, v). km (l_kb s1) p \<noteq> v) (wanted entries))" by simp
    then show ?thesis using none by (simp add: wanted_def filter_map o_def)
  qed
  ultimately show ?thesis by blast
qed

section \<open>A link without faults\<close>

definition calm :: "'k link \<Rightarrow> bool" where
  "calm s \<longleftrightarrow> l_lost s = [] \<and> l_events s = [] \<and> l_queue s = []"

lemma transact_calm:
  assumes "calm s" "h report (l_kb s) = ([q], kb')" "accept_report report c q = Some r"
  shows "\<exists>s'. transact (link_transport h) report c s = Some (Inr r, s') \<and> calm s' \<and> l_kb s' = kb'"
  using link_retries [of s 0 "[]" h report q "[]" kb' c r "l_clock s" "l_clock s + one_second"] assms
  by (auto simp: calm_def transact_def io_map_err_def raw_transaction_def transaction_loop_def one_second_def)

text \<open>
  A firmware that answers: while it is in a state \<open>A\<close>, each get and set request for a
  supported position is answered by one matching report.
\<close>

definition via_answers :: "'k handler \<Rightarrow> ('k \<Rightarrow> bool) \<Rightarrow> position set \<Rightarrow> bool" where
  "via_answers h A D \<longleftrightarrow>
    (\<forall>p \<in> D. \<forall>kb. A kb \<longrightarrow>
      (\<exists>q kb'. h (get_keycode_report p) kb = ([q], kb') \<and> A kb' \<and>
         accept_report (get_keycode_report p) ID_DYNAMIC_KEYMAP_GET_KEYCODE q \<noteq> None) \<and>
      (\<forall>v. \<exists>q kb'. h (set_keycode_report p v) kb = ([q], kb') \<and> A kb' \<and>
         accept_report (set_keycode_report p v) ID_DYNAMIC_KEYMAP_SET_KEYCODE q \<noteq> None))"

definition link_live :: "'k handler \<Rightarrow> ('k \<Rightarrow> bool) \<Rightarrow> position set \<Rightarrow> position set \<Rightarrow> 'k link \<Rightarrow> bool" where
  "link_live h A D P s \<longleftrightarrow> via_answers h A D \<and> P \<subseteq> D \<and> calm s \<and> A (l_kb s)"

interpretation link_live: live_store
  "get_keycode (link_transport h)" "set_keycode (link_transport h)" "\<lambda>s. km (l_kb s)" "link_ready h km D"
  "link_live h A D"
  for h km A D
proof
  fix P s p
  assume live: "link_live h A D P s" and p: "p \<in> P"
  then obtain q kb' r where "h (get_keycode_report p) (l_kb s) = ([q], kb')" "A kb'" "calm s"
      "accept_report (get_keycode_report p) ID_DYNAMIC_KEYMAP_GET_KEYCODE q = Some r"
    unfolding link_live_def via_answers_def by blast
  with transact_calm [of s h "get_keycode_report p" q kb' ID_DYNAMIC_KEYMAP_GET_KEYCODE r] live
  show "\<exists>v s'. get_keycode (link_transport h) p s = Some (Inr v, s') \<and> link_live h A D P s'"
    by (auto simp: get_keycode_def io_bind_def io_return_def link_live_def)
next
  fix P s p v
  assume live: "link_live h A D P s" and p: "p \<in> P"
  then obtain q kb' r where "h (set_keycode_report p v) (l_kb s) = ([q], kb')" "A kb'" "calm s"
      "accept_report (set_keycode_report p v) ID_DYNAMIC_KEYMAP_SET_KEYCODE q = Some r"
    unfolding link_live_def via_answers_def by blast
  with transact_calm [of s h "set_keycode_report p v" q kb' ID_DYNAMIC_KEYMAP_SET_KEYCODE r] live
  show "\<exists>s'. set_keycode (link_transport h) p v s = Some (Inr (), s') \<and> link_live h A D P s'"
    by (auto simp: set_keycode_def io_bind_def io_return_def link_live_def)
qed

end
