(* ===== verification/Rust_Text.thy ===== *)
theory Rust_Text
  imports Rust_Strings
begin

text \<open>
  Lines, words and numbers in text: \<open>str::lines\<close>, \<open>str::split_whitespace\<close>, \<open>str::parse\<close>
  for the wider integer types, \<open>{}\<close> formatting of integers, and reading a printed value back.
\<close>

section \<open>Lines\<close>

text \<open>\<open>str::lines\<close>: a final line feed ends the last line, a carriage return before a line feed is dropped.\<close>

definition strip_cr :: "string \<Rightarrow> string" where
  "strip_cr s = (case strip_suffix [CHR 0x0D] s of Some r \<Rightarrow> r | None \<Rightarrow> s)"

definition str_lines :: "string \<Rightarrow> string list" where
  "str_lines s =
     (let parts = split_on (CHR 0x0A) s
      in map strip_cr (butlast parts) @ (if last parts = [] then [] else [last parts]))"

lemma str_lines_one:
  assumes "CHR 0x0A \<notin> set l" "l = [] \<or> last l \<noteq> CHR 0x0D"
  shows "str_lines (l @ [CHR 0x0A]) = [l]"
proof -
  have "strip_suffix [CHR 0x0D] l = None"
    using assms(2) by (cases "strip_suffix [CHR 0x0D] l") (auto simp: strip_suffix_Some)
  moreover have "split_on (CHR 0x0A) (l @ [CHR 0x0A]) = [l, []]"
    using assms(1) split_on_append [of "CHR 0x0A" l "[]"] by simp
  ultimately show ?thesis by (simp add: str_lines_def strip_cr_def)
qed

section \<open>Words\<close>

text \<open>
  \<open>str::split_whitespace\<close>; the first argument is the word read so far. An encoding of a
  whitespace character starts with a lead byte, so it is never found inside a character.
\<close>

function split_words :: "string \<Rightarrow> string \<Rightarrow> string list" where
  "split_words w s =
     (case strip_first ws_encodings s of
        Some r \<Rightarrow> if length r < length s then (if w = [] then [] else [w]) @ split_words [] r else []
      | None \<Rightarrow> (case s of [] \<Rightarrow> (if w = [] then [] else [w]) | c # cs \<Rightarrow> split_words (w @ [c]) cs))"
  by pat_completeness auto
termination
  by (relation "measure (\<lambda>(w, s). length s)") auto

declare split_words.simps [simp del]

definition split_whitespace :: "string \<Rightarrow> string list" where
  "split_whitespace s = split_words [] s"

lemma strip_first_ws_graph: "is_graph c \<Longrightarrow> strip_first ws_encodings (c # s) = None"
  by (rule strip_first_None) (use ws_encodings_ends in fastforce)

lemma strip_first_ws_Nil: "strip_first ws_encodings [] = None"
  by (rule strip_first_None) (use ws_encodings_ends in fastforce)

lemma strip_first_ws_blank: "strip_first ws_encodings (CHR '' '' # s) = Some s"
  by (simp add: ws_encodings_def strip_prefix_def)

lemma split_words_graph:
  "list_all is_graph v \<Longrightarrow> split_words w (v @ s) = split_words (w @ v) s"
proof (induction v arbitrary: w)
  case (Cons c v)
  then show ?case by (subst split_words.simps) (simp add: strip_first_ws_graph)
qed simp

lemma split_words_Nil: "split_words w [] = (if w = [] then [] else [w])"
  by (subst split_words.simps) (simp add: strip_first_ws_Nil)

lemma split_words_blank: "split_words w (CHR '' '' # s) = (if w = [] then [] else [w]) @ split_words [] s"
  by (subst split_words.simps) (simp add: strip_first_ws_blank)

lemma split_whitespace_join:
  "list_all (\<lambda>v. v \<noteq> [] \<and> list_all is_graph v) ws \<Longrightarrow> split_whitespace (join '' '' ws) = ws"
proof (induction "'' ''" ws rule: join.induct)
  case 1
  then show ?case by (simp add: split_whitespace_def split_words_Nil)
next
  case (2 v)
  then show ?case
    using split_words_graph [of v "[]" "[]"] by (simp add: split_whitespace_def split_words_Nil)
next
  case (3 v u us)
  then show ?case
    using split_words_graph [of v "[]" "'' '' @ join '' '' (u # us)"]
    by (simp add: split_whitespace_def split_words_blank)
qed

section \<open>Numbers\<close>

fun show_nat :: "nat \<Rightarrow> string" where
  "show_nat n = (if n < 10 then [char_of (48 + n)] else show_nat (n div 10) @ [char_of (48 + n mod 10)])"

declare show_nat.simps [simp del]

definition show_int :: "int \<Rightarrow> string" where
  "show_int i = (if i < 0 then CHR ''-'' # show_nat (nat (- i)) else show_nat (nat i))"

text \<open>\<open>parse::<usize>\<close> on a 64-bit machine and \<open>parse::<i32>\<close>.\<close>

definition parse_usize :: "string \<Rightarrow> nat option" where
  "parse_usize s = map_option nat (parse_unsigned 18446744073709551616 s)"

definition parse_i32 :: "string \<Rightarrow> int option" where
  "parse_i32 s = (case s of
     [] \<Rightarrow> None
   | c # ds \<Rightarrow>
       if c = CHR ''-'' then
         (if ds \<noteq> [] \<and> list_all is_digit ds \<and> digits_value 0 ds \<le> 2147483648
          then Some (- digits_value 0 ds) else None)
       else parse_unsigned 2147483648 s)"

lemma digits_value_snoc: "digits_value n (ds @ [c]) = 10 * digits_value n ds + int (code c - 48)"
  by (induction n ds rule: digits_value.induct) simp_all

lemma show_digit: "d < 10 \<Longrightarrow> is_digit (char_of (48 + d)) \<and> code (char_of (48 + d)) = 48 + d"
  by (simp add: is_digit_def code_char_of)

lemma show_nat_digits:
  "show_nat n \<noteq> [] \<and> list_all is_digit (show_nat n) \<and> digits_value 0 (show_nat n) = int n"
proof (induction n rule: show_nat.induct)
  case (1 n)
  show ?case
  proof (cases "n < 10")
    case True
    then show ?thesis using show_digit [of n] by (subst (1 2 3) show_nat.simps) simp
  next
    case False
    have "10 * int (n div 10) + int (n mod 10) = int (10 * (n div 10) + n mod 10)"
      by (simp only: of_nat_add of_nat_mult of_nat_numeral)
    then show ?thesis using False 1 show_digit [of "n mod 10"]
      by (subst (1 2 3) show_nat.simps) (simp add: digits_value_snoc)
  qed
qed

lemma is_digit_graph: "is_digit c \<Longrightarrow> is_graph c"
  by (auto simp: is_digit_def is_graph_def)

lemma is_digit_neq: "is_digit c \<Longrightarrow> c \<noteq> CHR ''+'' \<and> c \<noteq> CHR ''-''"
  by (auto simp: is_digit_def)

lemma show_nat_Cons:
  obtains c ds where "show_nat n = c # ds" "is_digit c"
  using show_nat_digits [of n] by (cases "show_nat n") auto

lemma parse_unsigned_show: "int n < limit \<Longrightarrow> parse_unsigned limit (show_nat n) = Some (int n)"
  using show_nat_digits [of n] is_digit_neq
  by (cases "show_nat n") (auto simp: parse_unsigned_def Let_def)

lemma parse_usize_show: "n < 18446744073709551616 \<Longrightarrow> parse_usize (show_nat n) = Some n"
  by (simp add: parse_usize_def parse_unsigned_show)

lemma parse_u8_show: "n < 256 \<Longrightarrow> parse_u8 (show_nat n) = Some n"
  by (simp add: parse_u8_def parse_unsigned_show)

lemma parse_i32_show:
  assumes "- 2147483648 \<le> i" "i < 2147483648"
  shows "parse_i32 (show_int i) = Some i"
proof (cases "i < 0")
  case True
  then show ?thesis
    using assms show_nat_digits [of "nat (- i)"] by (simp add: parse_i32_def show_int_def)
next
  case False
  obtain c ds where "show_nat (nat i) = c # ds" "is_digit c" by (rule show_nat_Cons)
  then show ?thesis
    using False assms is_digit_neq [of c] parse_unsigned_show [of "nat i" 2147483648]
    by (simp add: parse_i32_def show_int_def)
qed

lemma show_int_graph: "show_int i \<noteq> [] \<and> list_all is_graph (show_int i)"
proof -
  have "list_all is_graph (show_nat n)" for n
    using show_nat_digits [of n] by (auto simp: list_all_iff is_digit_graph)
  moreover have "show_nat n \<noteq> []" for n using show_nat_digits [of n] by simp
  ultimately show ?thesis by (simp add: show_int_def is_graph_def)
qed

section \<open>Characters\<close>

text \<open>
  The first character of a string and the rest, by the lead byte of its UTF-8 encoding:
  what \<open>Chars::next\<close> and \<open>Chars::as_str\<close> give.
\<close>

definition utf8_width :: "char \<Rightarrow> nat" where
  "utf8_width c = (if code c < 0x80 then 1 else if code c < 0xE0 then 2 else if code c < 0xF0 then 3 else 4)"

definition next_char :: "string \<Rightarrow> (string \<times> string) option" where
  "next_char s = (case s of [] \<Rightarrow> None | c # _ \<Rightarrow> Some (take (utf8_width c) s, drop (utf8_width c) s))"

end
