(* ===== verification/Device_Status.thy ===== *)
theory Device_Status
  imports Device_Sync Rust_Text
begin

text \<open>
  The state of the connected keyboards and what the program concludes from it:
  enumeration, layout options and macros, \<open>device_status\<close>, the classification of firmware
  as current, stale or unknown, and the key of the update notification, all of
  \<open>packages/silakka54/sync/src/main.rs\<close>.
\<close>

section \<open>Devices\<close>

definition VID :: u16 where "VID = 0xfeed"
definition PID :: u16 where "PID = 0x1212"
definition RAW_USAGE_PAGE :: u16 where "RAW_USAGE_PAGE = 0xff60"
definition RAW_USAGE :: u16 where "RAW_USAGE = 0x0061"

text \<open>What \<open>hidapi\<close> lists about a device.\<close>

record hid_info =
  vendor_id :: u16
  product_id :: u16
  usage_page :: u16
  usage :: u16
  product_string :: "string option"
  interface_number :: int
  hid_path :: string

record device_descriptor =
  d_path :: string
  d_name :: string

definition is_raw_interface :: "hid_info \<Rightarrow> bool" where
  "is_raw_interface d \<longleftrightarrow> usage_page d = RAW_USAGE_PAGE \<and> usage d = RAW_USAGE"

definition is_silakka54 :: "hid_info \<Rightarrow> bool" where
  "is_silakka54 d \<longleftrightarrow> vendor_id d = VID \<and> product_id d = PID"

definition descriptor_of :: "hid_info \<Rightarrow> device_descriptor" where
  "descriptor_of d =
    (let product = (case product_string d of Some p \<Rightarrow> p | None \<Rightarrow> ''Silakka54'')
     in \<lparr>d_path = hid_path d,
         d_name = product @ '' (interface '' @ show_int (interface_number d) @ '', '' @ hid_path d @ '')''\<rparr>)"

definition raw_hid_devices :: "hid_info list \<Rightarrow> device_descriptor list" where
  "raw_hid_devices listed =
    (let matching = filter is_silakka54 listed;
         has_usage_match = list_ex is_raw_interface matching
     in sort_key d_path
          (map descriptor_of (filter (\<lambda>d. \<not> has_usage_match \<or> is_raw_interface d) matching)))"

section \<open>Layout options and macros\<close>

datatype via_drift = LayoutDiffers u32 u32 | MacroBufferDiffers

definition via_state_drift_for_device ::
  "'s transport \<Rightarrow> via_configuration \<Rightarrow> ('s, device_error, via_drift list) io" where
  "via_state_drift_for_device T desired =
     io_bind (get_layout_options T) (\<lambda>layout.
     let drift = (if layout \<noteq> layout_options desired
                  then [LayoutDiffers layout (layout_options desired)] else []) in
     io_bind (macro_capacity T) (\<lambda>capacity.
     io_bind (macro_buffer_size T) (\<lambda>buffer_size.
     io_bind (io_lift (map_err MacroError (desired_macro_buffer (macros desired) capacity buffer_size))) (\<lambda>expected.
     io_bind (get_macro_buffer T buffer_size) (\<lambda>buffer.
     io_return (if buffer \<noteq> expected then drift @ [MacroBufferDiffers] else drift))))))"

datatype via_change = LayoutOptionsUpdated | MacrosUpdated

definition sync_layout_options :: "'s transport \<Rightarrow> u32 \<Rightarrow> ('s, device_error, via_change list) io" where
  "sync_layout_options T desired =
     io_bind (get_layout_options T) (\<lambda>layout.
     if layout \<noteq> desired then
       io_bind (set_layout_options T desired) (\<lambda>_.
       io_bind (get_layout_options T) (\<lambda>again.
       if again \<noteq> desired then io_fail LayoutNotVerified else io_return [LayoutOptionsUpdated]))
     else io_return [])"

definition sync_macro_buffer :: "'s transport \<Rightarrow> string list \<Rightarrow> ('s, device_error, via_change list) io" where
  "sync_macro_buffer T desired =
     io_bind (macro_capacity T) (\<lambda>capacity.
     io_bind (macro_buffer_size T) (\<lambda>buffer_size.
     io_bind (io_lift (map_err MacroError (desired_macro_buffer desired capacity buffer_size))) (\<lambda>expected.
     io_bind (get_macro_buffer T buffer_size) (\<lambda>buffer.
     if buffer \<noteq> expected then
       io_bind (set_macro_buffer T expected) (\<lambda>_.
       io_bind (get_macro_buffer T buffer_size) (\<lambda>again.
       if again \<noteq> expected then io_fail MacrosNotVerified else io_return [MacrosUpdated]))
     else io_return []))))"

definition sync_via_state_for_device ::
  "'s transport \<Rightarrow> via_configuration \<Rightarrow> ('s, device_error, via_change list) io" where
  "sync_via_state_for_device T desired =
     io_bind (sync_layout_options T (layout_options desired)) (\<lambda>changed.
     io_bind (sync_macro_buffer T (macros desired)) (\<lambda>more.
     io_return (changed @ more)))"

section \<open>Status of a device\<close>

datatype firmware_probe =
    NotChecked
  | Version2 firmware_status
  | LegacyVersion1 legacy_firmware_status
  | Unavailable device_error device_error

record device_status =
  status_name :: string
  status_via_protocol :: "u16 option"
  status_via_error :: "device_error option"
  status_firmware :: firmware_probe
  status_keymap_drift :: "nat option"
  status_via_drift :: "via_drift list option"
  status_error :: "string option"

text \<open>The hashes the build puts into the program.\<close>

record build_hashes =
  EXPECTED_ABI_HASH :: string
  EXPECTED_RUNTIME_HASH :: string
  EXPECTED_KEYMAP_HASH :: string

definition abi_matches :: "build_hashes \<Rightarrow> firmware_status \<Rightarrow> bool" where
  "abi_matches B firmware \<longleftrightarrow> abi_hash_prefix firmware = hash_prefix (EXPECTED_ABI_HASH B)"

definition runtime_matches :: "build_hashes \<Rightarrow> firmware_status \<Rightarrow> bool" where
  "runtime_matches B firmware \<longleftrightarrow> runtime_hash_prefix firmware = hash_prefix (EXPECTED_RUNTIME_HASH B)"

fun ok_option :: "('e, 'a) res \<Rightarrow> 'a option" where
  "ok_option (Inr x) = Some x"
| "ok_option (Inl _) = None"

definition probe_firmware :: "'s transport \<Rightarrow> ('s, 'e, firmware_probe) io" where
  "probe_firmware T =
     io_bind (io_try (firmware_status T)) (\<lambda>current.
     case current of
       Inr firmware \<Rightarrow> io_return (Version2 firmware)
     | Inl current_error \<Rightarrow>
         io_bind (io_try (legacy_firmware_status T)) (\<lambda>legacy.
         case legacy of
           Inr firmware \<Rightarrow> io_return (LegacyVersion1 firmware)
         | Inl legacy_error \<Rightarrow> io_return (Unavailable current_error legacy_error)))"

definition device_status ::
  "build_hashes \<Rightarrow> (string \<Rightarrow> ('s, string, 's transport) io) \<Rightarrow> device_descriptor \<Rightarrow>
   key_entry list \<Rightarrow> via_configuration \<Rightarrow> ('s, 'e, device_status) io" where
  "device_status B open_hid descriptor entries desired =
    (let status = \<lparr>status_name = d_name descriptor, status_via_protocol = None, status_via_error = None,
                   status_firmware = NotChecked, status_keymap_drift = None, status_via_drift = None,
                   status_error = None\<rparr> in
     io_bind (io_try (open_hid (d_path descriptor))) (\<lambda>opened.
     case opened of
       Inl error \<Rightarrow> io_return (status\<lparr>status_error := Some error\<rparr>)
     | Inr device \<Rightarrow>
         io_bind (io_try (via_protocol device)) (\<lambda>protocol.
         case protocol of
           Inl error \<Rightarrow> io_return (status\<lparr>status_via_error := Some error\<rparr>)
         | Inr version \<Rightarrow>
             io_bind (probe_firmware device) (\<lambda>firmware.
             let status = status\<lparr>status_via_protocol := Some version, status_firmware := firmware\<rparr> in
             case firmware of
               Version2 details \<Rightarrow>
                 (if abi_matches B details then
                    io_bind (io_try (keymap_drift_for_device device entries)) (\<lambda>keymap.
                    io_bind (io_try (via_state_drift_for_device device desired)) (\<lambda>via_state.
                    io_return (status\<lparr>status_keymap_drift := ok_option keymap,
                                     status_via_drift := ok_option via_state\<rparr>)))
                  else io_return status)
             | _ \<Rightarrow> io_return status))))"

section \<open>Classification\<close>

definition firmware_is_compatible :: "build_hashes \<Rightarrow> device_status \<Rightarrow> bool" where
  "firmware_is_compatible B status =
     (case status_firmware status of Version2 firmware \<Rightarrow> abi_matches B firmware | _ \<Rightarrow> False)"

definition firmware_is_current :: "build_hashes \<Rightarrow> device_status \<Rightarrow> bool" where
  "firmware_is_current B status =
     (case status_firmware status of
        Version2 firmware \<Rightarrow> abi_matches B firmware \<and> runtime_matches B firmware
      | _ \<Rightarrow> False)"

definition firmware_is_stale :: "build_hashes \<Rightarrow> device_status \<Rightarrow> bool" where
  "firmware_is_stale B status \<longleftrightarrow>
     (case status_firmware status of LegacyVersion1 _ \<Rightarrow> True | _ \<Rightarrow> False) \<or>
     (case status_firmware status of Version2 _ \<Rightarrow> True | _ \<Rightarrow> False) \<and> \<not> firmware_is_current B status"

definition firmware_is_unknown :: "device_status \<Rightarrow> bool" where
  "firmware_is_unknown status \<longleftrightarrow>
     status_error status \<noteq> None \<or> status_via_error status \<noteq> None \<or>
     (case status_firmware status of NotChecked \<Rightarrow> True | Unavailable _ _ \<Rightarrow> True | _ \<Rightarrow> False)"

definition live_state_is_stale :: "build_hashes \<Rightarrow> device_status \<Rightarrow> bool" where
  "live_state_is_stale B status \<longleftrightarrow>
     firmware_is_compatible B status \<and>
     (0 < (case status_keymap_drift status of Some n \<Rightarrow> n | None \<Rightarrow> 0) \<or>
      (case status_via_drift status of Some drift \<Rightarrow> drift \<noteq> [] | None \<Rightarrow> False))"

text \<open>The text a stale firmware contributes; \<open>None\<close> stands for \<open>unreachable!\<close>.\<close>

definition stale_key :: "device_status \<Rightarrow> string option" where
  "stale_key status =
     (case status_firmware status of
        Version2 firmware \<Rightarrow>
          Some (''v2:'' @ abi_hash_prefix firmware @ '':'' @ runtime_hash_prefix firmware)
      | LegacyVersion1 firmware \<Rightarrow> Some (''v1:'' @ legacy_abi_hash_prefix firmware)
      | NotChecked \<Rightarrow> None
      | Unavailable _ _ \<Rightarrow> None)"

datatype panic = Panic

definition newline :: string where "newline = [CHR 0x0A]"

text \<open>A \<open>BTreeSet\<close> of strings is iterated in increasing order.\<close>

definition firmware_notification_key ::
  "build_hashes \<Rightarrow> device_status list \<Rightarrow> (panic, string option) res" where
  "firmware_notification_key B statuses =
     bind_res (map_res (\<lambda>status. ok_or Panic (stale_key status)) (filter (firmware_is_stale B) statuses))
       (\<lambda>keys. let stale = sort (remdups keys) in
        Inr (if stale = [] then None
             else Some (''expected:'' @ hash_prefix (EXPECTED_ABI_HASH B) @ '':'' @
                    hash_prefix (EXPECTED_RUNTIME_HASH B) @ newline @ join newline stale @ newline)))"

section \<open>Retries\<close>

text \<open>
  \<open>collect_statuses_with_retry\<close>: collect, and while some firmware is unknown wait and
  collect again, at most \<open>attempts\<close> times in all.
\<close>

fun retry_unknown ::
  "('w, 'e, device_status list) io \<Rightarrow> ('w, 'e, unit) io \<Rightarrow> nat \<Rightarrow> device_status list \<Rightarrow>
    ('w, 'e, device_status list) io" where
  "retry_unknown collect wait 0 statuses = io_return statuses"
| "retry_unknown collect wait (Suc n) statuses =
    (if \<not> list_ex firmware_is_unknown statuses then io_return statuses
     else io_bind wait (\<lambda>_. io_bind collect (retry_unknown collect wait n)))"

definition collect_statuses_with_retry ::
  "('w, 'e, device_status list) io \<Rightarrow> nat \<Rightarrow> ('w, 'e, unit) io \<Rightarrow> ('w, 'e, device_status list) io" where
  "collect_statuses_with_retry collect attempts wait =
     io_bind collect (retry_unknown collect wait (max attempts 1 - 1))"

section \<open>Properties\<close>

text \<open>
  The enumerated devices are the listed keyboards in the order of their paths, and when any
  of them shows the raw HID usage, only those that do.
\<close>
theorem raw_hid_devices_selection:
  "sorted (map d_path (raw_hid_devices listed)) \<and>
   set (raw_hid_devices listed) =
     descriptor_of ` {d. d \<in> set listed \<and> is_silakka54 d \<and>
       (if list_ex (\<lambda>e. is_silakka54 e \<and> is_raw_interface e) listed then is_raw_interface d else True)}"
  by (auto simp: raw_hid_devices_def Let_def list_ex_iff)

text \<open>
  The branch marked unreachable never is: the notification key is always computed, and
  there is one exactly when some connected firmware is stale.
\<close>
theorem notification_key_total:
  "\<exists>k. firmware_notification_key B statuses = Inr k \<and>
     (k = None \<longleftrightarrow> \<not> list_ex (firmware_is_stale B) statuses)"
proof -
  have "\<exists>y. ok_or Panic (stale_key s) = Inr y" if "firmware_is_stale B s" for s
    using that by (auto simp: firmware_is_stale_def stale_key_def split: firmware_probe.splits)
  then obtain keys where keys: "map_res (\<lambda>s. ok_or Panic (stale_key s)) (filter (firmware_is_stale B) statuses) = Inr keys"
    using map_res_ex [of "\<lambda>s. ok_or Panic (stale_key s)" "filter (firmware_is_stale B) statuses"] by auto
  have "sort (remdups keys) = [] \<longleftrightarrow> keys = []"
    by (metis remdups_eq_nil_iff set_empty set_sort)
  moreover have "keys = [] \<longleftrightarrow> filter (firmware_is_stale B) statuses = []"
    using map_res_length [OF keys] by (metis length_0_conv)
  ultimately show ?thesis
    by (auto simp: firmware_notification_key_def keys Let_def filter_empty_conv list_ex_iff)
qed

lemma map_res_key_set:
  assumes "map_res f xs = Inr ys" "map_res f xs' = Inr ys'" "set xs = set xs'"
  shows "set ys = set ys'"
  using map_res_set [OF assms(1)] map_res_set [OF assms(2)] assms(3) by blast

text \<open>
  The key depends only on which stale firmwares are connected, not on their order or on
  how often one appears, so a known mismatch is not announced again.
\<close>
theorem notification_key_stable:
  assumes "set (filter (firmware_is_stale B) ss) = set (filter (firmware_is_stale B) ts)"
  shows "firmware_notification_key B ss = firmware_notification_key B ts"
proof -
  let ?f = "\<lambda>s. ok_or Panic (stale_key s)"
  have ex: "\<exists>keys. map_res ?f (filter (firmware_is_stale B) us) = Inr keys" for us
    unfolding map_res_ex
    by (auto simp: firmware_is_stale_def stale_key_def split: firmware_probe.splits)
  obtain ks where ks: "map_res ?f (filter (firmware_is_stale B) ss) = Inr ks" using ex by blast
  obtain kt where kt: "map_res ?f (filter (firmware_is_stale B) ts) = Inr kt" using ex by blast
  have "sort (remdups ks) = sort (remdups kt)"
    using map_res_key_set [OF ks kt assms]
    by (metis sorted_list_of_set_sort_remdups)
  then show ?thesis by (simp add: firmware_notification_key_def ks kt)
qed

lemma yields_probe:
  "(x = NotChecked \<Longrightarrow> yields P a) \<Longrightarrow> (\<And>f. x = Version2 f \<Longrightarrow> yields P (b f)) \<Longrightarrow>
   (\<And>f. x = LegacyVersion1 f \<Longrightarrow> yields P (c f)) \<Longrightarrow> (\<And>e e'. x = Unavailable e e' \<Longrightarrow> yields P (d e e')) \<Longrightarrow>
   yields P (case x of NotChecked \<Rightarrow> a | Version2 f \<Rightarrow> b f | LegacyVersion1 f \<Rightarrow> c f | Unavailable e e' \<Rightarrow> d e e')"
  by (simp split: firmware_probe.splits)

lemma probe_firmware_ok: "yields is_ok (probe_firmware T)"
  unfolding probe_firmware_def by (intro io_yields) simp_all

definition well_classified :: "build_hashes \<Rightarrow> device_status \<Rightarrow> bool" where
  "well_classified B st \<longleftrightarrow>
     (status_error st \<noteq> None \<or> status_via_error st \<noteq> None \<longrightarrow> status_firmware st = NotChecked) \<and>
     (firmware_is_compatible B st \<or> status_keymap_drift st = None \<and> status_via_drift st = None)"

lemma device_status_yields:
  "yields (\<lambda>r. \<exists>st. r = Inr st \<and> status_name st = d_name d \<and> well_classified B st)
     (device_status B open_hid d entries desired)"
  unfolding device_status_def Let_def
  by (intro io_yields yields_bind [OF probe_firmware_ok] yields_probe)
    (simp_all add: well_classified_def firmware_is_compatible_def)

text \<open>
  Probing a device never fails. Its status is exactly one of current, stale and unknown,
  and a drift is computed only for compatible firmware.
\<close>
theorem device_status_classified:
  assumes "device_status B open_hid d entries desired s = Some (r, s')"
  shows "\<exists>st. r = Inr st \<and> status_name st = d_name d \<and>
    (firmware_is_current B st \<and> \<not> firmware_is_stale B st \<and> \<not> firmware_is_unknown st \<or>
     \<not> firmware_is_current B st \<and> firmware_is_stale B st \<and> \<not> firmware_is_unknown st \<or>
     \<not> firmware_is_current B st \<and> \<not> firmware_is_stale B st \<and> firmware_is_unknown st) \<and>
    (firmware_is_compatible B st \<or> status_keymap_drift st = None \<and> status_via_drift st = None)"
proof -
  obtain st where st: "r = Inr st" "status_name st = d_name d" "well_classified B st"
    using yieldsD [OF device_status_yields assms] by blast
  show ?thesis
    by (rule exI [of _ st])
      (use st in \<open>auto simp: well_classified_def firmware_is_current_def firmware_is_stale_def firmware_is_unknown_def
          split: firmware_probe.splits\<close>)
qed

section \<open>Retries, scripted\<close>

text \<open>A world that answers each collection with the next prepared result and counts the waits.\<close>

definition scripted_collect ::
  "((string, device_status list) res list \<times> nat, string, device_status list) io" where
  "scripted_collect = (\<lambda>(results, waits). Some (hd results, (tl results, waits)))"

definition scripted_wait :: "((string, device_status list) res list \<times> nat, string, unit) io" where
  "scripted_wait = (\<lambda>(results, waits). Some (Inr (), (results, waits + 1)))"

fun some_unknown :: "(string, device_status list) res \<Rightarrow> bool" where
  "some_unknown (Inr statuses) = list_ex firmware_is_unknown statuses"
| "some_unknown (Inl _) = False"

fun first_settled :: "nat \<Rightarrow> (string, device_status list) res list \<Rightarrow> nat" where
  "first_settled 0 results = 0"
| "first_settled (Suc n) results = (if some_unknown (hd results) then Suc (first_settled n (tl results)) else 0)"

lemma retry_unknown_scripted:
  "n \<le> length results \<Longrightarrow>
   retry_unknown scripted_collect scripted_wait n statuses (results, w) =
     (let k = first_settled n (Inr statuses # results) in
      Some ((Inr statuses # results) ! k, (drop k results, w + k)))"
proof (induction n arbitrary: statuses results w)
  case 0
  then show ?case by (simp add: io_return_def)
next
  case (Suc n)
  then obtain r rs where results: "results = r # rs" by (cases results) auto
  show ?case
  proof (cases "list_ex firmware_is_unknown statuses")
    case False
    then show ?thesis by (simp add: io_return_def)
  next
    case True
    have step: "retry_unknown scripted_collect scripted_wait (Suc n) statuses (results, w) =
        (case r of Inl e \<Rightarrow> Some (Inl e, (rs, w + 1))
         | Inr st \<Rightarrow> retry_unknown scripted_collect scripted_wait n st (rs, w + 1))"
      using True by (auto simp: io_bind_def scripted_wait_def scripted_collect_def results split: sum.splits)
    show ?thesis
    proof (cases r)
      case (Inl e)
      have "first_settled n (Inl e # rs) = 0" by (cases n) auto
      then show ?thesis using True by (simp add: step [unfolded results Inl] Inl results del: retry_unknown.simps)
    next
      case (Inr st)
      then show ?thesis using True Suc by (simp add: step [unfolded results Inr] results Let_def del: retry_unknown.simps)
    qed
  qed
qed

text \<open>
  With \<open>attempts\<close> prepared results, the retry loop returns the first that is an error or
  leaves no firmware unknown, and the last one when there is none, waiting once before
  every further collection.
\<close>
theorem retry_first_settled:
  assumes "max attempts 1 \<le> length results"
  shows "collect_statuses_with_retry scripted_collect attempts scripted_wait (results, 0) =
    (let k = first_settled (max attempts 1 - 1) results in Some (results ! k, (drop (k + 1) results, k)))"
proof -
  obtain r rs where results: "results = r # rs" using assms by (cases results) auto
  show ?thesis
  proof (cases r)
    case (Inl e)
    have "first_settled n (Inl e # rs) = 0" for n by (cases n) auto
    then show ?thesis
      by (simp add: collect_statuses_with_retry_def io_bind_def scripted_collect_def results Inl)
  next
    case (Inr st)
    then show ?thesis
      using retry_unknown_scripted [of "max attempts 1 - 1" rs st 0] assms
      by (simp add: collect_statuses_with_retry_def io_bind_def scripted_collect_def [of ] results Let_def)
  qed
qed

definition sample_status :: "string \<Rightarrow> firmware_probe \<Rightarrow> device_status" where
  "sample_status name firmware =
     \<lparr>status_name = name, status_via_protocol = Some 12, status_via_error = None, status_firmware = firmware,
      status_keymap_drift = None, status_via_drift = None, status_error = None\<rparr>"

definition sample_hashes :: build_hashes where
  "sample_hashes = \<lparr>EXPECTED_ABI_HASH = ''ABABABABABABABABAB'', EXPECTED_RUNTIME_HASH = ''01'', EXPECTED_KEYMAP_HASH = ''02''\<rparr>"

definition sample_legacy :: legacy_firmware_status where
  "sample_legacy = \<lparr>legacy_abi_hash_prefix = ''ab'', legacy_keymap_hash_prefix = ''cd'', legacy_layer_count = 4,
     legacy_rows = 10, legacy_cols = 6\<rparr>"

theorem notification_key_stable_witness:
  "firmware_notification_key sample_hashes [sample_status ''l'' (LegacyVersion1 sample_legacy), sample_status ''u'' NotChecked] =
   firmware_notification_key sample_hashes [sample_status ''l'' (LegacyVersion1 sample_legacy), sample_status ''l'' (LegacyVersion1 sample_legacy)]"
  by (rule notification_key_stable) (simp add: firmware_is_stale_def sample_status_def)

definition no_device :: "string \<Rightarrow> (unit, string, unit transport) io" where
  "no_device path s = Some (Inl ''busy'', s)"

definition sample_via :: via_configuration where
  "sample_via = \<lparr>layers = [], layout_options = 0, macros = []\<rparr>"

theorem device_status_classified_witness:
  "\<exists>st. device_status sample_hashes no_device \<lparr>d_path = ''p'', d_name = ''n''\<rparr> [] sample_via () =
      Some (Inr st :: (unit, device_status) res, ()) \<and> status_name st = ''n'' \<and> firmware_is_unknown st"
proof -
  let ?run = "device_status sample_hashes no_device \<lparr>d_path = ''p'', d_name = ''n''\<rparr> [] sample_via () ::
      ((unit, device_status) res \<times> unit) option"
  obtain r where run: "?run = Some (r, ())" "\<not> (case r of Inr st \<Rightarrow> firmware_is_current sample_hashes st | _ \<Rightarrow> False)"
      "\<not> (case r of Inr st \<Rightarrow> firmware_is_stale sample_hashes st | _ \<Rightarrow> False)"
    by (simp add: device_status_def Let_def io_bind_def io_try_def no_device_def io_return_def firmware_is_current_def
        firmware_is_stale_def)
  from device_status_classified [OF run(1)] run show ?thesis by auto
qed

theorem retry_first_settled_witness:
  "collect_statuses_with_retry scripted_collect 3 scripted_wait
     ([Inr [sample_status ''a'' NotChecked], Inr [sample_status ''a'' (LegacyVersion1 sample_legacy)], Inl ''late''], 0) =
   Some (Inr [sample_status ''a'' (LegacyVersion1 sample_legacy)], ([Inl ''late''], 1))"
  using retry_first_settled [of 3 "[Inr [sample_status ''a'' NotChecked],
      Inr [sample_status ''a'' (LegacyVersion1 sample_legacy)], Inl ''late'']"]
  by (simp add: numeral_2_eq_2 firmware_is_unknown_def sample_status_def)

end
