(* ===== verification/Keymap_Table.thy ===== *)
theory Keymap_Table
  imports Layer_Config Rust_Text
begin

text \<open>
  The packaged key table, a tab-separated file: \<open>read_keymap_entries\<close> of
  \<open>packages/silakka54/sync/src/main.rs\<close>, from the text of the file on.
\<close>

datatype table_error =
    TableFieldCount nat
  | TableInvalidU8 nat
  | TableInvalidKeycode nat
  | TableDuplicate nat

definition parse_table_u8 :: "string \<Rightarrow> nat \<Rightarrow> (table_error, u8) res" where
  "parse_table_u8 value line_number =
     ok_or (TableInvalidU8 line_number) (map_option of_nat (parse_u8 value))"

definition parse_table_line :: "string list \<Rightarrow> nat \<Rightarrow> (table_error, key_entry) res" where
  "parse_table_line cells line_number =
     bind_res (parse_table_u8 (cells ! 0) line_number) (\<lambda>layer.
     bind_res (parse_table_u8 (cells ! 1) line_number) (\<lambda>row.
     bind_res (parse_table_u8 (cells ! 2) line_number) (\<lambda>col.
     bind_res (ok_or (TableInvalidKeycode line_number) (map_option of_int (parse_u16 (cells ! 3)))) (\<lambda>keycode.
     Inr \<lparr>entry_layer = layer, entry_row = row, entry_col = col, entry_keycode = keycode,
          entry_label = cells ! 5, entry_qmk = cells ! 6\<rparr>))))"

fun parse_table_lines ::
  "nat \<Rightarrow> (u8 \<times> u8 \<times> u8) set \<Rightarrow> string list \<Rightarrow> (table_error, key_entry list) res" where
  "parse_table_lines n seen [] = Inr []"
| "parse_table_lines n seen (line # rest) =
    (if n = 0 \<or> trim line = [] then parse_table_lines (n + 1) seen rest
     else
       let cells = split_on (CHR 0x09) line in
       if length cells \<noteq> 7 then Inl (TableFieldCount (n + 1))
       else
         bind_res (parse_table_line cells (n + 1)) (\<lambda>entry.
         let key = (entry_layer entry, entry_row entry, entry_col entry) in
         if key \<in> seen then Inl (TableDuplicate (n + 1))
         else bind_res (parse_table_lines (n + 1) (insert key seen) rest) (\<lambda>entries.
              Inr (entry # entries))))"

definition read_keymap_entries :: "string \<Rightarrow> (table_error, key_entry list) res" where
  "read_keymap_entries contents = parse_table_lines 0 {} (str_lines contents)"

definition entry_key :: "key_entry \<Rightarrow> u8 \<times> u8 \<times> u8" where
  "entry_key e = (entry_layer e, entry_row e, entry_col e)"

lemma parse_table_lines_distinct:
  "parse_table_lines n seen ls = Inr es \<Longrightarrow> distinct (map entry_key es) \<and> entry_key ` set es \<inter> seen = {}"
proof (induction n seen ls arbitrary: es rule: parse_table_lines.induct)
  case (1 n seen)
  then show ?case by simp
next
  case (2 n seen line rest)
  show ?case
  proof (cases "n = 0 \<or> trim line = []")
    case True
    then have "parse_table_lines (n + 1) seen rest = Inr es" using "2.prems" by auto
    then show ?thesis using "2.IH"(1) [OF True] by blast
  next
    case False
    then obtain e es' where e: "es = e # es'" "entry_key e \<notin> seen"
        "parse_table_lines (n + 1) (insert (entry_key e) seen) rest = Inr es'"
        "parse_table_line (split_on (CHR 0x09) line) (n + 1) = Inr e" "length (split_on (CHR 0x09) line) = 7"
      using "2.prems" by (auto simp: Let_def entry_key_def split: if_splits)
    have "distinct (map entry_key es') \<and> entry_key ` set es' \<inter> insert (entry_key e) seen = {}"
      using "2.IH"(2) [OF False refl _ e(4) refl] e(2,3,5) by (simp add: entry_key_def [abs_def])
    then show ?thesis using e(1,2) by auto
  qed
qed

lemma read_keymap_distinct: "read_keymap_entries contents = Inr es \<Longrightarrow> distinct (map entry_key es)"
  using parse_table_lines_distinct by (auto simp: read_keymap_entries_def)

lemma base_positions_distinct:
  assumes "distinct (map entry_key es)"
  shows "distinct (base_positions es)"
proof -
  have "distinct (map entry_key (filter (\<lambda>e. entry_layer e = 0) es))"
    using assms distinct_map_filter by blast
  moreover have "inj_on (\<lambda>e. (entry_row e, entry_col e)) (set (filter (\<lambda>e. entry_layer e = 0) es)) \<longleftrightarrow>
      inj_on entry_key (set (filter (\<lambda>e. entry_layer e = 0) es))"
    by (auto simp: inj_on_def entry_key_def)
  ultimately show ?thesis by (simp add: base_positions_def distinct_map)
qed

text \<open>
  The key entries the program expands from a configuration and the packaged table never
  address a key twice: the table's parser refuses repeated positions.
\<close>
theorem expanded_entries_distinct:
  assumes "read_keymap_entries contents = Inr packaged"
    and "configuration_entries config catalog packaged = Inr es"
  shows "distinct (map entry_key es)"
proof -
  have "distinct (base_positions packaged)"
    by (rule base_positions_distinct [OF read_keymap_distinct [OF assms(1)]])
  from configuration_entries_positions_distinct [OF assms(2) this]
  show ?thesis by (simp add: entry_key_def [abs_def])
qed

lemma str_lines_terminated:
  assumes "\<And>l. l \<in> set ls \<Longrightarrow> CHR 0x0A \<notin> set l"
  shows "str_lines (concat (map (\<lambda>l. l @ [CHR 0x0A]) ls)) = map strip_cr ls"
proof -
  have "split_on (CHR 0x0A) (concat (map (\<lambda>l. l @ [CHR 0x0A]) ls)) = ls @ [[]]"
    using assms by (induction ls) (simp_all add: split_on_append)
  then show ?thesis by (simp add: str_lines_def)
qed

text \<open>A table with the 54 positions of a six-column matrix.\<close>

definition digits2 :: "nat \<Rightarrow> string" where
  "digits2 n = [char_of (48 + n div 10), char_of (48 + n mod 10)]"

definition sample_line :: "nat \<Rightarrow> string" where
  "sample_line i = ''0'' @ [CHR 0x09] @ digits2 (i div 6) @ [CHR 0x09] @ digits2 (i mod 6) @ [CHR 0x09] @
     ''4'' @ [CHR 0x09] @ ''0x0004'' @ [CHR 0x09] @ ''A'' @ [CHR 0x09] @ ''KC_A''"

definition sample_row :: "nat \<Rightarrow> key_entry" where
  "sample_row i = \<lparr>entry_layer = 0, entry_row = of_nat (i div 6), entry_col = of_nat (i mod 6),
     entry_keycode = 4, entry_label = ''A'', entry_qmk = ''KC_A''\<rparr>"

definition sample_table :: string where
  "sample_table = concat (map (\<lambda>l. l @ [CHR 0x0A]) (''layer'' # map sample_line [0..<54]))"

lemma digits2_facts:
  "list_all (\<lambda>k. CHR 0x0A \<notin> set (digits2 k) \<and> CHR 0x09 \<notin> set (digits2 k) \<and> parse_u8 (digits2 k) = Some k) [0..<10]"
  "parse_u8 ''0'' = Some 0" "parse_u16 ''4'' = Some 4"
  by code_simp+

lemma digits2_fact:
  assumes "k < 10"
  shows "CHR 0x0A \<notin> set (digits2 k)" "CHR 0x09 \<notin> set (digits2 k)" "parse_u8 (digits2 k) = Some k"
  using digits2_facts(1) assms by (simp_all add: list_all_iff)

lemma sample_line_cells:
  assumes "i < 54"
  shows "split_on (CHR 0x09) (sample_line i) =
    [''0'', digits2 (i div 6), digits2 (i mod 6), ''4'', ''0x0004'', ''A'', ''KC_A'']"
proof -
  have "i div 6 < 10" "i mod 6 < 10" using assms by (simp_all add: less_mult_imp_div_less)
  note d = digits2_fact(2) [OF this(1)] digits2_fact(2) [OF this(2)]
  show ?thesis by (simp add: sample_line_def split_on_append d)
qed

lemma sample_line_parses:
  assumes "i < 54"
  shows "CHR 0x0A \<notin> set (sample_line i)" "strip_cr (sample_line i) = sample_line i"
    "trim (sample_line i) \<noteq> []" "length (split_on (CHR 0x09) (sample_line i)) = 7"
    "parse_table_line (split_on (CHR 0x09) (sample_line i)) n = Inr (sample_row i)"
proof -
  have k: "i div 6 < 10" "i mod 6 < 10" using assms by (simp_all add: less_mult_imp_div_less)
  note d = digits2_fact [OF k(1)] digits2_fact [OF k(2)]
  have last: "sample_line i = (butlast (sample_line i)) @ [CHR ''A'']"
    by (simp add: sample_line_def butlast_append)
  show "CHR 0x0A \<notin> set (sample_line i)" by (simp add: sample_line_def d)
  show "strip_cr (sample_line i) = sample_line i"
    by (subst (1 2) last) (simp add: strip_cr_def strip_suffix_def strip_prefix_def)
  have "trim (sample_line i) = sample_line i"
    by (rule trim_graph, subst (3) last) (simp add: sample_line_def is_graph_def)
  then show "trim (sample_line i) \<noteq> []" by (simp add: sample_line_def)
  show "length (split_on (CHR 0x09) (sample_line i)) = 7"
    by (simp add: sample_line_cells [OF assms])
  show "parse_table_line (split_on (CHR 0x09) (sample_line i)) n = Inr (sample_row i)"
    by (simp add: sample_line_cells [OF assms] parse_table_line_def parse_table_u8_def sample_row_def d digits2_facts(2,3))
qed

lemma sample_rows_distinct: "distinct (map (\<lambda>i. entry_key (sample_row i)) [0..<54])"
  by code_simp

lemma sample_lines_parse:
  "set is \<subseteq> {0..<54} \<Longrightarrow> distinct (map (\<lambda>i. entry_key (sample_row i)) is) \<Longrightarrow>
   (\<forall>i \<in> set is. entry_key (sample_row i) \<notin> seen) \<Longrightarrow>
   parse_table_lines (Suc n) seen (map sample_line is) = Inr (map sample_row is)"
proof (induction "is" arbitrary: n seen)
  case Nil
  then show ?case by simp
next
  case (Cons i js)
  have i: "i \<in> set [0..<54]" using Cons.prems(1) by auto
  have line: "trim (sample_line i) \<noteq> []" "length (split_on (CHR 0x09) (sample_line i)) = 7"
      "parse_table_line (split_on (CHR 0x09) (sample_line i)) (Suc n + 1) = Inr (sample_row i)"
    using sample_line_parses [of i] i by auto
  have "parse_table_lines (Suc (Suc n)) (insert (entry_key (sample_row i)) seen) (map sample_line js) = Inr (map sample_row js)"
    by (rule Cons.IH) (use Cons.prems in \<open>auto simp: image_iff\<close>)
  with line Cons.prems(3) show ?case
    by (simp add: entry_key_def)
qed

lemma sample_table_parses: "read_keymap_entries sample_table = Inr (map sample_row [0..<54])"
proof -
  have ok: "CHR 0x0A \<notin> set (sample_line i) \<and> strip_cr (sample_line i) = sample_line i" if "i < 54" for i
    using sample_line_parses(1,2) [OF that] by blast
  have "map strip_cr (map sample_line [0..<54]) = map sample_line [0..<54]"
    unfolding map_map by (rule map_cong) (use ok in auto)
  moreover have "str_lines sample_table = map strip_cr (''layer'' # map sample_line [0..<54])"
    unfolding sample_table_def by (rule str_lines_terminated) (use ok in auto)
  ultimately have "str_lines sample_table = strip_cr ''layer'' # map sample_line [0..<54]"
    by (simp only: list.map)
  moreover have "parse_table_lines (Suc 0) {} (map sample_line [0..<54]) = Inr (map sample_row [0..<54])"
    by (rule sample_lines_parse) (use sample_rows_distinct in simp_all)
  ultimately show ?thesis by (simp add: read_keymap_entries_def del: upt_Suc)
qed

lemma sample_table_expands:
  "is_ok (configuration_entries (sample_configuration sample_layers 3) sample_qmk_catalog (map sample_row [0..<54]))"
  by code_simp

theorem expanded_entries_distinct_witness:
  "\<exists>es. read_keymap_entries sample_table = Inr (map sample_row [0..<54]) \<and>
     configuration_entries (sample_configuration sample_layers 3) sample_qmk_catalog (map sample_row [0..<54]) = Inr es \<and>
     distinct (map entry_key es)"
proof -
  obtain es where es: "configuration_entries (sample_configuration sample_layers 3) sample_qmk_catalog
      (map sample_row [0..<54]) = Inr es"
    using sample_table_expands unfolding is_ok_iff by blast
  show ?thesis
    by (intro exI conjI, rule sample_table_parses, rule es,
        rule expanded_entries_distinct [OF sample_table_parses es])
qed
end
