(* ===== verification/Sync_Commands.thy ===== *)
theory Sync_Commands
  imports Sync_Args Device_Status Keymap_Table
begin

text \<open>
  The commands of \<open>packages/silakka54/sync/src/main.rs\<close> that read or write a connected
  keyboard: status, apply, config, layer. They run against a \<open>host\<close>: the file system, the
  HID API and the parsers of \<open>serde_json\<close>, none of which the repository contains. Messages
  are not modelled, except that a command returns the values it prints.
\<close>

section \<open>The host\<close>

datatype sync_failure =
    AbiIncompatible string
  | KeymapSyncFailed string device_error
  | ViaStateSyncFailed string device_error

datatype sync_error =
    ArgsError args_error
  | HostError string
  | ConfigError config_error
  | TableError table_error
  | DeviceError device_error
  | DescribeError describe_error
  | SnapshotMacroError macro_error
  | NoViaDevice
  | SeveralViaDevices
  | FirmwareNotCurrent
  | FirmwareAbiIncompatible
  | LayerNotExposed u8 u8
  | UnexpectedShape string
  | NoDeviceConnected
  | StaleOrUnavailable
  | Failures "sync_failure list"

record 'w host =
  host_read :: "string \<Rightarrow> ('w, string, string) io"
  host_write :: "string \<Rightarrow> string \<Rightarrow> ('w, string, unit) io"
  host_rename :: "string \<Rightarrow> string \<Rightarrow> ('w, string, unit) io"
  host_hid :: "('w, string, hid_info list) io"
  host_open :: "string \<Rightarrow> ('w, string, 'w transport) io"
  parse_configuration :: "string \<Rightarrow> (string, configuration) res"
  parse_catalog :: "string \<Rightarrow> (string, qmk_catalog) res"
  print_configuration :: "configuration \<Rightarrow> (string, string) res"
  temporary_path :: "string \<Rightarrow> string"

text \<open>What the build puts into the program.\<close>

record build =
  CONFIGURATION_PATH :: string
  QMK_CATALOG_PATH :: string
  KEYMAP_PATH :: string
  hashes :: build_hashes

section \<open>Loading\<close>

definition load_configuration :: "'w host \<Rightarrow> string \<Rightarrow> ('w, sync_error, configuration) io" where
  "load_configuration H path =
     io_bind (io_map_err HostError (host_read H path)) (\<lambda>contents.
     io_lift (map_err HostError (parse_configuration H contents)))"

definition load_catalog :: "build \<Rightarrow> 'w host \<Rightarrow> ('w, sync_error, qmk_catalog) io" where
  "load_catalog B H =
     io_bind (io_map_err HostError (host_read H (QMK_CATALOG_PATH B))) (\<lambda>contents.
     io_lift (map_err HostError (parse_catalog H contents)))"

definition load_keymap_entries :: "build \<Rightarrow> 'w host \<Rightarrow> ('w, sync_error, key_entry list) io" where
  "load_keymap_entries B H =
     io_bind (io_map_err HostError (host_read H (KEYMAP_PATH B))) (\<lambda>contents.
     io_lift (map_err TableError (read_keymap_entries contents)))"

definition load_configuration_entries :: "build \<Rightarrow> 'w host \<Rightarrow> string \<Rightarrow> ('w, sync_error, key_entry list) io" where
  "load_configuration_entries B H path =
     io_bind (load_configuration H path) (\<lambda>config.
     io_bind (load_catalog B H) (\<lambda>catalog.
     io_bind (io_lift (map_err ConfigError (validate_configuration config catalog))) (\<lambda>_.
     io_bind (load_keymap_entries B H) (\<lambda>packaged.
     io_lift (map_err ConfigError (configuration_entries config catalog packaged))))))"

section \<open>Devices\<close>

definition list_raw_devices :: "'w host \<Rightarrow> ('w, sync_error, device_descriptor list) io" where
  "list_raw_devices H =
     io_bind (io_map_err HostError (host_hid H)) (\<lambda>listed. io_return (raw_hid_devices listed))"

definition open_hid :: "'w host \<Rightarrow> device_descriptor \<Rightarrow> ('w, device_error, 'w transport) io" where
  "open_hid H descriptor = io_map_err OpenFailed (host_open H (d_path descriptor))"

definition answers_via :: "'w host \<Rightarrow> device_descriptor \<Rightarrow> ('w, 'e, bool) io" where
  "answers_via H descriptor =
     io_bind (io_try (io_bind (open_hid H descriptor) via_protocol)) (\<lambda>r. io_return (is_ok r))"

definition via_devices :: "'w host \<Rightarrow> ('w, sync_error, device_descriptor list) io" where
  "via_devices H =
     io_bind (list_raw_devices H) (\<lambda>devices.
     io_bind (io_map (answers_via H) devices) (\<lambda>answers.
     io_return (map fst (filter snd (zip devices answers)))))"

definition single_device :: "device_descriptor list \<Rightarrow> (sync_error, device_descriptor) res" where
  "single_device devices =
     (case devices of [descriptor] \<Rightarrow> Inr descriptor | [] \<Rightarrow> Inl NoViaDevice | _ \<Rightarrow> Inl SeveralViaDevices)"

section \<open>Layer\<close>

definition firmware_current :: "build_hashes \<Rightarrow> firmware_status \<Rightarrow> bool" where
  "firmware_current hs firmware \<longleftrightarrow> abi_matches hs firmware \<and> runtime_matches hs firmware"

definition set_layer_on :: "build_hashes \<Rightarrow> u8 \<Rightarrow> 'w transport \<Rightarrow> ('w, sync_error, unit) io" where
  "set_layer_on hs target device =
     io_bind (io_map_err DeviceError (firmware_status device)) (\<lambda>firmware.
     if \<not> firmware_current hs firmware then io_fail FirmwareNotCurrent
     else if layer_count firmware \<le> target then io_fail (LayerNotExposed (layer_count firmware) target)
     else io_map_err DeviceError (set_active_layer device target))"

definition layer_command :: "build \<Rightarrow> 'w host \<Rightarrow> string \<Rightarrow> ('w, sync_error, string \<times> u8) io" where
  "layer_command B H requested =
     io_bind (load_configuration H (CONFIGURATION_PATH B)) (\<lambda>config.
     io_bind (io_lift (map_err ConfigError (resolve_layer config requested))) (\<lambda>(target, name).
     io_bind (via_devices H) (\<lambda>devices.
     io_bind (io_lift (single_device devices)) (\<lambda>descriptor.
     io_bind (io_map_err DeviceError (open_hid H descriptor)) (\<lambda>device.
     io_bind (set_layer_on (hashes B) target device) (\<lambda>_.
     io_return (name, target)))))))"

section \<open>Apply\<close>

text \<open>
  The body of the loop over the devices: it never fails, and adds to the number of changed
  keycodes and to the list of failures.
\<close>

definition sync_one_device ::
  "build_hashes \<Rightarrow> 'w host \<Rightarrow> key_entry list \<Rightarrow> via_configuration \<Rightarrow> nat \<times> sync_failure list \<Rightarrow>
   device_descriptor \<Rightarrow> ('w, 'e, nat \<times> sync_failure list) io" where
  "sync_one_device hs H entries desired = (\<lambda>(changed_total, failures) descriptor.
     io_bind (io_try (io_bind (open_hid H descriptor) firmware_status)) (\<lambda>compatibility.
     if \<not> (case compatibility of Inr firmware \<Rightarrow> abi_matches hs firmware | Inl _ \<Rightarrow> False)
     then io_return (changed_total, failures @ [AbiIncompatible (d_name descriptor)])
     else
       io_bind (io_try (sync_keymap_for_device (EXPECTED_ABI_HASH hs) (host_open H (d_path descriptor)) entries)) (\<lambda>keymap.
       case keymap of
         Inl error \<Rightarrow> io_return (changed_total, failures @ [KeymapSyncFailed (d_name descriptor) error])
       | Inr changed \<Rightarrow>
           io_bind (io_try (io_bind (open_hid H descriptor) (\<lambda>device. sync_via_state_for_device device desired)))
             (\<lambda>extras.
             io_return (changed_total + changed,
               (case extras of
                  Inr _ \<Rightarrow> failures
                | Inl error \<Rightarrow> failures @ [ViaStateSyncFailed (d_name descriptor) error]))))))"

text \<open>The result: the number of changed keycodes and whether a flash is still required.\<close>

definition sync_keymap_command_with_config :: "build \<Rightarrow> 'w host \<Rightarrow> string \<Rightarrow> ('w, sync_error, nat \<times> bool) io" where
  "sync_keymap_command_with_config B H config_path =
     io_bind (load_configuration H config_path) (\<lambda>candidate.
     io_bind (load_configuration_entries B H config_path) (\<lambda>entries.
     io_bind (via_devices H) (\<lambda>devices.
     if devices = [] then io_return (0, False)
     else
       io_bind (io_fold (sync_one_device (hashes B) H entries (via candidate)) (0, []) devices) (\<lambda>(changed_total, failures).
       if failures \<noteq> [] then io_fail (Failures failures)
       else
         io_bind (load_configuration H (CONFIGURATION_PATH B)) (\<lambda>packaged.
         io_return (changed_total, qmk candidate \<noteq> qmk packaged))))))"

definition sync_keymap_command :: "build \<Rightarrow> 'w host \<Rightarrow> ('w, sync_error, nat \<times> bool) io" where
  "sync_keymap_command B H = sync_keymap_command_with_config B H (CONFIGURATION_PATH B)"

section \<open>Status\<close>

definition collect_statuses_for ::
  "build_hashes \<Rightarrow> 'w host \<Rightarrow> key_entry list \<Rightarrow> via_configuration \<Rightarrow> ('w, sync_error, device_status list) io" where
  "collect_statuses_for hs H entries desired =
     io_bind (list_raw_devices H) (\<lambda>devices.
     io_map (\<lambda>descriptor. device_status hs (host_open H) descriptor entries desired) devices)"

definition collect_statuses :: "build \<Rightarrow> 'w host \<Rightarrow> ('w, sync_error, device_status list) io" where
  "collect_statuses B H =
     io_bind (load_configuration H (CONFIGURATION_PATH B)) (\<lambda>config.
     io_bind (load_configuration_entries B H (CONFIGURATION_PATH B)) (\<lambda>entries.
     collect_statuses_for (hashes B) H entries (via config)))"

definition status_ok :: "build_hashes \<Rightarrow> device_status \<Rightarrow> bool" where
  "status_ok hs status \<longleftrightarrow>
     \<not> (\<not> firmware_is_current hs status \<or> live_state_is_stale hs status \<or> status_error status \<noteq> None)"

definition status_command :: "build \<Rightarrow> 'w host \<Rightarrow> status_args \<Rightarrow> ('w, sync_error, device_status list) io" where
  "status_command B H args =
     io_bind (load_configuration H (sa_config args)) (\<lambda>config.
     io_bind (load_configuration_entries B H (sa_config args)) (\<lambda>entries.
     io_bind (collect_statuses_for (hashes B) H entries (via config)) (\<lambda>statuses.
     if sa_check args \<and> statuses = [] then io_fail NoDeviceConnected
     else if sa_check args \<and> list_ex (\<lambda>status. \<not> status_ok (hashes B) status) statuses
     then io_fail StaleOrUnavailable
     else io_return statuses)))"

end
