(* ===== verification/Device_Protocol.thy ===== *)
theory Device_Protocol
  imports Device_Sync
begin

text \<open>
  The program and the repository's firmware together: the firmware provides the laws the
  synchronisation relies on, its status pages are read back faithfully, and its
  acknowledgements of a layer change or a bootloader jump can be trusted on any link.
\<close>

section \<open>The firmware of the repository\<close>

lemma keycode_reports_heads:
  "get_keycode_report p ! 0 = 0x04" "set_keycode_report p v ! 0 = 0x05"
  using get_report_bytes(2) set_report_bytes(2) by (simp_all add: hid_constants)

lemma firmware_core:
  assumes "report ! 0 \<noteq> 0x02" "report ! 0 \<noteq> 0x4b" "\<not> k_bootloader kb"
  shows "firmware_handler F core report kb =
    (let (reports, c) = core report (k_core kb) in (reports, kb\<lparr>k_core := c\<rparr>))"
  using via_command_other [OF assms(1,2), of F kb] assms(3) by (simp add: firmware_handler_def)

lemma firmware_via_keymap:
  fixes core :: "'c handler"
  assumes via: "via_keymap core km D" and F: "image_ok F"
  shows "via_keymap (firmware_handler F core) (\<lambda>kb. km (k_core kb)) D"
  unfolding via_keymap_def
proof (intro conjI ballI allI impI)
  fix p kb assume p: "p \<in> D"
  show "case firmware_handler F core (get_keycode_report p) kb of (reports, kb') \<Rightarrow>
      km (k_core kb') = km (k_core kb) \<and>
      (\<forall>q \<in> set reports. length q = 32 \<and> q ! 0 \<noteq> ID_DYNAMIC_KEYMAP_SET_KEYCODE \<and>
          (q ! 0 = ID_DYNAMIC_KEYMAP_GET_KEYCODE \<longrightarrow>
             slice 1 4 q = position_bytes p \<and> be16 (q ! 4) (q ! 5) = km (k_core kb) p))"
  proof (cases "k_bootloader kb")
    case False
    obtain reports c where c: "core (get_keycode_report p) (k_core kb) = (reports, c)" by fastforce
    show ?thesis
      using firmware_core [OF _ _ False, of "get_keycode_report p" F core] via_keymap_get [OF via p c] c
      by (simp add: keycode_reports_heads)
  qed (simp add: firmware_handler_def)
next
  fix p v kb assume p: "p \<in> D"
  show "case firmware_handler F core (set_keycode_report p v) kb of (reports, kb') \<Rightarrow>
       km (k_core kb') = km (k_core kb) \<and> reports = [] \<or>
       km (k_core kb') = (km (k_core kb))(p := v) \<and>
       (\<forall>q \<in> set reports. length q = 32 \<and> q ! 0 \<noteq> ID_DYNAMIC_KEYMAP_GET_KEYCODE \<and>
          (q ! 0 = ID_DYNAMIC_KEYMAP_SET_KEYCODE \<longrightarrow> slice 1 4 q = position_bytes p))"
  proof (cases "k_bootloader kb")
    case False
    obtain reports c where c: "core (set_keycode_report p v) (k_core kb) = (reports, c)" by fastforce
    show ?thesis
      using firmware_core [OF _ _ False, of "set_keycode_report p v" F core] via_keymap_set [OF via p c] c
      by (simp add: keycode_reports_heads)
  qed (simp add: firmware_handler_def)
next
  fix report :: report and kb :: "'c keyboard" assume q0: "report ! 0 = ID_GET_KEYBOARD_VALUE"
  obtain reports c where c: "core report (k_core kb) = (reports, c)" by fastforce
  show "case firmware_handler F core report kb of (reports, kb') \<Rightarrow>
       km (k_core kb') = km (k_core kb) \<and>
       (\<forall>q \<in> set reports. length q = 32 \<and>
          q ! 0 \<noteq> ID_DYNAMIC_KEYMAP_GET_KEYCODE \<and> q ! 0 \<noteq> ID_DYNAMIC_KEYMAP_SET_KEYCODE)"
  proof (cases "k_bootloader kb")
    case True
    then show ?thesis by (simp add: firmware_handler_def)
  next
    case False
    show ?thesis
    proof (cases "via_command_kb F report kb")
      case None
      then show ?thesis
        using False c via_keymap_query [OF via q0 c] by (simp add: firmware_handler_def)
    next
      case (Some out)
      obtain reports' kb' where out: "out = (reports', kb')" by fastforce
      have "length q = 32 \<and> q ! 0 \<noteq> ID_DYNAMIC_KEYMAP_GET_KEYCODE \<and> q ! 0 \<noteq> ID_DYNAMIC_KEYMAP_SET_KEYCODE"
        if "q \<in> set reports'" for q
        using via_command_reports [OF Some [unfolded out] F that]
        by (auto simp: hid_constants unsolicited_ok_def)
      then show ?thesis
        using False Some out via_command_core [OF Some [unfolded out]] by (simp add: firmware_handler_def)
    qed
  qed
qed

lemma firmware_answers:
  fixes core :: "'c handler"
  assumes "via_answers core A D"
  shows "via_answers (firmware_handler F core) (\<lambda>kb. A (k_core kb) \<and> \<not> k_bootloader kb) D"
  unfolding via_answers_def
proof (intro ballI allI impI conjI)
  fix p and kb :: "'c keyboard" assume p: "p \<in> D" and A: "A (k_core kb) \<and> \<not> k_bootloader kb"
  have c: "firmware_handler F core r kb = (let (reports, c) = core r (k_core kb) in (reports, kb\<lparr>k_core := c\<rparr>))"
    if "r ! 0 \<noteq> 0x02" "r ! 0 \<noteq> 0x4b" for r
    by (rule firmware_core) (use that A in auto)
  obtain q c' where "core (get_keycode_report p) (k_core kb) = ([q], c')" "A c'"
      "accept_report (get_keycode_report p) ID_DYNAMIC_KEYMAP_GET_KEYCODE q \<noteq> None"
    using assms p A unfolding via_answers_def by blast
  then show "\<exists>q kb'. firmware_handler F core (get_keycode_report p) kb = ([q], kb') \<and>
      (A (k_core kb') \<and> \<not> k_bootloader kb') \<and>
      accept_report (get_keycode_report p) ID_DYNAMIC_KEYMAP_GET_KEYCODE q \<noteq> None"
    using A by (simp add: c keycode_reports_heads)
  fix v
  obtain q' c'' where "core (set_keycode_report p v) (k_core kb) = ([q'], c'')" "A c''"
      "accept_report (set_keycode_report p v) ID_DYNAMIC_KEYMAP_SET_KEYCODE q' \<noteq> None"
    using assms p A unfolding via_answers_def by blast
  then show "\<exists>q kb'. firmware_handler F core (set_keycode_report p v) kb = ([q], kb') \<and>
      (A (k_core kb') \<and> \<not> k_bootloader kb') \<and>
      accept_report (set_keycode_report p v) ID_DYNAMIC_KEYMAP_SET_KEYCODE q \<noteq> None"
    using A by (simp add: c keycode_reports_heads)
qed

section \<open>The status pages\<close>

lemma query_report_bytes:
  "length (query_report k v a) = 32" "query_report k v a ! 0 = ID_GET_KEYBOARD_VALUE"
  "query_report k v a ! 1 = k" "query_report k v a ! 2 = v" "query_report k v a ! 3 = a"
  by (simp_all add: query_report_def command_report_def REPORT_LEN_def)

lemmas query_report_simps = query_report_bytes query_report_bytes(3) [unfolded One_nat_def]

lemma query_not_layer_query: "take 6 (query_report k v a) \<noteq> REPORT_MAGIC"
proof
  assume "take 6 (query_report k v a) = REPORT_MAGIC"
  then have "take 6 (query_report k v a) ! 0 = 0x4b" by (simp add: REPORT_MAGIC_def)
  then show False using query_report_bytes(2) [of k v a] by (simp add: ID_GET_KEYBOARD_VALUE_def)
qed

lemma firmware_page_handled:
  assumes "\<not> k_bootloader kb"
  shows "firmware_handler F core (query_report SILAKKA54_SYNC_QUERY SILAKKA54_SYNC_VERSION page) kb =
    ([status_page F page], kb)"
  using assms by (simp add: firmware_handler_def via_command_kb_def query_not_layer_query query_report_simps hid_constants)

lemma status_page_bytes:
  assumes "image_ok F"
  shows "status_page F p ! 0 = 0x02" "status_page F p ! 1 = SILAKKA54_SYNC_QUERY"
    "status_page F p ! 2 = SILAKKA54_SYNC_VERSION" "status_page F p ! 3 = p"
    "slice 4 11 (status_page F p) = SILAKKA54_SYNC_MAGIC"
  by (simp_all add: status_page_def pad_report_def slice_def SILAKKA54_SYNC_MAGIC_def)

lemma status_page_accepted:
  assumes F: "image_ok F"
  shows "accept_report (query_report SILAKKA54_SYNC_QUERY SILAKKA54_SYNC_VERSION page) ID_GET_KEYBOARD_VALUE
    (status_page F page) = Some (status_page F page)"
  using length_status_page [OF F, of page] status_page_bytes [OF F, of page]
  by (simp add: accept_report_Some normalize_32 response_matches_request_def query_report_simps hid_constants)

lemma firmware_status_page_calm:
  assumes F: "image_ok F" and s: "calm s" "\<not> k_bootloader (l_kb s)"
  shows "\<exists>s'. firmware_status_page (link_transport (firmware_handler F core)) page s =
      Some (Inr (status_page F page), s') \<and> calm s' \<and> l_kb s' = l_kb s"
proof -
  obtain s' where t: "transact (link_transport (firmware_handler F core))
      (query_report SILAKKA54_SYNC_QUERY SILAKKA54_SYNC_VERSION page) ID_GET_KEYBOARD_VALUE s =
      Some (Inr (status_page F page), s')" "calm s'" "l_kb s' = l_kb s"
    using transact_calm [of s "firmware_handler F core" "query_report SILAKKA54_SYNC_QUERY SILAKKA54_SYNC_VERSION page"
        "status_page F page" "l_kb s" ID_GET_KEYBOARD_VALUE "status_page F page"]
      s firmware_page_handled [OF s(2), of F core page] status_page_accepted [OF F, of page] by blast
  show ?thesis
    unfolding firmware_status_page_def
    by (rule exI [of _ s']) (simp add: io_bind_def io_return_def status_page_bytes [OF F] status_page_bytes(2) [OF F, unfolded One_nat_def] t)
qed

definition image_status :: "firmware_image \<Rightarrow> firmware_status" where
  "image_status F =
     \<lparr>abi_hash_prefix = bytes_to_hex (fw_abi_hash F), runtime_hash_prefix = bytes_to_hex (fw_runtime_hash F),
      keymap_hash_prefix = bytes_to_hex (fw_keymap_hash F), layer_count = fw_layer_count F,
      macro_count = fw_macro_count F, rows = fw_rows F, cols = fw_cols F, half = fw_half F\<rparr>"

lemma status_page_fields:
  assumes "image_ok F"
  shows "slice 11 19 (status_page F 1) = fw_abi_hash F" "slice 19 27 (status_page F 1) = fw_runtime_hash F"
    "slice 11 19 (status_page F 2) = fw_keymap_hash F" "status_page F 0 ! 11 = fw_layer_count F"
    "status_page F 0 ! 12 = fw_macro_count F" "status_page F 0 ! 13 = fw_rows F"
    "status_page F 0 ! 14 = fw_cols F" "half_of (status_page F 0 ! 15) = fw_half F"
  using assms
  by (auto simp: status_page_def pad_report_def slice_def SILAKKA54_SYNC_MAGIC_def image_ok_def
      half_of_def half_byte_def split: option.splits keyboard_half.splits)

lemma firmware_status_calm:
  assumes F: "image_ok F" and s: "calm s" "\<not> k_bootloader (l_kb s)"
  shows "\<exists>s'. firmware_status (link_transport (firmware_handler F core)) s = Some (Inr (image_status F), s') \<and>
    calm s' \<and> l_kb s' = l_kb s"
proof -
  let ?T = "link_transport (firmware_handler F core)"
  obtain s0 where p0: "firmware_status_page ?T 0 s = Some (Inr (status_page F 0), s0)" "calm s0" "l_kb s0 = l_kb s"
    using firmware_status_page_calm [OF F s] by blast
  obtain s1 where p1: "firmware_status_page ?T 1 s0 = Some (Inr (status_page F 1), s1)" "calm s1" "l_kb s1 = l_kb s0"
    using firmware_status_page_calm [OF F p0(2)] s(2) p0(3) by metis
  obtain s2 where p2: "firmware_status_page ?T 2 s1 = Some (Inr (status_page F 2), s2)" "calm s2" "l_kb s2 = l_kb s1"
    using firmware_status_page_calm [OF F p1(2)] s(2) p0(3) p1(3) by metis
  show ?thesis
    by (rule exI [of _ s2])
      (simp add: firmware_status_def io_bind_def io_return_def image_status_def status_page_fields [OF F] p0 p1 p2)
qed

text \<open>
  The status the program reads from the repository's firmware over a link without faults is
  the image's own: its hashes in hexadecimal, its capacities and the physical half.
\<close>
theorem firmware_status_reports_image:
  assumes F: "image_ok F" and s: "calm s" "\<not> k_bootloader (l_kb s)"
  shows "\<exists>s'. firmware_status (link_transport (firmware_handler F core)) s = Some (Inr (image_status F), s') \<and>
    calm s' \<and> l_kb s' = l_kb s"
  by (rule firmware_status_calm [OF assms])

section \<open>The whole exchange with the repository's firmware\<close>

lemma link_live_sync:
  assumes F: "image_ok F" and abi: "bytes_to_hex (fw_abi_hash F) = hash_prefix abi"
    and ans: "via_answers core A D"
    and D: "entry_position ` set entries \<subseteq> D"
    and s: "l_lost s = []" "l_events s = []" "A (k_core (l_kb s))" "\<not> k_bootloader (l_kb s)"
  shows "\<exists>n s'. sync_keymap_for_device abi (link_open (firmware_handler F core)) entries s = Some (Inr n, s') \<and>
    calm s' \<and> A (k_core (l_kb s')) \<and> \<not> k_bootloader (l_kb s')"
proof -
  let ?h = "firmware_handler F core"
  let ?A = "\<lambda>kb. A (k_core kb) \<and> \<not> k_bootloader kb"
  let ?s = "s\<lparr>l_queue := []\<rparr>"
  have calm: "calm ?s" using s by (simp add: calm_def)
  obtain s1 where f: "firmware_status (link_transport ?h) ?s = Some (Inr (image_status F), s1)"
    and s1: "calm s1" "l_kb s1 = l_kb s"
    using firmware_status_calm [OF F calm, of core] s by auto
  have ab: "abi_hash_prefix (image_status F) = hash_prefix abi" by (simp add: image_status_def abi)
  have live: "link_live ?h ?A D (entry_position ` set entries) s1"
    using firmware_answers [OF ans, of F] D s s1 by (simp add: link_live_def)
  have "set (map fst (wanted entries)) \<subseteq> entry_position ` set entries" by (auto simp: wanted_def)
  from link_live.sync_live [OF live this] f ab show ?thesis
    by (auto simp: sync_keymap_for_device_def io_bind_def io_map_err_def link_open_def link_live_def)
qed

text \<open>
  C10: On a link without faults, applying a keymap to a keyboard that runs the expected firmware
  reports success.
\<close>
theorem sync_keymap_succeeds:
  assumes "image_ok F" and "bytes_to_hex (fw_abi_hash F) = hash_prefix abi"
    and "via_answers core A D" and "entry_position ` set entries \<subseteq> D"
    and "l_lost s = []" "l_events s = []" "A (k_core (l_kb s))" "\<not> k_bootloader (l_kb s)"
  shows "\<exists>n s'. sync_keymap_for_device abi (link_open (firmware_handler F core)) entries s = Some (Inr n, s')"
  using link_live_sync [OF assms] by blast

text \<open>A small VIA core: it stores keycodes and marks every other command as unhandled.\<close>

definition sample_core :: "(position \<Rightarrow> u16) handler" where
  "sample_core data m =
    (let p = (data ! 1, data ! 2, data ! 3); reply = take 32 (data @ replicate 32 0) in
     if data ! 0 = ID_DYNAMIC_KEYMAP_GET_KEYCODE then ([splice 4 (u16_bytes (m p)) reply], m)
     else if data ! 0 = ID_DYNAMIC_KEYMAP_SET_KEYCODE then ([reply], m(p := be16 (data ! 4) (data ! 5)))
     else ([reply[0 := 0xff]], m))"

lemma get_report_args:
  "get_keycode_report p ! 1 = fst p" "get_keycode_report p ! 2 = fst (snd p)" "get_keycode_report p ! 3 = snd (snd p)"
  by (auto simp: get_keycode_report_def command_report_def REPORT_LEN_def split: prod.splits)

lemma set_report_args:
  "set_keycode_report p v ! 1 = fst p" "set_keycode_report p v ! 2 = fst (snd p)"
  "set_keycode_report p v ! 3 = snd (snd p)" "be16 (set_keycode_report p v ! 4) (set_keycode_report p v ! 5) = v"
proof -
  have "v AND 0xff = take_bit 8 v"
    by (simp add: take_bit_eq_mask mask_eq_exp_minus_1)
  then have "ucast (v AND 0xff) = (ucast v :: byte)"
    by (intro word_eq_iff_unsigned [where 'a = nat, THEN iffD2]) (simp add: unsigned_ucast_eq unsigned_take_bit_eq)
  then show "set_keycode_report p v ! 1 = fst p" "set_keycode_report p v ! 2 = fst (snd p)"
    "set_keycode_report p v ! 3 = snd (snd p)" "be16 (set_keycode_report p v ! 4) (set_keycode_report p v ! 5) = v"
    by (auto simp: set_keycode_report_def command_report_def REPORT_LEN_def split: prod.splits)
qed

lemma sample_core_get:
  "sample_core (get_keycode_report p) m = ([splice 4 (u16_bytes (m p)) (get_keycode_report p)], m)"
  by (simp add: sample_core_def Let_def get_report_bytes get_report_args [unfolded One_nat_def] hid_constants)

lemma sample_core_set:
  "sample_core (set_keycode_report p v) m = ([set_keycode_report p v], m(p := v))"
  by (simp add: sample_core_def Let_def set_report_bytes set_report_args [unfolded One_nat_def] hid_constants)

lemma splice_get_bytes:
  "length (splice 4 (u16_bytes v) (get_keycode_report p)) = 32"
  "splice 4 (u16_bytes v) (get_keycode_report p) ! 0 = ID_DYNAMIC_KEYMAP_GET_KEYCODE"
  "slice 1 4 (splice 4 (u16_bytes v) (get_keycode_report p)) = position_bytes p"
  "be16 (splice 4 (u16_bytes v) (get_keycode_report p) ! 4) (splice 4 (u16_bytes v) (get_keycode_report p) ! 5) = v"
proof -
  obtain l r c where p: "p = (l, r, c)" by (cases p)
  have rep: "get_keycode_report (l, r, c) = [0x04, l, r, c] @ replicate 28 0"
    by (simp add: get_keycode_report_def command_report_def REPORT_LEN_def numeral_eq_Suc hid_constants)
  show "length (splice 4 (u16_bytes v) (get_keycode_report p)) = 32"
  "splice 4 (u16_bytes v) (get_keycode_report p) ! 0 = ID_DYNAMIC_KEYMAP_GET_KEYCODE"
  "slice 1 4 (splice 4 (u16_bytes v) (get_keycode_report p)) = position_bytes p"
  "be16 (splice 4 (u16_bytes v) (get_keycode_report p) ! 4) (splice 4 (u16_bytes v) (get_keycode_report p) ! 5) = v"
    by (simp_all add: rep splice_def u16_bytes_def slice_def p position_bytes_def hid_constants)
qed

lemma sample_via_keymap: "via_keymap sample_core (\<lambda>m. m) UNIV"
  unfolding via_keymap_def
  by (auto simp: sample_core_get sample_core_set splice_get_bytes splice_get_bytes(3) [unfolded One_nat_def]
      set_report_bytes set_report_bytes(3) [unfolded One_nat_def] hid_constants)
    (auto simp: sample_core_def Let_def hid_constants)

lemma sample_via_answers: "via_answers sample_core (\<lambda>_. True) UNIV"
  unfolding via_answers_def
proof (intro ballI allI impI conjI)
  fix p m
  let ?q = "splice 4 (u16_bytes (m p)) (get_keycode_report p)"
  have "accept_report (get_keycode_report p) ID_DYNAMIC_KEYMAP_GET_KEYCODE ?q = Some ?q"
    by (rule accept_get [THEN iffD2]) (simp_all add: splice_get_bytes splice_get_bytes(3) [unfolded One_nat_def] answers_get_def)
  then show "\<exists>q m'. sample_core (get_keycode_report p) m = ([q], m') \<and> True \<and>
      accept_report (get_keycode_report p) ID_DYNAMIC_KEYMAP_GET_KEYCODE q \<noteq> None"
    by (simp add: sample_core_get)
  fix v
  have "accept_report (set_keycode_report p v) ID_DYNAMIC_KEYMAP_SET_KEYCODE (set_keycode_report p v) =
      Some (set_keycode_report p v)"
    by (simp add: accept_report_Some normalize_32 set_report_bytes response_matches_request_def)
  then show "\<exists>q m'. sample_core (set_keycode_report p v) m = ([q], m') \<and> True \<and>
      accept_report (set_keycode_report p v) ID_DYNAMIC_KEYMAP_SET_KEYCODE q \<noteq> None"
    by (simp add: sample_core_set)
qed

definition sample_image :: firmware_image where
  "sample_image = \<lparr>fw_abi_hash = replicate 8 0xab, fw_runtime_hash = replicate 8 1, fw_keymap_hash = replicate 8 2,
     fw_layer_count = 4, fw_macro_count = 16, fw_rows = 10, fw_cols = 6, fw_half = Some HalfLeft\<rparr>"

definition sample_keyboard :: "(position \<Rightarrow> u16) keyboard" where
  "sample_keyboard = \<lparr>k_core = (\<lambda>_. 0), k_layer = 0, k_reported = 0, k_sequence = 0, k_bootloader = False\<rparr>"

definition sample_link :: "bool list \<Rightarrow> link_event list \<Rightarrow> (position \<Rightarrow> u16) keyboard link" where
  "sample_link lost events = \<lparr>l_kb = sample_keyboard, l_queue = [], l_clock = 0, l_lost = lost, l_events = events\<rparr>"

definition sample_entry :: "u8 \<Rightarrow> u8 \<Rightarrow> u8 \<Rightarrow> u16 \<Rightarrow> key_entry" where
  "sample_entry l r c k = \<lparr>entry_layer = l, entry_row = r, entry_col = c, entry_keycode = k, entry_label = [], entry_qmk = []\<rparr>"

definition sample_entries :: "key_entry list" where
  "sample_entries = [sample_entry 0 0 0 0x04, sample_entry 0 0 1 0, sample_entry 1 2 3 0x5221]"

lemma sample_firmware:
  "via_keymap (firmware_handler sample_image sample_core) (\<lambda>kb. k_core kb) UNIV" "image_ok sample_image"
  using firmware_via_keymap [OF sample_via_keymap, of sample_image] by (simp_all add: image_ok_def sample_image_def)

lemma sample_entries_ok:
  "distinct (map entry_position sample_entries)" "entry_position ` set sample_entries \<subseteq> UNIV"
  by (simp_all add: sample_entries_def sample_entry_def entry_position_def)

abbreviation sample_handler :: "(position \<Rightarrow> u16) keyboard handler" where
  "sample_handler \<equiv> firmware_handler sample_image sample_core"

lemma sample_abi: "bytes_to_hex (fw_abi_hash sample_image) = hash_prefix ''ABABABABABABABABAB''"
  by code_simp

theorem sync_keymap_succeeds_witness:
  "\<exists>n s'. sync_keymap_for_device ''ABABABABABABABABAB'' (link_open sample_handler) sample_entries (sample_link [] [])
     = Some (Inr n, s')"
  by (rule sync_keymap_succeeds [where A = "\<lambda>_. True" and D = UNIV])
    (simp_all add: sample_firmware sample_via_answers sample_abi sample_link_def sample_keyboard_def)

lemma sample_run:
  "\<exists>n s'. sync_keymap_for_device ''ABABABABABABABABAB'' (link_open sample_handler) sample_entries (sample_link [] [])
     = Some (Inr n, s')"
  using link_live_sync [OF sample_firmware(2) sample_abi sample_via_answers, of sample_entries "sample_link [] []"]
  by (auto simp: sample_link_def sample_keyboard_def)

lemma sample_link_quiet: "quiet (sample_link [] [])"
  by (simp add: quiet_def sample_link_def)

theorem sync_keymap_correct_witness:
  "\<exists>s'. sync_keymap_for_device ''ABABABABABABABABAB'' (link_open sample_handler) sample_entries (sample_link [] [])
       = Some (Inr 2, s') \<and>
     k_core (l_kb s') (0, 0, 0) = 0x04 \<and> k_core (l_kb s') (1, 2, 3) = 0x5221 \<and> k_core (l_kb s') (3, 3, 3) = 0"
proof -
  obtain n s' where run: "sync_keymap_for_device ''ABABABABABABABABAB'' (link_open sample_handler)
      sample_entries (sample_link [] []) = Some (Inr n, s')"
    using sample_run by blast
  have "n = 2" "k_core (l_kb s') (0, 0, 0) = 0x04" "k_core (l_kb s') (1, 2, 3) = 0x5221" "k_core (l_kb s') (3, 3, 3) = 0"
    using sync_keymap_correct [OF sample_firmware(1) sample_link_quiet sample_entries_ok run]
    by (auto simp: sample_entries_def sample_entry_def entry_position_def sample_link_def sample_keyboard_def)
  with run show ?thesis by blast
qed

theorem sync_keymap_settles_witness:
  "\<exists>n s1. sync_keymap_for_device ''ABABABABABABABABAB'' (link_open sample_handler) sample_entries (sample_link [] [])
       = Some (Inr n, s1) \<and>
     (\<forall>m s2. sync_keymap_for_device ''ABABABABABABABABAB'' (link_open sample_handler) sample_entries s1
         = Some (Inr m, s2) \<longrightarrow> m = 0)"
proof -
  obtain n s' where run: "sync_keymap_for_device ''ABABABABABABABABAB'' (link_open sample_handler)
      sample_entries (sample_link [] []) = Some (Inr n, s')"
    using sample_run by blast
  with sync_keymap_settles [OF sample_firmware(1) sample_link_quiet sample_entries_ok run] show ?thesis by blast
qed

theorem firmware_status_reports_image_witness:
  "\<exists>s'. firmware_status (link_transport sample_handler) (sample_link [] []) = Some (Inr (image_status sample_image), s')"
  using firmware_status_reports_image [OF sample_firmware(2), of "sample_link [] []" sample_core]
  by (auto simp: calm_def sample_link_def sample_keyboard_def)

theorem requests_return_witness:
  "\<exists>r s'. set_active_layer (link_transport echo) 3 \<lparr>l_kb = 0, l_queue = [], l_clock = 0, l_lost = [], l_events = []\<rparr> = Some (r, s')"
  using requests_return [OF link.timed_transport_axioms, of echo 3] unfolding total_def by blast

section \<open>Acknowledgements can be trusted\<close>

lemma firmware_layer_handled:
  assumes "\<not> k_bootloader kb"
  shows "firmware_handler F core (query_report SILAKKA54_SYNC_LAYER SILAKKA54_SYNC_VERSION target) kb =
    (let valid = target < fw_layer_count F;
         (reports, kb') = (if valid then layer_move target kb else ([], kb))
     in (reports @ [pad_report ([0x02, SILAKKA54_SYNC_LAYER, SILAKKA54_SYNC_VERSION, target] @
                SILAKKA54_SYNC_MAGIC @ [if valid then 0 else 1, k_layer kb'])], kb'))"
  using assms
  by (simp add: firmware_handler_def via_command_kb_def query_not_layer_query query_report_simps hid_constants
      Let_def split: prod.splits)

definition layer_ack :: "byte list \<Rightarrow> bool" where
  "layer_ack q \<longleftrightarrow> q ! 0 = 0x02 \<and> q ! 1 = SILAKKA54_SYNC_LAYER \<and> q ! 11 = 0"

definition no_layer_ack :: "'c keyboard \<Rightarrow> byte list list \<Rightarrow> bool" where
  "no_layer_ack kb queue \<longleftrightarrow> (\<forall>q \<in> set queue. length q = 32 \<and> \<not> layer_ack q)"

lemma layer_ack_effective:
  assumes inv: "link_inv no_layer_ack s"
    and run: "set_active_layer (link_transport (firmware_handler F core)) target s = Some (Inr (), s')"
  shows "k_layer (l_kb s') = target \<and> target < fw_layer_count F"
proof -
  let ?h = "firmware_handler F core" and ?rep = "query_report SILAKKA54_SYNC_LAYER SILAKKA54_SYNC_VERSION target"
  define moved where "moved kb \<longleftrightarrow> k_layer kb = target \<and> target < fw_layer_count F" for kb :: "'a keyboard"
  define R where "R q kb \<longleftrightarrow> length q = 32 \<and> (layer_ack q \<longrightarrow> moved kb)" for q kb
  define J where "J kb queue \<longleftrightarrow> (\<forall>q \<in> set queue. R q kb)" for kb queue
  have K: "keeps (link_transport ?h) ?rep (link_inv J) (\<lambda>bytes s. R bytes (l_kb s))"
  proof (rule link_keeps)
    fix kb queue replies kb'
    assume J: "J kb queue" and h: "?h ?rep kb = (replies, kb')"
    have "R q kb'" if "q \<in> set (queue @ replies)" for q
    proof (cases "k_bootloader kb")
      case True
      then show ?thesis using h that J by (simp add: firmware_handler_def J_def)
    next
      case False
      show ?thesis
        using h that J layer_report_ok
        by (auto simp: firmware_layer_handled [OF False] J_def R_def moved_def layer_ack_def layer_move_def Let_def
            unsolicited_ok_def pad_report_def nth_append SILAKKA54_SYNC_MAGIC_def split: if_splits)
    qed
    then show "J kb' (queue @ replies)" by (simp add: J_def)
  next
    show "\<And>kb bytes. unsolicited_ok bytes \<Longrightarrow> R bytes kb"
      by (simp add: unsolicited_ok_def R_def layer_ack_def)
  qed (simp_all add: J_def)
  have I0: "link_inv J s" using inv by (simp add: link_inv_def J_def R_def no_layer_ack_def)
  obtain r where r: "raw_transaction (link_transport ?h) ?rep ID_GET_KEYBOARD_VALUE one_second s = Some (Inr r, s')"
    and ok: "r ! 1 = SILAKKA54_SYNC_LAYER" "r ! 11 = 0"
    using run by (auto simp: set_active_layer_def io_bind_eq_Some transact_eq io_fail_def io_return_def split: if_splits)
  obtain bytes where b: "R bytes (l_kb s')" "accept_report ?rep ID_GET_KEYBOARD_VALUE bytes = Some r"
    using transaction_keeps(2) [OF r K I0] by blast
  then have "r = bytes" "r ! 0 = 0x02"
    by (auto simp: R_def accept_report_Some normalize_32 ID_GET_KEYBOARD_VALUE_def)
  then show ?thesis using b(1) ok by (auto simp: R_def layer_ack_def moved_def)
qed

text \<open>
  When a layer request is acknowledged, whatever the link lost, delayed or duplicated, the
  keyboard's highest layer is the requested one, and the firmware has that layer.
\<close>
theorem set_active_layer_effective:
  assumes quiet: "quiet s" and fresh: "l_queue s = []"
    and run: "set_active_layer (link_transport (firmware_handler F core)) target s = Some (Inr (), s')"
  shows "k_layer (l_kb s') = target \<and> target < fw_layer_count F"
  by (rule layer_ack_effective [OF _ run]) (simp add: link_inv_def no_layer_ack_def quiet fresh)

lemma firmware_boot_handled:
  assumes "\<not> k_bootloader kb"
  shows "firmware_handler F core (query_report SILAKKA54_SYNC_BOOTLOADER SILAKKA54_SYNC_VERSION 0) kb =
    ([pad_report ([0x02, SILAKKA54_SYNC_BOOTLOADER, SILAKKA54_SYNC_VERSION] @ SILAKKA54_SYNC_MAGIC)],
     kb\<lparr>k_bootloader := True\<rparr>)"
  using assms
  by (simp add: firmware_handler_def via_command_kb_def query_not_layer_query query_report_simps hid_constants)

text \<open>
  When a bootloader request is acknowledged, the keyboard has entered its bootloader.
\<close>
theorem bootloader_jump_effective:
  assumes quiet: "quiet s" and fresh: "l_queue s = []"
    and run: "silakka54_bootloader_jump (link_transport (firmware_handler F core)) s = Some (Inr (), s')"
  shows "k_bootloader (l_kb s')"
proof -
  let ?h = "firmware_handler F core" and ?rep = "query_report SILAKKA54_SYNC_BOOTLOADER SILAKKA54_SYNC_VERSION 0"
  define R where "R q kb \<longleftrightarrow> length q = 32 \<and> (q ! 0 = 0x02 \<longrightarrow> k_bootloader kb)" for q :: "byte list" and kb :: "'a keyboard"
  define J where "J kb queue \<longleftrightarrow> (\<forall>q \<in> set queue. R q kb)" for kb queue
  have K: "keeps (link_transport ?h) ?rep (link_inv J) (\<lambda>bytes s. R bytes (l_kb s))"
  proof (rule link_keeps)
    fix kb queue replies kb'
    assume J: "J kb queue" and h: "?h ?rep kb = (replies, kb')"
    show "J kb' (queue @ replies)"
    proof (cases "k_bootloader kb")
      case True
      then show ?thesis using h J by (simp add: firmware_handler_def J_def)
    next
      case False
      then show ?thesis using h J by (auto simp: firmware_boot_handled J_def R_def)
    qed
  next
    show "\<And>kb bytes. unsolicited_ok bytes \<Longrightarrow> R bytes kb"
      by (simp add: unsolicited_ok_def R_def)
  qed (simp_all add: J_def)
  have I0: "link_inv J s" using quiet fresh by (simp add: link_inv_def J_def)
  obtain r where r: "raw_transaction (link_transport ?h) ?rep ID_GET_KEYBOARD_VALUE one_second s = Some (Inr r, s')"
    using run by (auto simp: silakka54_bootloader_jump_def io_bind_eq_Some transact_eq io_fail_def io_return_def split: if_splits)
  obtain bytes where b: "R bytes (l_kb s')" "accept_report ?rep ID_GET_KEYBOARD_VALUE bytes = Some r"
    using transaction_keeps(2) [OF r K I0] by blast
  then show ?thesis
    by (auto simp: R_def accept_report_Some normalize_32 ID_GET_KEYBOARD_VALUE_def)
qed

lemma sample_link_state: "calm (sample_link [] [])" "\<not> k_bootloader (l_kb (sample_link [] []))"
  "k_reported (l_kb (sample_link [] [])) = 0" "l_queue (sample_link [] []) = []" "quiet (sample_link [] [])"
  by (simp_all add: calm_def sample_link_def sample_keyboard_def quiet_def)

theorem bootloader_jump_effective_witness:
  "\<exists>s'. silakka54_bootloader_jump (link_transport sample_handler) (sample_link [] []) = Some (Inr (), s') \<and>
     k_bootloader (l_kb s')"
proof -
  let ?rep = "query_report SILAKKA54_SYNC_BOOTLOADER SILAKKA54_SYNC_VERSION 0"
  let ?ack = "pad_report ([0x02, SILAKKA54_SYNC_BOOTLOADER, SILAKKA54_SYNC_VERSION] @ SILAKKA54_SYNC_MAGIC)"
  have acc: "accept_report ?rep ID_GET_KEYBOARD_VALUE ?ack = Some ?ack"
    by (simp add: accept_report_Some normalize_32 response_matches_request_def query_report_simps hid_constants pad_nth)
  have ack: "?ack ! 1 = SILAKKA54_SYNC_BOOTLOADER" "?ack ! 2 = SILAKKA54_SYNC_VERSION" "slice 3 10 ?ack = SILAKKA54_SYNC_MAGIC"
    by (simp_all add: pad_report_def slice_def SILAKKA54_SYNC_MAGIC_def)
  obtain s' where "transact (link_transport sample_handler) ?rep ID_GET_KEYBOARD_VALUE (sample_link [] []) = Some (Inr ?ack, s')"
    using transact_calm [of "sample_link [] []" sample_handler ?rep ?ack _ ID_GET_KEYBOARD_VALUE ?ack]
      sample_link_state firmware_boot_handled [OF sample_link_state(2), of sample_image sample_core] acc by blast
  then have run: "silakka54_bootloader_jump (link_transport sample_handler) (sample_link [] []) = Some (Inr (), s')"
    using ack ack(1) [unfolded One_nat_def] by (simp add: silakka54_bootloader_jump_def io_bind_def io_return_def)
  show ?thesis
    using run bootloader_jump_effective [OF sample_link_state(5) sample_link_state(4) run] by blast
qed

lemma set_active_layer_calm:
  assumes "calm s" "\<not> k_bootloader (l_kb s)" "k_reported (l_kb s) = target" "target < fw_layer_count F"
  shows "\<exists>s'. set_active_layer (link_transport (firmware_handler F core)) target s = Some (Inr (), s')"
proof -
  let ?rep = "query_report SILAKKA54_SYNC_LAYER SILAKKA54_SYNC_VERSION target"
  let ?ack = "pad_report ([0x02, SILAKKA54_SYNC_LAYER, SILAKKA54_SYNC_VERSION, target] @ SILAKKA54_SYNC_MAGIC @ [0, target])"
  have acc: "accept_report ?rep ID_GET_KEYBOARD_VALUE ?ack = Some ?ack"
    by (simp add: accept_report_Some normalize_32 response_matches_request_def query_report_simps hid_constants pad_nth)
  have ack: "?ack ! 1 = SILAKKA54_SYNC_LAYER" "?ack ! 2 = SILAKKA54_SYNC_VERSION" "?ack ! 3 = target"
    "slice 4 11 ?ack = SILAKKA54_SYNC_MAGIC" "?ack ! 11 = 0" "?ack ! 12 = target"
    by (simp_all add: pad_report_def slice_def SILAKKA54_SYNC_MAGIC_def)
  obtain kb' where h: "firmware_handler F core ?rep (l_kb s) = ([?ack], kb')"
    using firmware_layer_handled [OF assms(2), of F core target] assms(3,4) by (simp add: layer_move_def)
  obtain s' where "transact (link_transport (firmware_handler F core)) ?rep ID_GET_KEYBOARD_VALUE s = Some (Inr ?ack, s')"
    using transact_calm [of s "firmware_handler F core" ?rep ?ack kb' ID_GET_KEYBOARD_VALUE ?ack] assms(1) h acc by blast
  then show ?thesis
    using ack ack(1) [unfolded One_nat_def] by (simp add: set_active_layer_def io_bind_def io_return_def)
qed

theorem set_active_layer_effective_witness:
  "\<exists>s'. set_active_layer (link_transport sample_handler) 0 (sample_link [] []) = Some (Inr (), s') \<and>
     k_layer (l_kb s') = 0"
proof -
  obtain s' where run: "set_active_layer (link_transport sample_handler) 0 (sample_link [] []) = Some (Inr (), s')"
    using set_active_layer_calm [of "sample_link [] []" 0 sample_image sample_core] sample_link_state
    by (auto simp: sample_image_def)
  then show ?thesis
    using set_active_layer_effective [OF sample_link_state(5) sample_link_state(4) run] by blast
qed

end
