(* ===== verification/Sync_Config.thy ===== *)
theory Sync_Config
  imports Sync_Commands Device_Protocol
begin

text \<open>
  The \<open>config\<close> commands of \<open>packages/silakka54/sync/src/main.rs\<close>: validating a configuration,
  listing QMK options, comparing with the packaged configuration, and the snapshot of the
  live keyboard. What a snapshot records resolves back to the keycodes it read.
\<close>

section \<open>Validate, options, diff\<close>

definition config_validate :: "build \<Rightarrow> 'w host \<Rightarrow> string \<Rightarrow> ('w, sync_error, unit) io" where
  "config_validate B H path =
     io_bind (load_configuration H path) (\<lambda>config.
     io_bind (load_catalog B H) (\<lambda>catalog.
     io_bind (io_lift (map_err ConfigError (validate_configuration config catalog))) (\<lambda>_.
     io_bind (load_configuration_entries B H path) (\<lambda>_. io_return ()))))"

definition selected_options :: "qmk_catalog \<Rightarrow> string option \<Rightarrow> (string \<times> json) list" where
  "selected_options catalog search =
     filter (\<lambda>(name, _). case search of None \<Rightarrow> True | Some term \<Rightarrow> contains name term) (options catalog)"

text \<open>A line of the listing: name, kind and type.\<close>

definition option_line :: "string \<times> json \<Rightarrow> string \<times> string \<times> string" where
  "option_line = (\<lambda>(name, metadata).
     (name,
      case Option.bind (json_get ''kind'' metadata) as_str of Some kind \<Rightarrow> kind | None \<Rightarrow> ''define'',
      case Option.bind (json_get ''type'' metadata) as_str of Some t \<Rightarrow> t | None \<Rightarrow> ''unknown''))"

definition config_options :: "build \<Rightarrow> 'w host \<Rightarrow> string option \<Rightarrow> ('w, sync_error, (string \<times> json) list) io" where
  "config_options B H search =
     io_bind (load_catalog B H) (\<lambda>catalog. io_return (selected_options catalog search))"

text \<open>Whether the live state and the firmware settings equal those of the packaged configuration.\<close>

definition config_diff :: "build \<Rightarrow> 'w host \<Rightarrow> string \<Rightarrow> ('w, sync_error, bool \<times> bool) io" where
  "config_diff B H path =
     io_bind (load_configuration H path) (\<lambda>candidate.
     io_bind (load_catalog B H) (\<lambda>catalog.
     io_bind (io_lift (map_err ConfigError (validate_configuration candidate catalog))) (\<lambda>_.
     io_bind (load_configuration H (CONFIGURATION_PATH B)) (\<lambda>packaged.
     io_return (via candidate = via packaged, qmk candidate = qmk packaged)))))"

section \<open>Snapshot\<close>

definition entries_of_layer :: "key_entry list \<Rightarrow> nat \<Rightarrow> key_entry list" where
  "entries_of_layer entries layer_index = filter (\<lambda>e. unat (entry_layer e) = layer_index) entries"

definition describe_live :: "string list \<Rightarrow> qmk_catalog \<Rightarrow> u16 \<Rightarrow> (sync_error, string) res" where
  "describe_live layer_ids catalog keycode =
     map_err DescribeError (describe_keycode keycode layer_ids (keycodes catalog))"

definition snapshot_layer ::
  "'w transport \<Rightarrow> key_entry list \<Rightarrow> string list \<Rightarrow> qmk_catalog \<Rightarrow> nat \<times> configured_layer \<Rightarrow>
   ('w, sync_error, string list) io" where
  "snapshot_layer device entries layer_ids catalog = (\<lambda>(layer_index, layer).
     io_bind (io_map (\<lambda>entry.
         io_bind (io_map_err DeviceError (get_keycode device (entry_position entry))) (\<lambda>keycode.
         io_lift (describe_live layer_ids catalog keycode)))
       (entries_of_layer entries layer_index)) (\<lambda>keys.
     if length keys \<noteq> length (layer_keys layer) then io_fail (UnexpectedShape (layer_name layer))
     else io_return keys))"

definition with_keys :: "configured_layer \<times> string list \<Rightarrow> configured_layer" where
  "with_keys = (\<lambda>(layer, keys). layer\<lparr>layer_keys := keys\<rparr>)"

text \<open>The configuration with the layers replaced in order by what was read.\<close>

definition replace_layers :: "configuration \<Rightarrow> string list list \<Rightarrow> configuration" where
  "replace_layers config live =
     config\<lparr>via := (via config)\<lparr>layers := map with_keys (zip (layers (via config)) live)\<rparr>\<rparr>"

definition snapshot_device ::
  "build_hashes \<Rightarrow> configuration \<Rightarrow> key_entry list \<Rightarrow> qmk_catalog \<Rightarrow> 'w transport \<Rightarrow>
   ('w, sync_error, configuration) io" where
  "snapshot_device hs config entries catalog device =
     io_bind (io_map_err DeviceError (firmware_status device)) (\<lambda>firmware.
     if \<not> abi_matches hs firmware then io_fail FirmwareAbiIncompatible
     else
       io_bind (io_map (snapshot_layer device entries (map layer_id (layers (via config))) catalog)
         (enumerate 0 (layers (via config)))) (\<lambda>live_layers.
       let config = replace_layers config live_layers in
       io_bind (io_map_err DeviceError (get_layout_options device)) (\<lambda>layout.
       io_bind (io_map_err DeviceError (macro_capacity device)) (\<lambda>capacity.
       io_bind (io_map_err DeviceError (macro_buffer_size device)) (\<lambda>size'.
       io_bind (io_map_err DeviceError (get_macro_buffer device size')) (\<lambda>buffer.
       io_bind (io_lift (map_err SnapshotMacroError (decode_macro_buffer buffer capacity))) (\<lambda>live_macros.
       let config = config\<lparr>via := (via config)\<lparr>layout_options := layout, macros := live_macros\<rparr>\<rparr> in
       io_bind (io_lift (map_err ConfigError (validate_configuration config catalog))) (\<lambda>_.
       io_return config))))))))"

definition write_snapshot :: "'w host \<Rightarrow> string option \<Rightarrow> string \<Rightarrow> ('w, sync_error, unit) io" where
  "write_snapshot H output rendered =
    (case output of
       None \<Rightarrow> io_return ()
     | Some path \<Rightarrow>
         io_bind (io_map_err HostError (host_write H (temporary_path H path) rendered)) (\<lambda>_.
         io_map_err HostError (host_rename H (temporary_path H path) path)))"

definition snapshot_live_command ::
  "build \<Rightarrow> 'w host \<Rightarrow> string \<Rightarrow> string option \<Rightarrow> ('w, sync_error, configuration) io" where
  "snapshot_live_command B H config_path output =
     io_bind (load_configuration H config_path) (\<lambda>config.
     io_bind (load_configuration_entries B H config_path) (\<lambda>entries.
     io_bind (load_catalog B H) (\<lambda>catalog.
     io_bind (via_devices H) (\<lambda>devices.
     io_bind (io_lift (single_device devices)) (\<lambda>descriptor.
     io_bind (io_map_err DeviceError (open_hid H descriptor)) (\<lambda>device.
     io_bind (snapshot_device (hashes B) config entries catalog device) (\<lambda>snapshot.
     io_bind (io_lift (map_err HostError (print_configuration H snapshot))) (\<lambda>rendered.
     io_bind (write_snapshot H output (rendered @ newline)) (\<lambda>_.
     io_return snapshot)))))))))"

section \<open>What a snapshot records\<close>

lemma io_map_Cons_Inr:
  "io_map g (x # xs) s = Some (Inr ys, s') \<longleftrightarrow>
   (\<exists>y s1 zs. g x s = Some (Inr y, s1) \<and> io_map g xs s1 = Some (Inr zs, s') \<and> ys = y # zs)"
  by (auto simp: io_bind_eq_Some io_return_app)

lemma read_one_Inr:
  "io_bind (io_map_err d m) (\<lambda>v. io_lift (f v)) s = Some (Inr y, s') \<longleftrightarrow> (\<exists>v. m s = Some (Inr v, s') \<and> f v = Inr y)"
  by (auto simp: io_bind_eq_Some io_map_err_eq_Some io_lift_app)

context keycode_store
begin

lemma read_all:
  "io_map (\<lambda>e. io_bind (io_map_err d (get (pos e))) (\<lambda>v. io_lift (f v))) es s = Some (Inr ys, s') \<Longrightarrow>
   ready G S s \<Longrightarrow> distinct (map pos es) \<Longrightarrow> pos ` set es \<subseteq> G \<Longrightarrow>
   keys s' = keys s \<and> ready (G - pos ` set es) S s' \<and> map_res (\<lambda>e. f (keys s (pos e))) es = Inr ys"
proof (induction es arbitrary: s ys G)
  case Nil
  then show ?case by (simp add: io_return_def)
next
  case (Cons e es)
  from Cons.prems(1) obtain v s1 y zs where v: "get (pos e) s = Some (Inr v, s1)" "f v = Inr y"
      "io_map (\<lambda>e. io_bind (io_map_err d (get (pos e))) (\<lambda>v. io_lift (f v))) es s1 = Some (Inr zs, s')" "ys = y # zs"
    unfolding io_map_Cons_Inr read_one_Inr by blast
  have law: "keys s1 = keys s" "ready (G - {pos e}) S s1" "v = keys s (pos e)"
    using get_law [OF Cons.prems(2) _ v(1)] Cons.prems(4) by auto
  have "pos ` set es \<subseteq> G - {pos e}" "distinct (map pos es)"
    using Cons.prems(3,4) by (auto simp: subset_Diff_insert)
  from Cons.IH [OF v(3) law(2) this(2,1)] law v(2,4) show ?case
    by (simp add: insert_Diff_if Diff_insert2 [symmetric])
qed

end

text \<open>The abstract snapshot: what describes the keymap \<open>K\<close> on one layer.\<close>

definition snapshot_keys ::
  "(position \<Rightarrow> u16) \<Rightarrow> string list \<Rightarrow> qmk_catalog \<Rightarrow> key_entry list \<Rightarrow> nat \<Rightarrow> (sync_error, string list) res" where
  "snapshot_keys K layer_ids catalog entries layer_index =
     map_res (\<lambda>e. describe_live layer_ids catalog (K (entry_position e))) (entries_of_layer entries layer_index)"

lemma entries_of_layer_set: "set (entries_of_layer entries i) = {e \<in> set entries. unat (entry_layer e) = i}"
  by (auto simp: entries_of_layer_def)

lemma snapshot_layer_link:
  assumes "snapshot_layer (link_transport h) entries ids catalog (i, layer) s = Some (Inr keys, s')"
    and "link_ready h km D G S s" "distinct (map entry_position entries)"
    and "entry_position ` set (entries_of_layer entries i) \<subseteq> G"
  shows "km (l_kb s') = km (l_kb s) \<and> link_ready h km D (G - entry_position ` set (entries_of_layer entries i)) S s' \<and>
    snapshot_keys (km (l_kb s)) ids catalog entries i = Inr keys \<and> length keys = length (layer_keys layer)"
proof -
  have d: "distinct (map entry_position (entries_of_layer entries i))"
    unfolding entries_of_layer_def by (rule distinct_map_filter [OF assms(3)])
  from assms(1) have "io_map (\<lambda>e. io_bind (io_map_err DeviceError (get_keycode (link_transport h) (entry_position e)))
        (\<lambda>v. io_lift (describe_live ids catalog v))) (entries_of_layer entries i) s = Some (Inr keys, s')"
    and len: "length keys = length (layer_keys layer)"
    by (auto simp: snapshot_layer_def io_bind_eq_Some io_fail_def io_return_def split: if_splits)
  from link_store.read_all [OF this(1) assms(2) d assms(4)] len show ?thesis
    by (simp add: snapshot_keys_def)
qed

lemma snapshot_layers_link:
  "io_map (snapshot_layer (link_transport h) entries ids catalog) (enumerate n ls) s = Some (Inr live, s') \<Longrightarrow>
   link_ready h km D G S s \<Longrightarrow> distinct (map entry_position entries) \<Longrightarrow>
   (\<And>e. e \<in> set entries \<Longrightarrow> n \<le> unat (entry_layer e) \<Longrightarrow> entry_position e \<in> G) \<Longrightarrow>
   km (l_kb s') = km (l_kb s) \<and> length live = length ls \<and>
   (\<forall>i < length ls. snapshot_keys (km (l_kb s)) ids catalog entries (n + i) = Inr (live ! i) \<and>
      length (live ! i) = length (layer_keys (ls ! i)))"
proof (induction ls arbitrary: n s live G)
  case Nil
  then show ?case by (simp add: io_return_def)
next
  case (Cons l ls)
  let ?P = "entry_position ` set (entries_of_layer entries n)"
  from Cons.prems(1) obtain keys s1 rest where one: "snapshot_layer (link_transport h) entries ids catalog (n, l) s = Some (Inr keys, s1)"
      and more: "io_map (snapshot_layer (link_transport h) entries ids catalog) (enumerate (Suc n) ls) s1 = Some (Inr rest, s')"
      and live: "live = keys # rest"
    by (auto simp: io_bind_eq_Some io_return_def)
  have P: "?P \<subseteq> G" using Cons.prems(4) by (auto simp: entries_of_layer_set)
  note l = snapshot_layer_link [OF one Cons.prems(2,3) P]
  have "entry_position e \<in> G - ?P" if "e \<in> set entries" "Suc n \<le> unat (entry_layer e)" for e
    using that Cons.prems(4) by (auto simp: entries_of_layer_set entry_position_def)
  from Cons.IH [OF more _ Cons.prems(3) this] l
  have "km (l_kb s') = km (l_kb s)" "length rest = length ls"
    "\<And>i. i < length ls \<Longrightarrow> snapshot_keys (km (l_kb s)) ids catalog entries (Suc n + i) = Inr (rest ! i) \<and>
      length (rest ! i) = length (layer_keys (ls ! i))"
    by (metis (no_types, lifting))+
  with l show ?case by (auto simp: live nth_Cons split: nat.splits)
qed

lemma snapshot_device_parts:
  assumes "snapshot_device hs config entries catalog T s = Some (Inr snap, s')"
  obtains firmware s1 live s2 where "firmware_status T s = Some (Inr firmware, s1)" "abi_matches hs firmware"
    "io_map (snapshot_layer T entries (map layer_id (layers (via config))) catalog)
       (enumerate 0 (layers (via config))) s1 = Some (Inr live, s2)"
    "layers (via snap) = map with_keys (zip (layers (via config)) live)"
    "validate_configuration snap catalog = Inr ()"
  using assms
  by (auto simp: snapshot_device_def Let_def io_bind_eq_Some io_map_err_eq_Some io_fail_def io_return_def io_lift_app
      replace_layers_def split: if_splits)


text \<open>
  What a snapshot records is what the keyboard holds: when it is expanded again, each key
  of the recorded layers resolves to the keycode the keyboard has at that position, so
  applying a snapshot changes nothing. The exceptions are mod-tap keycodes without a
  modifier and display names that shadow a layer identifier.
\<close>
theorem snapshot_reapplies:
  assumes "snapshot_keys K (map layer_id (layers (via snap))) catalog entries i = Inr (layer_keys (layers (via snap) ! i))"
    and "catalog_ok (keycodes catalog)"
    and "layer_table_ok (map layer_id (layers (via snap))) (layer_table (layers (via snap)))"
    and "\<And>p. K p AND 0xe000 = 0x2000 \<Longrightarrow> drop_bit 8 (K p) AND 0x0f \<noteq> 0"
  shows "map_res (resolve_in snap catalog) (layer_keys (layers (via snap) ! i)) =
    Inr (map (\<lambda>e. K (entry_position e)) (entries_of_layer entries i))"
proof -
  have "resolve_in snap catalog label = Inr (K p)"
    if "describe_live (map layer_id (layers (via snap))) catalog (K p) = Inr label" for p label
  proof -
    from that have "describe_keycode (K p) (map layer_id (layers (via snap))) (keycodes catalog) = Inr label"
      by (simp add: describe_live_def)
    from describe_resolves [OF this assms(2,3,4)] show ?thesis by (simp add: resolve_in_def)
  qed
  then show ?thesis
    using assms(1)
    by (auto simp: snapshot_keys_def map_res_Inr_iff list_all2_conv_all_nth)
qed

section \<open>A snapshot taken\<close>

definition snapshot_core :: "(position \<Rightarrow> u16) handler" where
  "snapshot_core data m =
    (if data ! 0 \<in> {ID_GET_PROTOCOL_VERSION, ID_GET_KEYBOARD_VALUE, ID_DYNAMIC_KEYMAP_MACRO_GET_COUNT, ID_DYNAMIC_KEYMAP_MACRO_GET_BUFFER_SIZE}
     then ([(take 32 (data @ replicate 32 0))[0 := data ! 0]], m) else sample_core data m)"

definition snapshot_handler :: "(position \<Rightarrow> u16) keyboard handler" where
  "snapshot_handler = firmware_handler sample_image snapshot_core"

definition snapshot_link :: "(position \<Rightarrow> u16) keyboard link" where
  "snapshot_link = \<lparr>l_kb = sample_keyboard\<lparr>k_core := (\<lambda>_. 4)\<rparr>, l_queue = [], l_clock = 0, l_lost = [], l_events = []\<rparr>"

definition snapshot_config :: configuration where
  "snapshot_config =
     (let c = sample_configuration [sample_layer ''_A'' ''Base'' ''KC_A''] 2 in c\<lparr>qmk := (qmk c)\<lparr>combos := []\<rparr>\<rparr>)"

definition serving :: "'c keyboard link \<Rightarrow> bool" where
  "serving s \<longleftrightarrow> calm s \<and> \<not> k_bootloader (l_kb s)"

definition holds_a :: "(position \<Rightarrow> u16) keyboard link \<Rightarrow> bool" where
  "holds_a s \<longleftrightarrow> serving s \<and> k_core (l_kb s) = (\<lambda>_. 4) \<and> k_reported (l_kb s) = 0"

lemma snapshot_core_keymap: "via_keymap snapshot_core (\<lambda>m. m) UNIV"
  using sample_via_keymap unfolding via_keymap_def
  by (auto simp: snapshot_core_def get_report_bytes set_report_bytes hid_constants)

lemma snapshot_handler_keymap: "via_keymap snapshot_handler (\<lambda>kb. k_core kb) UNIV"
  unfolding snapshot_handler_def by (rule firmware_via_keymap [OF snapshot_core_keymap sample_firmware(2)])

lemma ask:
  assumes "serving s" "snapshot_handler report (l_kb s) = ([q], l_kb s)" "accept_report report c q = Some r"
  shows "\<exists>s'. transact (link_transport snapshot_handler) report c s = Some (Inr r, s') \<and> serving s' \<and> l_kb s' = l_kb s"
  using transact_calm [of s snapshot_handler report q "l_kb s" c r] assms by (auto simp: serving_def)

lemma ask_echo:
  assumes "serving s" "report ! 0 \<in> {ID_GET_PROTOCOL_VERSION, ID_DYNAMIC_KEYMAP_MACRO_GET_COUNT, ID_DYNAMIC_KEYMAP_MACRO_GET_BUFFER_SIZE} \<or>
      report = (command_report ID_GET_KEYBOARD_VALUE)[1 := ID_LAYOUT_OPTIONS]" "length report = 32"
    "accept_report report c report = Some report"
  shows "\<exists>s'. transact (link_transport snapshot_handler) report c s = Some (Inr report, s') \<and> serving s' \<and> l_kb s' = l_kb s"
proof (rule ask [OF assms(1) _ assms(4)])
  have "via_command_kb sample_image report (l_kb s) = None"
  proof (cases "report = (command_report ID_GET_KEYBOARD_VALUE)[1 := ID_LAYOUT_OPTIONS]")
    case True
    have "take 6 report \<noteq> REPORT_MAGIC" "report ! 2 \<noteq> SILAKKA54_SYNC_VERSION"
      unfolding True by code_simp+
    then show ?thesis by (auto simp: via_command_kb_def)
  next
    case False
    then show ?thesis using assms(2) by (intro via_command_other) (auto simp: hid_constants)
  qed
  then show "snapshot_handler report (l_kb s) = ([report], l_kb s)"
    using assms(1-3)
    by (auto simp: snapshot_handler_def firmware_handler_def serving_def snapshot_core_def hid_constants command_report_def)
qed

text \<open>The sample keyboard has no layout options and no room for macros.\<close>

lemma empty_via_state:
  assumes "serving s"
  shows "\<exists>s1 s2 s3. get_layout_options (link_transport snapshot_handler) s = Some (Inr 0, s1) \<and>
    macro_capacity (link_transport snapshot_handler) s1 = Some (Inr 0, s2) \<and>
    macro_buffer_size (link_transport snapshot_handler) s2 = Some (Inr 0, s3) \<and>
    get_macro_buffer (link_transport snapshot_handler) 0 s3 = Some (Inr [], s3) \<and> serving s3 \<and> l_kb s3 = l_kb s"
proof -
  let ?T = "link_transport snapshot_handler" and ?lay = "(command_report ID_GET_KEYBOARD_VALUE)[1 := ID_LAYOUT_OPTIONS]"
  let ?count = "command_report ID_DYNAMIC_KEYMAP_MACRO_GET_COUNT" and ?size = "command_report ID_DYNAMIC_KEYMAP_MACRO_GET_BUFFER_SIZE"
  have acc: "accept_report ?lay ID_GET_KEYBOARD_VALUE ?lay = Some ?lay"
    "accept_report ?count ID_DYNAMIC_KEYMAP_MACRO_GET_COUNT ?count = Some ?count"
    "accept_report ?size ID_DYNAMIC_KEYMAP_MACRO_GET_BUFFER_SIZE ?size = Some ?size"
    by code_simp+
  have byte: "command_report c ! 0 = c" "command_report c ! 1 = 0" "command_report c ! 2 = 0" "length (command_report c) = 32" for c
    by (simp_all add: command_report_def REPORT_LEN_def)
  obtain s1 where s1: "transact ?T ?lay ID_GET_KEYBOARD_VALUE s = Some (Inr ?lay, s1)" "serving s1" "l_kb s1 = l_kb s"
    using ask_echo [OF assms _ _ acc(1)] by (auto simp: byte)
  obtain s2 where s2: "transact ?T ?count ID_DYNAMIC_KEYMAP_MACRO_GET_COUNT s1 = Some (Inr ?count, s2)" "serving s2" "l_kb s2 = l_kb s1"
    using ask_echo [OF s1(2) _ _ acc(2)] by (auto simp: byte)
  obtain s3 where s3: "transact ?T ?size ID_DYNAMIC_KEYMAP_MACRO_GET_BUFFER_SIZE s2 = Some (Inr ?size, s3)" "serving s3" "l_kb s3 = l_kb s2"
    using ask_echo [OF s2(2) _ _ acc(3)] by (auto simp: byte)
  have lay: "be32 (?lay ! 2) (?lay ! 3) (?lay ! 4) (?lay ! 5) = 0" by code_simp
  have "get_layout_options ?T s = Some (Inr 0, s1)" "macro_capacity ?T s1 = Some (Inr 0, s2)"
    "macro_buffer_size ?T s2 = Some (Inr 0, s3)" "get_macro_buffer ?T 0 s3 = Some (Inr [], s3)"
    using lay s1 s2 s3 byte byte(2) [unfolded One_nat_def]
    by (simp_all add: get_layout_options_def macro_capacity_def macro_buffer_size_def get_macro_buffer_def
        chunk_offsets_def io_bind_def io_return_def be16_def)
  then show ?thesis using s1 s2 s3 by auto
qed

lemma ask_keycode:
  assumes "holds_a s"
  shows "\<exists>s'. get_keycode (link_transport snapshot_handler) p s = Some (Inr 4, s') \<and> holds_a s'"
proof -
  let ?q = "splice 4 (u16_bytes 4) (get_keycode_report p)"
  have h: "snapshot_handler (get_keycode_report p) (l_kb s) = ([?q], l_kb s)"
    using assms via_command_other [of "get_keycode_report p" sample_image "l_kb s"]
    by (simp add: snapshot_handler_def firmware_handler_def holds_a_def serving_def snapshot_core_def sample_core_get
        get_report_bytes hid_constants)
  have acc: "accept_report (get_keycode_report p) ID_DYNAMIC_KEYMAP_GET_KEYCODE ?q = Some ?q"
    by (rule accept_get [THEN iffD2])
      (simp_all add: splice_get_bytes splice_get_bytes(3) [unfolded One_nat_def] answers_get_def)
  obtain s' where "transact (link_transport snapshot_handler) (get_keycode_report p)
      ID_DYNAMIC_KEYMAP_GET_KEYCODE s = Some (Inr ?q, s')" "holds_a s'"
    using ask [OF _ h acc] assms by (force simp: holds_a_def)
  then show ?thesis by (simp add: get_keycode_def io_bind_def io_return_def splice_get_bytes)
qed

lemma io_map_all:
  "(\<And>x s. x \<in> set xs \<Longrightarrow> I s \<Longrightarrow> \<exists>s'. m x s = Some (Inr (f x), s') \<and> I s') \<Longrightarrow> I s \<Longrightarrow>
   \<exists>s'. io_map m xs s = Some (Inr (map f xs), s') \<and> I s'"
proof (induction xs arbitrary: s)
  case (Cons x xs)
  obtain s1 where s1: "m x s = Some (Inr (f x), s1)" "I s1" using Cons.prems by auto
  obtain s2 where "io_map m xs s1 = Some (Inr (map f xs), s2)" "I s2" using Cons.IH [OF _ s1(2)] Cons.prems(1) by auto
  with s1 show ?case by (simp add: io_bind_def io_return_def)
qed (simp add: io_return_def)

lemma snapshot_layer_taken:
  assumes "holds_a s"
  shows "\<exists>s'. io_map (snapshot_layer (link_transport snapshot_handler) sample_packaged [''_A''] sample_qmk_catalog)
      (enumerate 0 (layers (via snapshot_config))) s = Some (Inr [replicate 54 ''KC_A''], s') \<and> holds_a s'"
proof -
  let ?T = "link_transport snapshot_handler"
  have d: "describe_live [''_A''] sample_qmk_catalog 4 = Inr ''KC_A''" by code_simp
  have read: "\<exists>s'. io_bind (io_map_err DeviceError (get_keycode ?T (entry_position e)))
      (\<lambda>keycode. io_lift (describe_live [''_A''] sample_qmk_catalog keycode)) s = Some (Inr ''KC_A'', s') \<and> holds_a s'"
    if "holds_a s" for e s
    unfolding read_one_Inr using ask_keycode [OF that, of "entry_position e"] d by blast
  have len: "length (entries_of_layer sample_packaged 0) = 54" by code_simp
  have "\<exists>s'. io_map (\<lambda>e. io_bind (io_map_err DeviceError (get_keycode ?T (entry_position e)))
      (\<lambda>keycode. io_lift (describe_live [''_A''] sample_qmk_catalog keycode))) (entries_of_layer sample_packaged 0) s
      = Some (Inr (map (\<lambda>_. ''KC_A'') (entries_of_layer sample_packaged 0)), s') \<and> holds_a s'"
    by (rule io_map_all [where I = holds_a and f = "\<lambda>_. ''KC_A''", OF read assms])
  then obtain s' where r: "io_map (\<lambda>e. io_bind (io_map_err DeviceError (get_keycode ?T (entry_position e)))
      (\<lambda>keycode. io_lift (describe_live [''_A''] sample_qmk_catalog keycode))) (entries_of_layer sample_packaged 0) s
      = Some (Inr (replicate 54 ''KC_A''), s')" "holds_a s'"
    unfolding map_replicate_const len by blast
  have ls: "enumerate 0 (layers (via snapshot_config)) = [(0, sample_layer ''_A'' ''Base'' ''KC_A'')]"
    by (simp add: snapshot_config_def sample_configuration_def)
  have "snapshot_layer ?T sample_packaged [''_A''] sample_qmk_catalog (0, sample_layer ''_A'' ''Base'' ''KC_A'') s =
      Some (Inr (replicate 54 ''KC_A''), s')"
    unfolding snapshot_layer_def prod.case io_bind_def [of "io_map _ _"] r(1)
    by (simp add: sample_layer_def io_return_def)
  then show ?thesis using r(2) by (simp add: ls io_bind_def io_return_def)
qed

lemma snapshot_taken:
  "\<exists>snap s'. snapshot_device sample_hashes snapshot_config sample_packaged sample_qmk_catalog
     (link_transport snapshot_handler) snapshot_link = Some (Inr snap, s')"
proof -
  let ?T = "link_transport snapshot_handler" and ?c = snapshot_config
  have start: "holds_a snapshot_link"
    by (simp add: holds_a_def serving_def snapshot_link_def sample_keyboard_def calm_def)
  obtain s1 where s1: "firmware_status ?T snapshot_link = Some (Inr (image_status sample_image), s1)" "holds_a s1"
    using firmware_status_calm [OF sample_firmware(2), of snapshot_link snapshot_core] start
    by (auto simp: holds_a_def serving_def snapshot_handler_def)
  have abi: "abi_matches sample_hashes (image_status sample_image)" by code_simp
  have ids: "map layer_id (layers (via ?c)) = [''_A'']" by code_simp
  obtain s2 where s2: "io_map (snapshot_layer ?T sample_packaged [''_A''] sample_qmk_catalog)
      (enumerate 0 (layers (via ?c))) s1 = Some (Inr [replicate 54 ''KC_A''], s2)" "holds_a s2"
    using snapshot_layer_taken [OF s1(2)] by blast
  obtain s3 s4 s5 where rest: "get_layout_options ?T s2 = Some (Inr 0, s3)" "macro_capacity ?T s3 = Some (Inr 0, s4)"
    "macro_buffer_size ?T s4 = Some (Inr 0, s5)" "get_macro_buffer ?T 0 s5 = Some (Inr [], s5)"
    using empty_via_state [of s2] s2(2) by (auto simp: holds_a_def)
  let ?snap = "let c = replace_layers ?c [replicate 54 ''KC_A''] in c\<lparr>via := (via c)\<lparr>layout_options := 0, macros := []\<rparr>\<rparr>"
  have valid: "validate_configuration ?snap sample_qmk_catalog = Inr ()" by code_simp
  have dec: "decode_macro_buffer [] 0 = Inr []" by code_simp
  show ?thesis
    using s1 s2 rest abi valid dec
    by (simp add: snapshot_device_def ids io_bind_def io_map_err_def io_lift_def io_return_def Let_def)
qed


theorem snapshot_reapplies_witness:
  "map_res (resolve_in snapshot_config sample_qmk_catalog) [''KC_A'', ''MO(_A)''] = Inr [4, 0x5220]"
proof -
  let ?es = "[sample_entry 0 0 0 0, sample_entry 0 0 1 0]" and ?K = "\<lambda>p :: position. if p = (0, 0, 0) then 4 else 0x5220"
  let ?snap = "snapshot_config\<lparr>via := (via snapshot_config)\<lparr>layers :=
    [\<lparr>layer_id = ''_A'', layer_name = ''Base'', layer_keys = [''KC_A'', ''MO(_A)'']\<rparr>]\<rparr>\<rparr>"
  have "map_res (resolve_in ?snap sample_qmk_catalog) (layer_keys (layers (via ?snap) ! 0)) =
      Inr (map (\<lambda>e. ?K (entry_position e)) (entries_of_layer ?es 0))"
  proof (rule snapshot_reapplies)
    show "snapshot_keys ?K (map layer_id (layers (via ?snap))) sample_qmk_catalog ?es 0 = Inr (layer_keys (layers (via ?snap) ! 0))"
      "catalog_ok (keycodes sample_qmk_catalog)" by code_simp+
    show "layer_table_ok (map layer_id (layers (via ?snap))) (layer_table (layers (via ?snap)))"
      by (auto simp: layer_table_ok_def layer_table_def layer_pairs_def is_ident_def ident_char_def char_class_defs)
  qed (auto split: if_splits)
  moreover have "resolve_in ?snap = resolve_in snapshot_config"
    by (simp add: fun_eq_iff resolve_in_def snapshot_config_def sample_configuration_def sample_layer_def layer_table_def
        layer_pairs_def Let_def)
  ultimately show ?thesis
    by (simp add: entries_of_layer_def sample_entry_def entry_position_def)
qed

end
