(* ===== verification/Sync_Layer.thy ===== *)
theory Sync_Layer
  imports Sync_Config
begin

text \<open>
  The \<open>layer\<close> command end to end: from the name on the command line through the
  configuration, the unreliable link and the repository's firmware to the keyboard's layer.
\<close>

section \<open>Queries that leave no acknowledgement behind\<close>

lemma query_keeps_no_ack:
  assumes "image_ok F"
  shows "preserves (link_inv no_layer_ack) (transact (link_transport (firmware_handler F core))
    (query_report SILAKKA54_SYNC_QUERY SILAKKA54_SYNC_VERSION page) c)"
  unfolding transact_def
proof (rule preserves_map_err, unfold preserves_def, intro allI impI)
  fix s r s'
  let ?h = "firmware_handler F core" and ?rep = "query_report SILAKKA54_SYNC_QUERY SILAKKA54_SYNC_VERSION page"
  assume I: "link_inv no_layer_ack s" and run: "raw_transaction (link_transport ?h) ?rep c one_second s = Some (r, s')"
  have "keeps (link_transport ?h) ?rep (link_inv no_layer_ack) (\<lambda>bytes s. True)"
  proof (rule link_keeps)
    fix kb queue replies kb'
    assume J: "no_layer_ack kb queue" and h: "?h ?rep kb = (replies, kb')"
    show "no_layer_ack kb' (queue @ replies)"
    proof (cases "k_bootloader kb")
      case True
      then show ?thesis using h J by (simp add: firmware_handler_def no_layer_ack_def)
    next
      case False
      then show ?thesis
        using h J firmware_page_handled [OF False, of F core page] length_status_page [OF assms] status_page_bytes [OF assms]
        by (auto simp: no_layer_ack_def layer_ack_def hid_constants)
    qed
  qed (simp_all add: no_layer_ack_def)
  from transaction_keeps(1) [OF run this I] show "link_inv no_layer_ack s'" .
qed

lemma status_keeps_no_ack:
  "image_ok F \<Longrightarrow> preserves (link_inv no_layer_ack) (firmware_status (link_transport (firmware_handler F core)))"
  unfolding firmware_status_def firmware_status_page_def
  by (intro io_keeps query_keeps_no_ack)

lemma set_layer_moves:
  assumes "image_ok F" "quiet s" "l_queue s = []"
    and run: "set_layer_on hs target (link_transport (firmware_handler F core)) s = Some (Inr (), s')"
  shows "k_layer (l_kb s') = target \<and> target < fw_layer_count F"
proof -
  obtain firmware s1 where f: "firmware_status (link_transport (firmware_handler F core)) s = Some (Inr firmware, s1)"
      "set_active_layer (link_transport (firmware_handler F core)) target s1 = Some (Inr (), s')"
    using run by (auto simp: set_layer_on_def io_bind_eq_Some io_map_err_eq_Some io_fail_def split: if_splits)
  have "link_inv no_layer_ack s" using assms(2,3) by (simp add: link_inv_def no_layer_ack_def)
  from layer_ack_effective [OF preservesD [OF status_keeps_no_ack [OF assms(1)] f(1) this] f(2)] show ?thesis .
qed

section \<open>The command\<close>

text \<open>Any transaction keeps the link quiet.\<close>

lemma transact_quiet: "preserves quiet (transact (link_transport h) report c)"
  unfolding transact_def
proof (rule preserves_map_err, unfold preserves_def, intro allI impI)
  fix s r s'
  assume "quiet s" and run: "raw_transaction (link_transport h) report c one_second s = Some (r, s')"
  have "keeps (link_transport h) report (link_inv (\<lambda>_ _. True)) (\<lambda>bytes s. True)"
    by (rule link_keeps) simp_all
  from transaction_keeps(1) [OF run this] \<open>quiet s\<close> show "quiet s'" by (simp add: link_inv_def)
qed

text \<open>A host whose file system and device list do not disturb the link.\<close>

definition host_on_link :: "'k handler \<Rightarrow> 'k link host \<Rightarrow> bool" where
  "host_on_link h H \<longleftrightarrow>
     (\<forall>path s r s'. host_read H path s = Some (r, s') \<longrightarrow> s' = s) \<and>
     (\<forall>s r s'. host_hid H s = Some (r, s') \<longrightarrow> s' = s) \<and>
     (\<forall>path. host_open H path = link_open h)"

lemma open_quiet: "host_on_link h H \<Longrightarrow> preserves quiet (open_hid H d)"
  unfolding open_hid_def
  by (rule preserves_map_err) (auto simp: host_on_link_def preserves_def link_open_def quiet_def)

lemma answers_via_quiet:
  assumes "host_on_link h H"
  shows "preserves quiet (answers_via H d)"
proof -
  have "preserves quiet (io_bind (open_hid H d) via_protocol)"
    unfolding preserves_def io_bind_eq_Some
  proof (intro allI impI, elim disjE exE conjE)
    fix s r s' e assume "quiet s" "open_hid H d s = Some (Inl e, s')"
    then show "quiet s'" using preservesD [OF open_quiet [OF assms]] by blast
  next
    fix s r s' T s1
    assume s: "quiet s" and o: "open_hid H d s = Some (Inr T, s1)" and v: "via_protocol T s1 = Some (r, s')"
    have "T = link_transport h" "quiet s1"
      using o assms preservesD [OF open_quiet [OF assms] o s]
      by (auto simp: open_hid_def io_map_err_eq_Some host_on_link_def link_open_def)
    moreover have "preserves quiet (via_protocol (link_transport h))"
      unfolding via_protocol_def by (intro io_keeps transact_quiet)
    ultimately show "quiet s'" using v by (auto dest: preservesD)
  qed
  then show ?thesis unfolding answers_via_def by (intro preserves_bind [OF preserves_try] preserves_basic)
qed

lemma via_devices_quiet:
  assumes "host_on_link h H"
  shows "preserves quiet (via_devices H)"
proof -
  have hid: "preserves quiet (io_map_err HostError (host_hid H))"
    by (rule preserves_map_err) (use assms in \<open>unfold host_on_link_def preserves_def, metis\<close>)
  then show ?thesis
    unfolding via_devices_def list_raw_devices_def
    by (intro preserves_bind hid preserves_basic preserves_map answers_via_quiet [OF assms])
qed

text \<open>
  C18: \<open>silakka54-sync layer NAME\<close> end to end. When the command succeeds, the configuration
  names exactly the layer it reports, and, whatever the link lost, delayed or duplicated on
  the way, the keyboard's highest layer is that layer's index, which the firmware has.
\<close>
theorem layer_command_moves:
  assumes "layer_command B H requested s = Some (Inr (name, target), s')"
    and "host_on_link (firmware_handler F core) H" "image_ok F" "quiet s"
  shows "(\<exists>contents config. host_read H (CONFIGURATION_PATH B) s = Some (Inr contents, s) \<and>
      parse_configuration H contents = Inr config \<and> resolve_layer config requested = Inr (target, name)) \<and>
    k_layer (l_kb s') = target \<and> target < fw_layer_count F"
proof -
  let ?h = "firmware_handler F core"
  from assms(1) obtain config s1 devices s2 descriptor T s3 where
    load: "load_configuration H (CONFIGURATION_PATH B) s = Some (Inr config, s1)"
    and resolve: "resolve_layer config requested = Inr (target, name)"
    and devices: "via_devices H s1 = Some (Inr devices, s2)"
    and opened: "open_hid H descriptor s2 = Some (Inr T, s3)"
    and set_layer: "set_layer_on (hashes B) target T s3 = Some (Inr (), s')"
    by (auto simp: layer_command_def io_bind_eq_Some io_map_err_eq_Some io_lift_app io_return_app)
  from load obtain contents where c: "host_read H (CONFIGURATION_PATH B) s = Some (Inr contents, s1)"
      "parse_configuration H contents = Inr config"
    by (auto simp: load_configuration_def io_bind_eq_Some io_map_err_eq_Some io_lift_app)
  then have "s1 = s" using assms(2) by (auto simp: host_on_link_def)
  then have "quiet s2" using preservesD [OF via_devices_quiet [OF assms(2)] devices] assms(4) by simp
  moreover have "T = link_transport ?h" "s3 = s2\<lparr>l_queue := []\<rparr>"
    using opened assms(2) by (auto simp: open_hid_def io_map_err_eq_Some host_on_link_def link_open_def)
  ultimately have "k_layer (l_kb s') = target \<and> target < fw_layer_count F"
    using set_layer_moves [OF assms(3) _ _ set_layer [unfolded \<open>T = _\<close>]] by (simp add: quiet_def)
  with c resolve \<open>s1 = s\<close> show ?thesis by auto
qed

section \<open>A run of the command\<close>

definition layer_hid :: hid_info where
  "layer_hid = \<lparr>vendor_id = VID, product_id = PID, usage_page = RAW_USAGE_PAGE, usage = RAW_USAGE,
     product_string = None, interface_number = 1, hid_path = ''/dev/hidraw0''\<rparr>"

definition layer_host :: "(position \<Rightarrow> u16) keyboard link host" where
  "layer_host = \<lparr>host_read = (\<lambda>path. io_return ''{}''), host_write = (\<lambda>path contents. io_return ()),
     host_rename = (\<lambda>path path'. io_return ()), host_hid = io_return [layer_hid],
     host_open = (\<lambda>path. link_open snapshot_handler), parse_configuration = (\<lambda>contents. Inr snapshot_config),
     parse_catalog = (\<lambda>contents. Inr sample_qmk_catalog), print_configuration = (\<lambda>config. Inr ''{}''),
     temporary_path = (\<lambda>path. path)\<rparr>"

definition layer_build :: build where
  "layer_build = \<lparr>CONFIGURATION_PATH = ''configuration.json'', QMK_CATALOG_PATH = ''qmk.json'', KEYMAP_PATH = ''keymap.tsv'',
     hashes = \<lparr>EXPECTED_ABI_HASH = ''ABABABABABABABABAB'', EXPECTED_RUNTIME_HASH = ''010101010101010101'', EXPECTED_KEYMAP_HASH = ''02''\<rparr>\<rparr>"

lemma via_devices_single:
  assumes "serving s" "\<And>s. serving s \<Longrightarrow> open_hid H (descriptor_of layer_hid) s = Some (Inr (link_transport snapshot_handler), s)"
    and "\<And>s. host_hid H s = Some (Inr [layer_hid], s)"
  shows "\<exists>s'. via_devices H s = Some (Inr [descriptor_of layer_hid], s') \<and> serving s' \<and> l_kb s' = l_kb s"
proof -
  let ?T = "link_transport snapshot_handler" and ?d = "descriptor_of layer_hid" and ?q = "command_report ID_GET_PROTOCOL_VERSION"
  have raw: "raw_hid_devices [layer_hid] = [?d]"
    by (simp add: raw_hid_devices_def is_silakka54_def is_raw_interface_def layer_hid_def Let_def)
  have acc: "accept_report ?q ID_GET_PROTOCOL_VERSION ?q = Some ?q" by code_simp
  have byte: "command_report c ! 0 = c" "length (command_report c) = 32" for c
    by (simp_all add: command_report_def REPORT_LEN_def)
  obtain s1 where "transact ?T ?q ID_GET_PROTOCOL_VERSION s = Some (Inr ?q, s1)" and s1: "serving s1" "l_kb s1 = l_kb s"
    using ask_echo [OF assms(1) _ _ acc] by (auto simp: byte)
  then have "(answers_via H ?d :: (_, sync_error, _) io) s = Some (Inr True, s1)"
    by (simp add: answers_via_def io_try_def io_bind_def assms(2) [OF assms(1)] via_protocol_def io_return_def)
  then show ?thesis
    using raw assms(3) s1 by (simp add: via_devices_def list_raw_devices_def io_bind_def io_map_err_def io_return_def)
qed

lemma layer_run:
  "\<exists>s'. layer_command layer_build layer_host ''base'' snapshot_link = Some (Inr (''Base'', 0), s')"
proof -
  let ?T = "link_transport snapshot_handler" and ?d = "descriptor_of layer_hid"
  have start: "serving snapshot_link" "k_reported (l_kb snapshot_link) = 0"
    by (simp_all add: serving_def snapshot_link_def sample_keyboard_def calm_def)
  have opened: "open_hid layer_host d s = Some (Inr ?T, s)" if "serving s" for d s
    using that by (simp add: serving_def calm_def open_hid_def layer_host_def link_open_def io_map_err_def)
  have resolve: "resolve_layer snapshot_config ''base'' = Inr (0, ''Base'')" by code_simp
  have hid: "host_hid layer_host s = Some (Inr [layer_hid], s)" for s
    by (simp add: layer_host_def io_return_def)
  obtain s1 where devices: "via_devices layer_host snapshot_link = Some (Inr [?d], s1)" and s1: "serving s1" "k_reported (l_kb s1) = 0"
    using via_devices_single [OF start(1) opened hid] start(2) by auto
  obtain s2 where s2: "firmware_status ?T s1 = Some (Inr (image_status sample_image), s2)" "calm s2" "l_kb s2 = l_kb s1"
    using firmware_status_calm [OF sample_firmware(2), of s1 snapshot_core] s1
    by (auto simp: serving_def snapshot_handler_def)
  have current: "firmware_current (hashes layer_build) (image_status sample_image)" "\<not> layer_count (image_status sample_image) \<le> 0"
    by code_simp+
  have "\<exists>s3. set_active_layer ?T 0 s2 = Some (Inr (), s3)"
    unfolding snapshot_handler_def
    by (rule set_active_layer_calm) (use s1 s2 in \<open>auto simp: serving_def sample_image_def\<close>)
  then obtain s3 where "set_active_layer ?T 0 s2 = Some (Inr (), s3)" by blast
  then have set_layer: "set_layer_on (hashes layer_build) 0 ?T s1 = Some (Inr (), s3)"
    using s2 current by (simp add: set_layer_on_def io_bind_def io_map_err_def)
  have load: "load_configuration layer_host path s = Some (Inr snapshot_config, s)" for path s
    by (simp add: load_configuration_def layer_host_def io_bind_def io_map_err_def io_return_def io_lift_def)
  show ?thesis
    using load devices opened [OF s1(1)] set_layer resolve
    by (simp add: layer_command_def io_bind_def io_lift_def io_map_err_def io_return_def single_device_def)
qed

lemma layer_command_moves_witness:
  "\<exists>s'. layer_command layer_build layer_host ''base'' snapshot_link = Some (Inr (''Base'', 0), s') \<and>
    k_layer (l_kb s') = 0"
proof -
  obtain s' where run: "layer_command layer_build layer_host ''base'' snapshot_link = Some (Inr (''Base'', 0), s')"
    using layer_run by blast
  have host: "host_on_link (firmware_handler sample_image snapshot_core) layer_host"
    by (auto simp: host_on_link_def layer_host_def io_return_def snapshot_handler_def)
  have "quiet snapshot_link" by (simp add: quiet_def snapshot_link_def)
  from layer_command_moves [OF run host sample_firmware(2) this] run show ?thesis by blast
qed

end
