(* ===== verification/Sync_Apply.thy ===== *)
theory Sync_Apply
  imports Sync_Layer
begin

text \<open>
  The \<open>apply\<close> command end to end, from the configuration file to the keymap of the keyboard
  behind the unreliable link, over every request the command makes on the way.
\<close>

section \<open>Requests that leave the keymap alone\<close>

text \<open>
  QMK's dynamic keymap changes by the set request only. This is documented behaviour of the
  firmware, whose VIA implementation is not part of the repository.
\<close>

definition keymap_safe :: "'k handler \<Rightarrow> ('k \<Rightarrow> position \<Rightarrow> u16) \<Rightarrow> bool" where
  "keymap_safe h km \<longleftrightarrow>
     (\<forall>report kb. report ! 0 \<noteq> ID_DYNAMIC_KEYMAP_SET_KEYCODE \<longrightarrow> km (snd (h report kb)) = km kb)"

definition kept :: "('k \<Rightarrow> position \<Rightarrow> u16) \<Rightarrow> (position \<Rightarrow> u16) \<Rightarrow> 'k link \<Rightarrow> bool" where
  "kept km K s \<longleftrightarrow> quiet s \<and> km (l_kb s) = K"

lemma transact_kept:
  assumes "keymap_safe h km" "report ! 0 \<noteq> ID_DYNAMIC_KEYMAP_SET_KEYCODE"
  shows "preserves (kept km K) (transact (link_transport h) report c)"
  unfolding transact_def
proof (rule preserves_map_err, unfold preserves_def, intro allI impI)
  fix s r s'
  assume s: "kept km K s" and run: "raw_transaction (link_transport h) report c one_second s = Some (r, s')"
  have "keeps (link_transport h) report (link_inv (\<lambda>kb _. km kb = K)) (\<lambda>bytes s. True)"
  proof (rule link_keeps)
    fix kb queue replies kb' assume "km kb = K" "h report kb = (replies, kb')"
    then show "km kb' = K" using assms by (auto simp: keymap_safe_def dest!: spec [of _ report] spec [of _ kb])
  qed simp_all
  from transaction_keeps(1) [OF run this] s show "kept km K s'" by (simp add: link_inv_def kept_def)
qed

lemma splice_head: "0 < a \<Longrightarrow> a \<le> length xs \<Longrightarrow> splice a bytes xs ! 0 = xs ! 0"
  by (cases xs; cases a) (simp_all add: splice_def)

lemma length_splice: "a + length bytes \<le> length xs \<Longrightarrow> length (splice a bytes xs) = length xs"
  by (simp add: splice_def)

lemma command_head: "command_report c ! 0 = c" "length (command_report c) = 32"
  by (simp_all add: command_report_def REPORT_LEN_def)

lemma requests_kept:
  assumes "keymap_safe h km"
  shows "preserves (kept km K) (via_protocol (link_transport h))"
    and "preserves (kept km K) (firmware_status (link_transport h))"
    and "preserves (kept km K) (get_layout_options (link_transport h))"
    and "preserves (kept km K) (set_layout_options (link_transport h) opts)"
    and "preserves (kept km K) (macro_capacity (link_transport h))"
    and "preserves (kept km K) (macro_buffer_size (link_transport h))"
    and "preserves (kept km K) (get_macro_buffer (link_transport h) size')"
    and "preserves (kept km K) (set_macro_buffer (link_transport h) buffer)"
  unfolding via_protocol_def firmware_status_def firmware_status_page_def get_layout_options_def set_layout_options_def
    macro_capacity_def macro_buffer_size_def get_macro_buffer_def set_macro_buffer_def Let_def
  by (intro io_keeps transact_kept [OF assms]; simp add: splice_head length_splice u16_bytes_def command_head query_report_def hid_constants)+

lemma sync_via_kept:
  assumes "keymap_safe h km"
  shows "preserves (kept km K) (sync_via_state_for_device (link_transport h) desired)"
  unfolding sync_via_state_for_device_def sync_layout_options_def sync_macro_buffer_def
  by (intro io_keeps requests_kept [OF assms])

lemma open_kept: "host_on_link h H \<Longrightarrow> preserves (kept km K) (open_hid H d)"
  unfolding open_hid_def
  by (rule preserves_map_err) (auto simp: host_on_link_def preserves_def link_open_def quiet_def kept_def)

lemma opened_kept:
  assumes "host_on_link h H" "preserves (kept km K) (m (link_transport h))"
  shows "preserves (kept km K) (io_bind (open_hid H d) m)"
  unfolding preserves_def io_bind_eq_Some
proof (intro allI impI, elim disjE exE conjE)
  fix s r s' e assume "kept km K s" "open_hid H d s = Some (Inl e, s')"
  then show "kept km K s'" using preservesD [OF open_kept [OF assms(1)]] by blast
next
  fix s r s' T s1
  assume s: "kept km K s" and o: "open_hid H d s = Some (Inr T, s1)" and m: "m T s1 = Some (r, s')"
  have "T = link_transport h" "kept km K s1"
    using o assms(1) preservesD [OF open_kept [OF assms(1)] o s]
    by (auto simp: open_hid_def io_map_err_eq_Some host_on_link_def link_open_def)
  with m show "kept km K s'" using preservesD [OF assms(2)] by blast
qed

lemma via_devices_kept:
  assumes "host_on_link h H" "keymap_safe h km"
  shows "preserves (kept km K) (via_devices H)"
proof -
  have hid: "preserves (kept km K) (io_map_err HostError (host_hid H))"
    by (rule preserves_map_err) (use assms in \<open>unfold host_on_link_def preserves_def, metis\<close>)
  have "preserves (kept km K) (answers_via H d)" for d
    unfolding answers_via_def
    by (intro preserves_bind [OF preserves_try] preserves_basic opened_kept [OF assms(1)] requests_kept(1) [OF assms(2)])
  then show ?thesis
    unfolding via_devices_def list_raw_devices_def
    by (intro preserves_bind hid preserves_basic preserves_map)
qed

section \<open>One device\<close>

text \<open>What may have happened to the keymap, and what has happened after a success.\<close>

definition partly_applied :: "key_entry list \<Rightarrow> (position \<Rightarrow> u16) \<Rightarrow> (position \<Rightarrow> u16) \<Rightarrow> bool" where
  "partly_applied entries K K' \<longleftrightarrow>
     (\<forall>p. p \<notin> entry_position ` set entries \<longrightarrow> K' p = K p) \<and>
     (\<forall>e \<in> set entries. K' (entry_position e) \<in> {K (entry_position e), entry_keycode e})"

definition applied :: "key_entry list \<Rightarrow> (position \<Rightarrow> u16) \<Rightarrow> bool" where
  "applied entries K \<longleftrightarrow> (\<forall>e \<in> set entries. K (entry_position e) = entry_keycode e)"

lemma partly_refl: "partly_applied entries K K"
  by (simp add: partly_applied_def)

lemma partly_trans: "partly_applied entries K K' \<Longrightarrow> partly_applied entries K' K'' \<Longrightarrow> partly_applied entries K K''"
  by (fastforce simp: partly_applied_def)

lemma applied_stays: "applied entries K \<Longrightarrow> partly_applied entries K K' \<Longrightarrow> applied entries K'"
  by (fastforce simp: partly_applied_def applied_def)

lemma sync_one_effect:
  assumes host: "host_on_link h H" and safe: "keymap_safe h km" and via: "via_keymap h km D" and quiet: "quiet s"
    and d: "distinct (map entry_position entries)" and D: "entry_position ` set entries \<subseteq> D"
    and run: "sync_one_device hs H entries desired (n, fails) descriptor s = Some (r, s')"
  shows "quiet s' \<and> partly_applied entries (km (l_kb s)) (km (l_kb s')) \<and>
    (\<exists>m more. r = Inr (m, fails @ more) \<and> (more = [] \<longrightarrow> applied entries (km (l_kb s'))))"
proof -
  obtain c s1 where c: "io_bind (open_hid H descriptor) firmware_status s = Some (c, s1)"
    using run by (auto simp: sync_one_device_def io_bind_eq_Some [of "io_try _"] io_try_eq_Some)
  have s1: "kept km (km (l_kb s)) s1"
    by (rule preservesD [OF opened_kept [where m = firmware_status, OF host requests_kept(2) [OF safe]] c]) (simp add: kept_def quiet)
  note rest = run [unfolded sync_one_device_def prod.case, unfolded io_bind_def [of "io_try _"], unfolded io_try_def, unfolded c]
  show ?thesis
  proof (cases "case c of Inr firmware \<Rightarrow> abi_matches hs firmware | Inl _ \<Rightarrow> False")
    case False
    then show ?thesis using rest s1 by (auto simp: io_return_app kept_def partly_refl)
  next
    case True
    obtain k s2 where k: "sync_keymap_for_device (EXPECTED_ABI_HASH hs) (link_open h) entries s1 = Some (k, s2)"
      using rest True host
      by (cases "sync_keymap_for_device (EXPECTED_ABI_HASH hs) (link_open h) entries s1") (auto simp: host_on_link_def)
    have q1: "quiet s1" and K1: "km (l_kb s1) = km (l_kb s)" using s1 by (simp_all add: kept_def)
    from sync_run [OF via q1 d D k]
    have s2: "quiet s2" "partly_applied entries (km (l_kb s)) (km (l_kb s2))"
      "\<And>changed. k = Inr changed \<Longrightarrow> applied entries (km (l_kb s2))"
      by (auto simp: partly_applied_def applied_def K1)
    show ?thesis
    proof (cases k)
      case (Inl e)
      then show ?thesis using rest True host k s2 by (auto simp: host_on_link_def io_return_app)
    next
      case (Inr changed)
      obtain x s3 where x: "io_bind (open_hid H descriptor) (\<lambda>device. sync_via_state_for_device device desired) s2 = Some (x, s3)"
        using rest True host k Inr
        by (cases "io_bind (open_hid H descriptor) (\<lambda>device. sync_via_state_for_device device desired) s2")
          (auto simp: host_on_link_def io_return_app)
      have "kept km (km (l_kb s2)) s3"
        by (rule preservesD [OF opened_kept [where m = "\<lambda>device. sync_via_state_for_device device desired", OF host sync_via_kept [OF safe]] x]) (simp add: kept_def s2)
      then show ?thesis using rest True host k Inr x s2 by (auto simp: host_on_link_def io_return_app kept_def split: sum.splits)
    qed
  qed
qed

section \<open>The command\<close>

lemma sync_devices_effect:
  fixes r :: "('e, nat \<times> sync_failure list) res"
  assumes host: "host_on_link h H" and safe: "keymap_safe h km" and via: "via_keymap h km D"
    and d: "distinct (map entry_position entries)" and D: "entry_position ` set entries \<subseteq> D"
  shows "quiet s \<Longrightarrow> io_fold (sync_one_device hs H entries desired) acc devices s = Some (r, s') \<Longrightarrow>
    quiet s' \<and> partly_applied entries (km (l_kb s)) (km (l_kb s')) \<and>
    (\<exists>m more. r = Inr (m, snd acc @ more) \<and> (more = [] \<and> devices \<noteq> [] \<longrightarrow> applied entries (km (l_kb s'))))"
proof (induction devices arbitrary: acc s)
  case Nil
  then show ?case by (cases acc) (auto simp: io_return_app partly_refl)
next
  case (Cons x devices)
  obtain n fails where acc: "acc = (n, fails)" by fastforce
  from Cons.prems(2) obtain r1 :: "('e, nat \<times> sync_failure list) res" and s1 where one: "sync_one_device hs H entries desired (n, fails) x s = Some (r1, s1)"
    by (auto simp: io_bind_eq_Some acc)
  from sync_one_effect [OF host safe via Cons.prems(1) d D one]
  obtain m more where s1: "quiet s1" "partly_applied entries (km (l_kb s)) (km (l_kb s1))" "r1 = Inr (m, fails @ more)"
      "more = [] \<longrightarrow> applied entries (km (l_kb s1))" by blast
  then have "io_fold (sync_one_device hs H entries desired) (m, fails @ more) devices s1 = Some (r, s')"
    using Cons.prems(2) one by (simp add: acc io_bind_def)
  from Cons.IH [OF s1(1) this] obtain m' more' where s': "quiet s'" "partly_applied entries (km (l_kb s1)) (km (l_kb s'))"
      "r = Inr (m', (fails @ more) @ more')" by auto
  have "applied entries (km (l_kb s'))" if "more @ more' = []"
    using that s1(4) applied_stays [OF _ s'(2)] by simp
  then show ?case
    using s' partly_trans [OF s1(2) s'(2)] by (auto simp: acc)
qed

lemma loaded_entries_distinct:
  assumes "load_configuration_entries B H path s = Some (Inr entries, s')"
  shows "distinct (map entry_position entries)"
proof -
  from assms obtain config catalog packaged contents where
    t: "read_keymap_entries contents = Inr packaged" and e: "configuration_entries config catalog packaged = Inr entries"
    by (auto simp: load_configuration_entries_def load_keymap_entries_def io_bind_eq_Some io_lift_app)
  have "distinct (base_positions packaged)"
    by (rule base_positions_distinct [OF read_keymap_distinct [OF t]])
  from configuration_entries_positions_distinct [OF e this] show ?thesis by (simp add: entry_position_def [abs_def])
qed

lemma loading_keeps:
  assumes "host_on_link h H"
  shows "load_configuration H path s = Some (r, s') \<Longrightarrow> s' = s"
    and "load_configuration_entries B H path s = Some (q, s') \<Longrightarrow> s' = s"
proof -
  have read: "preserves (\<lambda>t. t = s) (io_map_err HostError (host_read H path))" for s path
    by (rule preserves_map_err) (use assms in \<open>unfold host_on_link_def preserves_def, metis\<close>)
  have config: "preserves (\<lambda>t. t = s) (load_configuration H path)" for s path
    unfolding load_configuration_def by (intro preserves_bind read preserves_basic)
  then show "load_configuration H path s = Some (r, s') \<Longrightarrow> s' = s" by (auto dest: preservesD)
  have "preserves (\<lambda>t. t = s) (load_configuration_entries B H path)"
    unfolding load_configuration_entries_def load_catalog_def load_keymap_entries_def
    by (intro preserves_bind config read preserves_basic)
  then show "load_configuration_entries B H path s = Some (q, s') \<Longrightarrow> s' = s" by (auto dest: preservesD)
qed

lemma apply_command_effect:
  fixes H :: "'k link host"
  assumes run: "sync_keymap_command_with_config B H path s = Some (r, s')"
    and host: "host_on_link h H" and safe: "keymap_safe h km" and via: "via_keymap h km UNIV" and quiet: "quiet s"
    and entries: "load_configuration_entries B H path s = Some (Inr entries, s)"
  shows "partly_applied entries (km (l_kb s)) (km (l_kb s')) \<and>
    (is_ok r \<longrightarrow> (\<exists>s1. via_devices H s = Some (Inr [], s1)) \<or> applied entries (km (l_kb s')))"
proof -
  let ?K = "km (l_kb s)" and ?K' = "km (l_kb s')"
  have d: "distinct (map entry_position entries)" by (rule loaded_entries_distinct [OF entries])
  obtain c s0 where c: "load_configuration H path s = Some (c, s0)" and s0: "s0 = s"
    using run loading_keeps(1) [OF host] by (auto simp: sync_keymap_command_with_config_def io_bind_eq_Some)
  show ?thesis
  proof (cases c)
    case (Inl e)
    then show ?thesis using run c s0 by (auto simp: sync_keymap_command_with_config_def io_bind_def partly_refl)
  next
    case (Inr candidate)
    obtain v s1 where v: "via_devices H s = Some (v, s1)"
      using run c s0 Inr entries by (cases "via_devices H s") (auto simp: sync_keymap_command_with_config_def io_bind_def)
    have s1: "quiet s1" "km (l_kb s1) = ?K"
      using preservesD [OF via_devices_kept [OF host safe] v, of ?K] quiet by (auto simp: kept_def)
    show ?thesis
    proof (cases "v = Inr [] \<or> \<not> is_ok v")
      case True
      then show ?thesis
        using run c s0 Inr entries v s1
        by (cases v) (auto simp: sync_keymap_command_with_config_def io_bind_def io_return_app partly_refl)
    next
      case False
      then obtain devices where devices: "v = Inr devices" "devices \<noteq> []" by (cases v) auto
      let ?loop = "io_fold (sync_one_device (hashes B) H entries (via candidate)) (0, []) devices
        :: ('k link, sync_error, nat \<times> sync_failure list) io"
      obtain q s2 where q: "?loop s1 = Some (q, s2)"
        using run c s0 Inr entries v devices
        by (cases "?loop s1") (auto simp: sync_keymap_command_with_config_def io_bind_def)
      from sync_devices_effect [OF host safe via d _ s1(1) q]
      obtain m more where loop: "partly_applied entries ?K (km (l_kb s2))" "q = Inr (m, more)"
          "more = [] \<longrightarrow> applied entries (km (l_kb s2))"
        using devices(2) by (auto simp: s1(2))
      have "s' = s2 \<and> (is_ok r \<longrightarrow> more = [])"
        using run c s0 Inr entries v devices q loop(2) loading_keeps(1) [OF host]
        by (auto simp: sync_keymap_command_with_config_def io_bind_def io_return_app io_fail_def
            split: if_splits option.splits sum.splits)
      then show ?thesis using loop by auto
    qed
  qed
qed


section \<open>A run of the command\<close>

definition apply_config :: configuration where
  "apply_config = snapshot_config\<lparr>via := (via snapshot_config)\<lparr>macros := []\<rparr>\<rparr>"

definition apply_host :: "(position \<Rightarrow> u16) keyboard link host" where
  "apply_host = layer_host
     \<lparr>host_read := (\<lambda>path. io_return (if path = ''keymap.tsv'' then sample_table else ''{}'')),
      parse_configuration := (\<lambda>contents. Inr apply_config)\<rparr>"

abbreviation snapshot_transport :: "(position \<Rightarrow> u16) keyboard link transport" where
  "snapshot_transport \<equiv> link_transport snapshot_handler"

lemma apply_on_link: "host_on_link snapshot_handler apply_host"
  by (auto simp: host_on_link_def apply_host_def layer_host_def io_return_def)

lemma snapshot_safe: "keymap_safe snapshot_handler k_core"
  using via_command_core
  by (fastforce simp: keymap_safe_def snapshot_handler_def firmware_handler_def snapshot_core_def sample_core_def Let_def
      split: option.splits)

lemma snapshot_answers: "via_answers snapshot_core (\<lambda>_. True) UNIV"
proof -
  have "snapshot_core (get_keycode_report p) = sample_core (get_keycode_report p)"
    "snapshot_core (set_keycode_report p v) = sample_core (set_keycode_report p v)" for p v
    by (simp_all add: fun_eq_iff snapshot_core_def get_report_bytes set_report_bytes hid_constants)
  then show ?thesis using sample_via_answers by (simp add: via_answers_def)
qed

lemma apply_loads:
  "load_configuration apply_host path s = Some (Inr apply_config, s)"
  "\<exists>entries. load_configuration_entries layer_build apply_host path s = Some (Inr entries, s)"
proof -
  show load: "load_configuration apply_host path s = Some (Inr apply_config, s)"
    by (simp add: load_configuration_def apply_host_def io_bind_def io_map_err_def io_return_def io_lift_def)
  have cat: "load_catalog layer_build apply_host s = Some (Inr sample_qmk_catalog, s)"
    by (simp add: load_catalog_def apply_host_def layer_host_def io_bind_def io_map_err_def io_return_def io_lift_def)
  have table: "load_keymap_entries layer_build apply_host s = Some (Inr (map sample_row [0..<54]), s)"
    by (simp add: load_keymap_entries_def apply_host_def layer_build_def io_bind_def io_map_err_def io_return_def
        io_lift_def sample_table_parses)
  have "validate_configuration apply_config sample_qmk_catalog = Inr ()" by code_simp
  moreover have "is_ok (configuration_entries apply_config sample_qmk_catalog (map sample_row [0..<54]))" by code_simp
  ultimately show "\<exists>entries. load_configuration_entries layer_build apply_host path s = Some (Inr entries, s)"
    using load cat table
    by (auto simp: is_ok_iff load_configuration_entries_def io_bind_def io_lift_def)
qed

lemma serving_open: "serving s \<Longrightarrow> open_hid apply_host d s = Some (Inr snapshot_transport, s)"
  by (simp add: serving_def calm_def open_hid_def apply_host_def layer_host_def link_open_def io_map_err_def)

lemma serving_via:
  assumes "serving s"
  shows "\<exists>s'. sync_via_state_for_device snapshot_transport (via apply_config) s = Some (Inr [], s') \<and> serving s'"
proof -
  obtain s1 s2 s3 where "get_layout_options snapshot_transport s = Some (Inr 0, s1)"
    "macro_capacity snapshot_transport s1 = Some (Inr 0, s2)" "macro_buffer_size snapshot_transport s2 = Some (Inr 0, s3)"
    "get_macro_buffer snapshot_transport 0 s3 = Some (Inr [], s3)" "serving s3"
    using empty_via_state [OF assms] by blast
  moreover have "desired_macro_buffer [] 0 0 = Inr []" by code_simp
  moreover have "layout_options (via apply_config) = 0" "macros (via apply_config) = []" by code_simp+
  ultimately show ?thesis
    by (simp add: sync_via_state_for_device_def sync_layout_options_def sync_macro_buffer_def io_bind_def io_lift_def io_return_def)
qed

lemma serving_sync:
  assumes "serving s"
  shows "\<exists>n s'. sync_one_device (hashes layer_build) apply_host entries (via apply_config) (0, []) d s = Some (Inr (n, []), s') \<and> serving s'"
proof -
  obtain s1 where s1: "firmware_status snapshot_transport s = Some (Inr (image_status sample_image), s1)" "serving s1"
    using firmware_status_calm [OF sample_firmware(2), of s snapshot_core] assms
    by (auto simp: serving_def snapshot_handler_def)
  have abi: "abi_matches (hashes layer_build) (image_status sample_image)"
    "bytes_to_hex (fw_abi_hash sample_image) = hash_prefix (EXPECTED_ABI_HASH (hashes layer_build))" by code_simp+
  obtain n s2 where s2: "sync_keymap_for_device (EXPECTED_ABI_HASH (hashes layer_build)) (host_open apply_host (d_path d)) entries s1
      = Some (Inr n, s2)" "serving s2"
    using link_live_sync [OF sample_firmware(2) abi(2) snapshot_answers, of entries s1] s1(2)
    by (auto simp: serving_def calm_def apply_host_def layer_host_def snapshot_handler_def)
  obtain s3 where s3: "sync_via_state_for_device snapshot_transport (via apply_config) s2 = Some (Inr [], s3)" "serving s3"
    using serving_via [OF s2(2)] by blast
  show ?thesis
    using s1 s2 s3 abi(1) serving_open [OF assms] serving_open [OF s2(2)]
    by (simp add: sync_one_device_def io_bind_def io_try_def io_return_def)
qed

lemma apply_run:
  "\<exists>n s1 s'. via_devices apply_host snapshot_link = Some (Inr [descriptor_of layer_hid], s1) \<and>
     sync_keymap_command_with_config layer_build apply_host ''configuration.json'' snapshot_link = Some (Inr (n, False), s')"
proof -
  have start: "serving snapshot_link" by (simp add: serving_def snapshot_link_def sample_keyboard_def calm_def)
  have hid: "host_hid apply_host s = Some (Inr [layer_hid], s)" for s
    by (simp add: apply_host_def layer_host_def io_return_def)
  obtain s1 where devices: "via_devices apply_host snapshot_link = Some (Inr [descriptor_of layer_hid], s1)" and s1: "serving s1"
    using via_devices_single [OF start serving_open hid] by blast
  obtain entries where entries: "load_configuration_entries layer_build apply_host ''configuration.json'' snapshot_link
      = Some (Inr entries, snapshot_link)"
    using apply_loads(2) by blast
  obtain n s2 where sync: "(sync_one_device (hashes layer_build) apply_host entries (via apply_config) (0, []) (descriptor_of layer_hid)
      :: (_, sync_error, _) io) s1 = Some (Inr (n, []), s2)"
    using serving_sync [OF s1] by blast
  have "sync_keymap_command_with_config layer_build apply_host ''configuration.json'' snapshot_link = Some (Inr (n, False), s2)"
    using devices entries sync apply_loads(1)
    by (simp add: sync_keymap_command_with_config_def io_bind_def io_return_def)
  with devices show ?thesis by blast
qed


end
