(* ===== verification/Sync_Flash.thy ===== *)
theory Sync_Flash
  imports Sync_Apply
begin

text \<open>
  The \<open>flash\<close> command of \<open>packages/silakka54/sync/src/main.rs\<close>: choosing the half, sending the
  right keyboard to its bootloader, waiting for the volume, copying the image and verifying
  the keyboard that comes back. A path is its normal form; a set of paths is a list without
  repetitions.
\<close>

section \<open>The outside world\<close>

datatype flash_error =
    FlashHost string
  | FlashSync sync_error
  | FlashDevice device_error
  | HalfRequired
  | MultipleCandidates keyboard_half
  | OppositeHalf keyboard_half
  | AmbiguousMounts
  | MountTimeout
  | NoFileName
  | SyncFailed
  | NotVerified

datatype flush_error = FlushNotFound | FlushFailed string

text \<open>
  \<open>ask\<close> prints a question and reads a line; \<open>clock_ns\<close> is the monotonic clock; \<open>proc_mounts\<close>
  is the text of \<open>/proc/mounts\<close>; \<open>flush_file\<close> opens a file and syncs it; \<open>run_sync\<close> is the
  program \<open>sync\<close>, whether it succeeded.
\<close>

record 'w flasher =
  flash_host :: "'w host"
  interactive :: "'w \<Rightarrow> bool"
  ask :: "string \<Rightarrow> ('w, string, string) io"
  clock_ns :: "'w \<Rightarrow> nat \<times> 'w"
  sleep_s :: "nat \<Rightarrow> 'w \<Rightarrow> 'w"
  user_name :: "string option"
  proc_mounts :: "'w \<Rightarrow> (string, string) res \<times> 'w"
  is_dir :: "string \<Rightarrow> 'w \<Rightarrow> bool"
  is_file :: "string \<Rightarrow> 'w \<Rightarrow> bool"
  join_path :: "string \<Rightarrow> string \<Rightarrow> string"
  path_file_name :: "string \<Rightarrow> string option"
  copy_file :: "string \<Rightarrow> string \<Rightarrow> ('w, string, unit) io"
  flush_file :: "string \<Rightarrow> ('w, flush_error, unit) io"
  run_sync :: "('w, string, bool) io"
  FIRMWARE_LEFT_PATH :: string
  FIRMWARE_RIGHT_PATH :: string

fun half_label :: "keyboard_half \<Rightarrow> string" where
  "half_label HalfLeft = ''left''"
| "half_label HalfRight = ''right''"

fun firmware_path :: "'w flasher \<Rightarrow> keyboard_half \<Rightarrow> string" where
  "firmware_path P HalfLeft = FIRMWARE_LEFT_PATH P"
| "firmware_path P HalfRight = FIRMWARE_RIGHT_PATH P"

section \<open>Questions\<close>

definition ask_yes_no :: "'w flasher \<Rightarrow> string \<Rightarrow> ('w, flash_error, bool) io" where
  "ask_yes_no P prompt w =
     (if \<not> interactive P w then Some (Inr False, w)
      else io_bind (io_map_err FlashHost (ask P prompt)) (\<lambda>answer.
        io_return (trim answer \<in> {''y'', ''Y'', ''yes'', ''YES'', ''Yes''})) w)"

definition ask_keyboard_half :: "'w flasher \<Rightarrow> ('w, flash_error, keyboard_half option) io" where
  "ask_keyboard_half P w =
     (if \<not> interactive P w then Some (Inl HalfRequired, w)
      else io_bind (io_map_err FlashHost (ask P ''Flash which physical half? [l/r/N] '')) (\<lambda>answer.
        let answer = to_ascii_lowercase (trim answer) in
        io_return (if answer \<in> {''l'', ''left''} then Some HalfLeft
          else if answer \<in> {''r'', ''right''} then Some HalfRight
          else None)) w)"

section \<open>Volumes\<close>

definition is_bootloader_mount :: "'w flasher \<Rightarrow> 'w \<Rightarrow> string \<Rightarrow> bool" where
  "is_bootloader_mount P w path \<longleftrightarrow>
     is_dir P path w \<and> path_file_name P path = Some ''RPI-RP2'' \<and>
     (is_file P (join_path P path ''INFO_UF2.TXT'') w \<or> is_file P (join_path P path ''INDEX.HTM'') w)"

text \<open>\<open>replace("\\040", " ")\<close>.\<close>

fun unescape_blanks :: "string \<Rightarrow> string" where
  "unescape_blanks (a # b # c # d # s) =
     (if [a, b, c, d] = [CHR 0x5C, CHR ''0'', CHR ''4'', CHR ''0''] then CHR 0x20 # unescape_blanks s
      else a # unescape_blanks (b # c # d # s))"
| "unescape_blanks s = s"

definition mount_point :: "string \<Rightarrow> string option" where
  "mount_point line = (case split_whitespace line of _ # mount # _ \<Rightarrow> Some (unescape_blanks mount) | _ \<Rightarrow> None)"

definition mount_candidates :: "'w flasher \<Rightarrow> string list" where
  "mount_candidates P =
     [''/mnt/RPI-RP2'', ''/Volumes/RPI-RP2''] @
     (case user_name P of
        Some user \<Rightarrow> [join_path P (join_path P ''/run/media'' user) ''RPI-RP2'', join_path P (join_path P ''/media'' user) ''RPI-RP2'']
      | None \<Rightarrow> [])"

definition bootloader_mounts :: "'w flasher \<Rightarrow> 'w \<Rightarrow> string list \<times> 'w" where
  "bootloader_mounts P w =
     (let (contents, w') = proc_mounts P w in
      (remdups (filter (is_bootloader_mount P w) (mount_candidates P) @
         filter (is_bootloader_mount P w')
           (case contents of Inr text \<Rightarrow> List.map_filter mount_point (str_lines text) | Inl _ \<Rightarrow> [])), w'))"

text \<open>The two waiting loops differ in the volumes they look at and in the refusal of several.\<close>

definition wait_body ::
  "'w flasher \<Rightarrow> (string \<Rightarrow> bool) \<Rightarrow> nat \<Rightarrow> unit \<Rightarrow> 'w \<Rightarrow> ((flash_error, string) res + unit) \<times> 'w" where
  "wait_body P considered deadline _ w =
     (let (now, w1) = clock_ns P w in
      if now < deadline then
        (let (mounts, w2) = bootloader_mounts P w1 in
         case filter considered mounts of
           [path] \<Rightarrow> (Inl (Inr path), w2)
         | [] \<Rightarrow> (Inr (), sleep_s P 1 w2)
         | _ \<Rightarrow> (Inl (Inl AmbiguousMounts), w2))
      else (Inl (Inl MountTimeout), w1))"

definition wait_until :: "'w flasher \<Rightarrow> (string \<Rightarrow> bool) \<Rightarrow> nat \<Rightarrow> ('w, flash_error, string) io" where
  "wait_until P considered timeout w =
     (let (now, w1) = clock_ns P w in io_loop (wait_body P considered (now + timeout * 1000000000)) () w1)"

definition wait_for_bootloader_mount :: "'w flasher \<Rightarrow> nat \<Rightarrow> ('w, flash_error, string) io" where
  "wait_for_bootloader_mount P timeout = wait_until P (\<lambda>path. True) timeout"

definition wait_for_new_bootloader_mount :: "'w flasher \<Rightarrow> string list \<Rightarrow> nat \<Rightarrow> ('w, flash_error, string) io" where
  "wait_for_new_bootloader_mount P previous timeout = wait_until P (\<lambda>path. path \<notin> set previous) timeout"

section \<open>The jump to the bootloader\<close>

text \<open>What a device of the list says: it reports the half, or the other one, or neither.\<close>

definition add_candidate ::
  "'w flasher \<Rightarrow> keyboard_half \<Rightarrow> 'w transport list \<times> bool \<Rightarrow> device_descriptor \<Rightarrow>
   ('w, flash_error, 'w transport list \<times> bool) io" where
  "add_candidate P side = (\<lambda>(candidates, other) descriptor.
     io_bind (io_try (open_hid (flash_host P) descriptor)) (\<lambda>opened.
     case opened of
       Inl _ \<Rightarrow> io_return (candidates, other)
     | Inr device \<Rightarrow>
         io_bind (io_try (firmware_status device)) (\<lambda>status.
         io_return (case status of
             Inr firmware \<Rightarrow>
               (case Device_Ops.half firmware of
                  Some reported \<Rightarrow> if reported = side then (candidates @ [device], other) else (candidates, True)
                | None \<Rightarrow> (candidates, other))
           | Inl _ \<Rightarrow> (candidates, other)))))"

definition request_bootloader_jump :: "'w flasher \<Rightarrow> keyboard_half \<Rightarrow> ('w, flash_error, bool) io" where
  "request_bootloader_jump P side =
     io_bind (io_map_err FlashSync (via_devices (flash_host P))) (\<lambda>devices.
     io_bind (io_fold (add_candidate P side) ([], False) devices) (\<lambda>(candidates, other).
     case candidates of
       [] \<Rightarrow> if other then io_fail (OppositeHalf side) else io_return False
     | [device] \<Rightarrow>
         io_bind (io_map_err FlashDevice (silakka54_bootloader_jump device)) (\<lambda>_. io_return True)
     | _ \<Rightarrow> io_fail (MultipleCandidates side)))"

section \<open>Copying and verifying\<close>

definition sync_firmware_copy :: "'w flasher \<Rightarrow> string \<Rightarrow> ('w, flash_error, unit) io" where
  "sync_firmware_copy P target =
     io_bind (io_try (flush_file P target)) (\<lambda>flushed.
     io_bind (case flushed of
         Inr _ \<Rightarrow> io_return ()
       | Inl FlushNotFound \<Rightarrow> io_return ()
       | Inl (FlushFailed e) \<Rightarrow> io_fail (FlashHost e)) (\<lambda>_.
     io_bind (io_map_err FlashHost (run_sync P)) (\<lambda>success.
     if success then io_return () else io_fail SyncFailed)))"

definition verified_half :: "build_hashes \<Rightarrow> keyboard_half \<Rightarrow> device_status \<Rightarrow> bool" where
  "verified_half hs side status \<longleftrightarrow>
     firmware_is_current hs status \<and>
     (case status_firmware status of Version2 firmware \<Rightarrow> Device_Ops.half firmware = Some side | _ \<Rightarrow> False)"

partial_function (option) verify_flash ::
  "build \<Rightarrow> 'w flasher \<Rightarrow> keyboard_half \<Rightarrow> nat \<Rightarrow> 'w \<Rightarrow> ((flash_error, unit) res \<times> 'w) option" where
  "verify_flash B fl side deadline w =
     (let (now, w1) = clock_ns fl w in
      if now < deadline then
        Option.bind (collect_statuses B (flash_host fl) (sleep_s fl 1 w1)) (\<lambda>(statuses, w2).
        if (case statuses of Inr statuses \<Rightarrow> list_ex (verified_half (hashes B) side) statuses | Inl _ \<Rightarrow> False)
        then Some (Inr (), w2)
        else verify_flash B fl side deadline w2)
      else Some (Inl NotVerified, w1))"

declare verify_flash.simps [code]

definition copy_firmware_and_verify :: "build \<Rightarrow> 'w flasher \<Rightarrow> string \<Rightarrow> keyboard_half \<Rightarrow> ('w, flash_error, unit) io" where
  "copy_firmware_and_verify B P mount side =
     io_bind (io_lift (ok_or NoFileName (path_file_name P (firmware_path P side)))) (\<lambda>name.
     io_bind (io_map_err FlashHost (copy_file P (firmware_path P side) (join_path P mount name))) (\<lambda>_.
     io_bind (sync_firmware_copy P (join_path P mount name)) (\<lambda>_ w.
     let (now, w1) = clock_ns P w in verify_flash B P side (now + 60 * 1000000000) w1)))"

section \<open>The command\<close>

definition flash_half :: "build \<Rightarrow> 'w flasher \<Rightarrow> keyboard_half \<Rightarrow> ('w, flash_error, unit) io" where
  "flash_half B P side =
     io_bind (io_read (bootloader_mounts P)) (\<lambda>mounts_before.
     io_bind (request_bootloader_jump P side) (\<lambda>jumped.
     io_bind (if jumped then io_try (wait_for_new_bootloader_mount P mounts_before 30) else io_return (Inl MountTimeout)) (\<lambda>new.
     case new of
       Inr mount \<Rightarrow> copy_firmware_and_verify B P mount side
     | Inl _ \<Rightarrow>
         io_bind (wait_for_bootloader_mount P 120) (\<lambda>mount.
         copy_firmware_and_verify B P mount side))))"

definition flash_firmware_command ::
  "build \<Rightarrow> 'w flasher \<Rightarrow> bool \<Rightarrow> keyboard_half option \<Rightarrow> ('w, flash_error, unit) io" where
  "flash_firmware_command B P yes side =
     io_bind (case side of Some h \<Rightarrow> io_return (Some h) | None \<Rightarrow> ask_keyboard_half P) (\<lambda>chosen.
     case chosen of
       None \<Rightarrow> io_return ()
     | Some side \<Rightarrow>
         io_bind (if yes then io_return True
           else ask_yes_no P (''Flash the USB-connected physical '' @ half_label side @ '' half with the packaged UF2? [y/N] '')) (\<lambda>confirmed.
         if confirmed then flash_half B P side else io_return ()))"

section \<open>The right keyboard is sent to its bootloader\<close>

lemma transact_link_inv:
  assumes "\<And>kb queue replies kb'. J kb queue \<Longrightarrow> h report kb = (replies, kb') \<Longrightarrow> J kb' (queue @ replies)"
    and "\<And>kb bytes queue. J kb (bytes # queue) \<Longrightarrow> J kb queue"
  shows "preserves (link_inv J) (transact (link_transport h) report c)"
  unfolding transact_def
proof (rule preserves_map_err, unfold preserves_def, intro allI impI)
  fix s r s'
  assume I: "link_inv J s" and run: "raw_transaction (link_transport h) report c one_second s = Some (r, s')"
  have "keeps (link_transport h) report (link_inv J) (\<lambda>bytes s. True)"
    by (rule link_keeps [where R = "\<lambda>_ _. True"]) (use assms in blast)+
  from transaction_keeps(1) [OF run this I] show "link_inv J s'" .
qed

text \<open>Replies that the status queries of this firmware may leave behind.\<close>

definition status_reply :: "firmware_image \<Rightarrow> byte list \<Rightarrow> bool" where
  "status_reply F q \<longleftrightarrow> length q = 32 \<and> (q ! 0 = 0x02 \<longrightarrow> q ! 1 = SILAKKA54_SYNC_QUERY \<and> q = status_page F (q ! 3))"

definition status_only :: "firmware_image \<Rightarrow> bool \<Rightarrow> 'c keyboard \<Rightarrow> byte list list \<Rightarrow> bool" where
  "status_only F b kb queue \<longleftrightarrow> k_bootloader kb = b \<and> list_all (status_reply F) queue"

lemma query_keeps_status_only:
  assumes F: "image_ok F"
    and J: "status_only F b kb queue" and h: "firmware_handler F core
      (query_report SILAKKA54_SYNC_QUERY SILAKKA54_SYNC_VERSION page) kb = (replies, kb')"
  shows "status_only F b kb' (queue @ replies)"
proof (cases "k_bootloader kb")
  case True
  then show ?thesis using h J by (simp add: firmware_handler_def status_only_def)
next
  case False
  have "status_reply F (status_page F page)"
    using length_status_page [OF F] status_page_bytes [OF F] by (simp add: status_reply_def)
  moreover have "replies = [status_page F page]" "kb' = kb"
    using h firmware_page_handled [OF False, of F core page] by simp_all
  ultimately show ?thesis using J by (simp add: status_only_def)
qed

lemma firmware_status_page_truthful:
  assumes F: "image_ok F" and I: "link_inv (status_only F b) s"
    and run: "firmware_status_page (link_transport (firmware_handler F core)) page s = Some (r, s')"
  shows "link_inv (status_only F b) s' \<and> (\<forall>q. r = Inr q \<longrightarrow> q = status_page F page)"
proof -
  let ?T = "link_transport (firmware_handler F core)" and ?rep = "query_report SILAKKA54_SYNC_QUERY SILAKKA54_SYNC_VERSION page"
  have K: "keeps ?T ?rep (link_inv (status_only F b)) (\<lambda>bytes s. status_reply F bytes)"
  proof (rule link_keeps [where R = "\<lambda>q _. status_reply F q"])
    show "\<And>kb queue replies kb'. status_only F b kb queue \<Longrightarrow> firmware_handler F core ?rep kb = (replies, kb') \<Longrightarrow>
        status_only F b kb' (queue @ replies)"
      by (rule query_keeps_status_only [OF F])
  qed (simp_all add: status_only_def status_reply_def unsolicited_ok_def)
  obtain res where t: "raw_transaction ?T ?rep ID_GET_KEYBOARD_VALUE one_second s = Some (res, s')"
    using run by (auto simp: firmware_status_page_def io_bind_eq_Some transact_eq io_fail_def io_return_def split: if_splits)
  have "q = status_page F page" if "r = Inr q" for q
  proof -
    have q: "res = Inr q" "q ! 3 = page"
      using run t that by (auto simp: firmware_status_page_def io_bind_eq_Some transact_eq io_fail_def io_return_def split: if_splits)
    obtain bytes where b: "status_reply F bytes" "accept_report ?rep ID_GET_KEYBOARD_VALUE bytes = Some q"
      using transaction_keeps(2) [OF t K I q(1)] by blast
    then have "q = bytes" "q ! 0 = 0x02"
      by (auto simp: status_reply_def accept_report_Some normalize_32 ID_GET_KEYBOARD_VALUE_def)
    then show ?thesis using b(1) q(2) by (simp add: status_reply_def)
  qed
  then show ?thesis using transaction_keeps(1) [OF t K I] by blast
qed

lemma firmware_status_truthful:
  assumes F: "image_ok F" and I: "link_inv (status_only F b) s"
    and run: "firmware_status (link_transport (firmware_handler F core)) s = Some (r, s')"
  shows "link_inv (status_only F b) s' \<and> (\<forall>firmware. r = Inr firmware \<longrightarrow> half firmware = fw_half F)"
proof -
  let ?T = "link_transport (firmware_handler F core)"
  note page = firmware_status_page_truthful [OF F]
  obtain r0 s0 where p0: "firmware_status_page ?T 0 s = Some (r0, s0)"
    using run by (auto simp: firmware_status_def io_bind_eq_Some)
  note i0 = page [OF I p0, THEN conjunct1] and q0 = page [OF I p0, THEN conjunct2]
  show ?thesis
  proof (cases r0)
    case (Inl e)
    then show ?thesis using run p0 i0 by (auto simp: firmware_status_def io_bind_def)
  next
    case (Inr c0)
    then have c0: "half_of (c0 ! 15) = fw_half F" using q0 status_page_fields(8) [OF F] by simp
    obtain r1 s1 where p1: "firmware_status_page ?T 1 s0 = Some (r1, s1)"
      using run p0 Inr by (auto simp: firmware_status_def io_bind_eq_Some)
    note i1 = page [OF i0 p1, THEN conjunct1]
    show ?thesis
    proof (cases r1)
      case (Inl e)
      then show ?thesis using run p0 p1 Inr i1 by (auto simp: firmware_status_def io_bind_def)
    next
      case inr1: (Inr c1)
      obtain r2 s2 where p2: "firmware_status_page ?T 2 s1 = Some (r2, s2)"
        using run p0 p1 Inr inr1 by (auto simp: firmware_status_def io_bind_eq_Some)
      note i2 = page [OF i1 p2, THEN conjunct1]
      then show ?thesis using run p0 p1 p2 Inr inr1 c0
        by (cases r2) (auto simp: firmware_status_def io_bind_def io_return_def)
    qed
  qed
qed

text \<open>Without an old acknowledgement in the queue, an acknowledged jump took place.\<close>

lemma boot_ack_effective:
  assumes I: "link_inv (status_only F b) s"
    and run: "silakka54_bootloader_jump (link_transport (firmware_handler F core)) s = Some (Inr (), s')"
  shows "k_bootloader (l_kb s')"
proof -
  let ?h = "firmware_handler F core" and ?rep = "query_report SILAKKA54_SYNC_BOOTLOADER SILAKKA54_SYNC_VERSION 0"
  define R where "R q kb \<longleftrightarrow> length q = 32 \<and> (q ! 0 = 0x02 \<and> q ! 1 = SILAKKA54_SYNC_BOOTLOADER \<longrightarrow> k_bootloader kb)"
    for q :: "byte list" and kb :: "'a keyboard"
  define J where "J kb queue \<longleftrightarrow> (\<forall>q \<in> set queue. R q kb)" for kb queue
  have K: "keeps (link_transport ?h) ?rep (link_inv J) (\<lambda>bytes s. R bytes (l_kb s))"
  proof (rule link_keeps)
    fix kb queue replies kb'
    assume J: "J kb queue" and h: "?h ?rep kb = (replies, kb')"
    show "J kb' (queue @ replies)"
    proof (cases "k_bootloader kb")
      case True
      then show ?thesis using h J by (simp add: firmware_handler_def J_def)
    next
      case False
      then show ?thesis using h J by (auto simp: firmware_boot_handled J_def R_def)
    qed
  next
    show "\<And>kb bytes. unsolicited_ok bytes \<Longrightarrow> R bytes kb"
      by (simp add: unsolicited_ok_def R_def)
  qed (simp_all add: J_def)
  have I0: "link_inv J s" using I
    by (auto simp: link_inv_def J_def R_def status_only_def status_reply_def list_all_iff hid_constants)
  obtain r where r: "raw_transaction (link_transport ?h) ?rep ID_GET_KEYBOARD_VALUE one_second s = Some (Inr r, s')"
      "r ! 1 = SILAKKA54_SYNC_BOOTLOADER"
    using run by (auto simp: silakka54_bootloader_jump_def io_bind_eq_Some transact_eq io_fail_def io_return_def split: if_splits)
  obtain bytes where b: "R bytes (l_kb s')" "accept_report ?rep ID_GET_KEYBOARD_VALUE bytes = Some r"
    using transaction_keeps(2) [OF r(1) K I0] by blast
  then show ?thesis using r(2)
    by (auto simp: R_def accept_report_Some normalize_32 ID_GET_KEYBOARD_VALUE_def)
qed

text \<open>Listing and asking the devices leaves the keyboard out of its bootloader.\<close>

abbreviation boot_flag :: "bool \<Rightarrow> 'c keyboard \<Rightarrow> byte list list \<Rightarrow> bool" where
  "boot_flag b kb queue \<equiv> k_bootloader kb = b"

lemma via_protocol_keeps_boot: "preserves (link_inv (boot_flag b)) (via_protocol (link_transport (firmware_handler F core)))"
proof -
  have "k_bootloader kb' = k_bootloader kb"
    if h: "firmware_handler F core (command_report ID_GET_PROTOCOL_VERSION) kb = (replies, kb')" for kb replies kb'
  proof -
    have none: "via_command_kb F (command_report ID_GET_PROTOCOL_VERSION) kb = None"
      by (rule via_command_other) (simp_all add: command_report_def REPORT_LEN_def hid_constants)
    then show ?thesis using h by (auto simp: firmware_handler_def none split: if_splits prod.splits)
  qed
  then show ?thesis
    unfolding via_protocol_def by (intro io_keeps transact_link_inv) simp_all
qed

lemma open_on_link:
  assumes "host_on_link h H"
  shows "open_hid H d s = Some (Inr (link_transport h), s\<lparr>l_queue := []\<rparr>)"
  using assms by (simp add: open_hid_def host_on_link_def link_open_def io_map_err_def)

lemma via_devices_keeps_boot:
  assumes H: "host_on_link (firmware_handler F core) H"
  shows "preserves (link_inv (boot_flag b)) (via_devices H)"
proof -
  have "preserves (link_inv (boot_flag b)) (io_bind (open_hid H d) via_protocol)" for d
    unfolding preserves_def
  proof (intro allI impI)
    fix s r s'
    assume I: "link_inv (boot_flag b) s" and run: "io_bind (open_hid H d) via_protocol s = Some (r, s')"
    have "via_protocol (link_transport (firmware_handler F core)) (s\<lparr>l_queue := []\<rparr>) = Some (r, s')"
      using run by (simp add: io_bind_def open_on_link [OF H])
    moreover have "link_inv (boot_flag b) (s\<lparr>l_queue := []\<rparr>)" using I by (simp add: link_inv_def quiet_def)
    ultimately show "link_inv (boot_flag b) s'" using preservesD [OF via_protocol_keeps_boot] by blast
  qed
  then have answers: "preserves (link_inv (boot_flag b)) (answers_via H d)" for d
    unfolding answers_via_def by (intro preserves_bind [OF preserves_try] preserves_basic)
  have hid: "preserves (link_inv (boot_flag b)) (io_map_err HostError (host_hid H))"
    by (rule preserves_map_err) (use H in \<open>unfold host_on_link_def preserves_def, metis\<close>)
  show ?thesis
    unfolding via_devices_def list_raw_devices_def
    by (intro preserves_bind hid preserves_basic preserves_map answers)
qed

text \<open>What is known while the candidates are collected.\<close>

definition candidates_ok ::
  "firmware_image \<Rightarrow> 'c handler \<Rightarrow> keyboard_half \<Rightarrow> bool \<Rightarrow> 'c keyboard link transport list \<times> bool \<Rightarrow> 'c keyboard link \<Rightarrow> bool" where
  "candidates_ok F core side b = (\<lambda>(candidates, other) s.
     link_inv (boot_flag b) s \<and>
     (candidates \<noteq> [] \<longrightarrow> link_inv (status_only F b) s \<and> fw_half F = Some side \<and>
        set candidates \<subseteq> {link_transport (firmware_handler F core)}))"

lemma add_candidate_ok:
  fixes r :: "(flash_error, 'c keyboard link transport list \<times> bool) res"
  assumes F: "image_ok F" and H: "host_on_link (firmware_handler F core) (flash_host P)"
    and ok: "candidates_ok F core side b found s" and run: "add_candidate P side found d s = Some (r, s')"
  shows "\<exists>found'. r = Inr found' \<and> candidates_ok F core side b found' s'"
proof -
  let ?T = "link_transport (firmware_handler F core)"
  obtain candidates other where found: "found = (candidates, other)" by fastforce
  let ?s = "s\<lparr>l_queue := []\<rparr>"
  have I: "link_inv (status_only F b) ?s"
    using ok found by (auto simp: candidates_ok_def link_inv_def status_only_def quiet_def)
  obtain status s1 where st: "firmware_status ?T ?s = Some (status, s1)" "s1 = s'"
    and r: "r = Inr (case status of
         Inr firmware \<Rightarrow> (case half firmware of
             Some reported \<Rightarrow> if reported = side then (candidates @ [?T], other) else (candidates, True)
           | None \<Rightarrow> (candidates, other))
       | Inl _ \<Rightarrow> (candidates, other))"
    using run found
    by (auto simp: add_candidate_def io_bind_eq_Some io_try_eq_Some io_return_def open_on_link [OF H])
  note truth = firmware_status_truthful [OF F I st(1)]
  have inv: "link_inv (boot_flag b) s'" "link_inv (status_only F b) s'"
    using truth st(2) by (auto simp: link_inv_def status_only_def)
  show ?thesis
    using r inv truth ok found
    by (auto simp: candidates_ok_def split: sum.splits option.splits if_splits)
qed

lemma add_candidates_ok:
  fixes r :: "(flash_error, 'c keyboard link transport list \<times> bool) res"
  assumes F: "image_ok F" and H: "host_on_link (firmware_handler F core) (flash_host P)"
  shows "candidates_ok F core side b found s \<Longrightarrow> io_fold (add_candidate P side) found ds s = Some (r, s') \<Longrightarrow>
    \<exists>found'. r = Inr found' \<and> candidates_ok F core side b found' s'"
proof (induction ds arbitrary: found s)
  case Nil
  then show ?case by (intro exI [of _ found]) (simp add: io_return_def)
next
  case (Cons d ds)
  obtain q :: "(flash_error, 'c keyboard link transport list \<times> bool) res" and s1
    where q: "add_candidate P side found d s = Some (q, s1)"
    using Cons.prems(2) by (auto simp: io_bind_eq_Some)
  obtain found' where f: "q = Inr found'" "candidates_ok F core side b found' s1"
    using add_candidate_ok [OF F H Cons.prems(1) q] by blast
  then show ?case using Cons.IH [OF f(2)] Cons.prems(2) q by (auto simp: io_bind_def)
qed

lemma jump_choice_ok:
  assumes ok: "candidates_ok F core side b found s"
    and run: "(case fst found of
            [] \<Rightarrow> if snd found then io_fail (OppositeHalf side) else io_return False
          | [device] \<Rightarrow> io_bind (io_map_err FlashDevice (silakka54_bootloader_jump device)) (\<lambda>_. io_return True)
          | _ \<Rightarrow> io_fail (MultipleCandidates side)) s = Some (r, s')"
  shows "(r = Inr True \<longrightarrow> fw_half F = Some side \<and> k_bootloader (l_kb s')) \<and>
    (k_bootloader (l_kb s') \<longrightarrow> b \<or> fw_half F = Some side)"
proof (cases "fst found")
  case Nil
  then show ?thesis using run ok
    by (auto simp: candidates_ok_def link_inv_def io_fail_def io_return_def split: if_splits prod.splits)
next
  case found: (Cons device others)
  have c: "link_inv (status_only F b) s" "fw_half F = Some side" "device = link_transport (firmware_handler F core)"
    using ok found by (auto simp: candidates_ok_def split: prod.splits)
  show ?thesis
  proof (cases others)
    case Nil
    then show ?thesis using run found c boot_ack_effective [OF c(1)]
      by (auto simp: io_bind_eq_Some io_map_err_eq_Some io_return_def)
  next
    case (Cons d ds)
    then show ?thesis using run found c by (auto simp: io_fail_def)
  qed
qed


definition demo_flasher :: "(position \<Rightarrow> u16) keyboard link flasher" where
  "demo_flasher =
     \<lparr>flash_host = layer_host, interactive = (\<lambda>w. True), ask = (\<lambda>prompt. io_return ''y''),
      clock_ns = (\<lambda>w. (0, w)), sleep_s = (\<lambda>n w. w), user_name = None, proc_mounts = (\<lambda>w. (Inr [], w)),
      is_dir = (\<lambda>path w. False), is_file = (\<lambda>path w. False), join_path = (\<lambda>a b. a @ ''/'' @ b),
      path_file_name = Some, copy_file = (\<lambda>a b. io_return ()), flush_file = (\<lambda>a. io_return ()),
      run_sync = io_return True, FIRMWARE_LEFT_PATH = ''left.uf2'', FIRMWARE_RIGHT_PATH = ''right.uf2''\<rparr>"


section \<open>Success is verified\<close>

lemma verify_flash_ok:
  fixes fl :: "'a flasher"
  assumes "verify_flash B fl side deadline w = Some (Inr (), w')"
  shows "\<exists>v statuses. collect_statuses B (flash_host fl) v = Some (Inr statuses, w') \<and> list_ex (verified_half (hashes B) side) statuses"
proof -
  let ?Q = "\<lambda>B fl side (q :: (flash_error, unit) res \<times> 'a). fst q = Inr () \<longrightarrow> (\<exists>v statuses. collect_statuses B (flash_host fl) v = Some (Inr statuses, snd q) \<and>
      list_ex (verified_half (hashes B) side) statuses)"
  have "?Q B fl side (Inr (), w')"
  proof (rule verify_flash.raw_induct [where P = "\<lambda>B fl side deadline w q. ?Q B fl side q", OF _ assms], goal_cases)
    case (1 f B fl side deadline w q)
    note IH = 1(1) and run = 1(2)
    obtain now w1 where now: "clock_ns fl w = (now, w1)" by fastforce
    show ?case
    proof (cases "now < deadline")
      case False
      then show ?thesis using run now by auto
    next
      case True
      then obtain statuses w2 where c: "collect_statuses B (flash_host fl) (sleep_s fl 1 w1) = Some (statuses, w2)"
        using run now by (auto simp: bind_eq_Some_conv)
      show ?thesis
      proof (cases "case statuses of Inr statuses \<Rightarrow> list_ex (verified_half (hashes B) side) statuses | Inl _ \<Rightarrow> False")
        case verified: True
        then have "q = (Inr (), w2)" using run now True c by simp
        then show ?thesis using verified c by (cases statuses) auto
      next
        case False
        then show ?thesis using IH [of B fl side deadline w2 q] run now True c by simp
      qed
    qed
  qed
  then show ?thesis by simp
qed

text \<open>
  C5: A flash reports success only for a verified keyboard. When copying and verifying ends
  without an error, the last look at the connected devices found one whose firmware has the
  expected hashes and reports the half that was to be flashed.
\<close>
theorem flash_success_verified:
  assumes "copy_firmware_and_verify B P mount side w = Some (Inr (), w')"
  shows "\<exists>v statuses status. collect_statuses B (flash_host P) v = Some (Inr statuses, w') \<and> status \<in> set statuses \<and>
    firmware_is_current (hashes B) status \<and>
    (\<exists>firmware. status_firmware status = Version2 firmware \<and> half firmware = Some side)"
proof -
  obtain deadline w1 where "verify_flash B P side deadline w1 = Some (Inr (), w')"
    using assms by (auto simp: copy_firmware_and_verify_def io_bind_eq_ok io_lift_app Let_def case_prod_beta)
  from verify_flash_ok [OF this] obtain v statuses status where "collect_statuses B (flash_host P) v = Some (Inr statuses, w')"
      "status \<in> set statuses" "verified_half (hashes B) side status"
    by (auto simp: list_ex_iff)
  then show ?thesis
    by (auto simp: verified_half_def split: firmware_probe.splits intro!: exI [of _ v] exI [of _ statuses] exI [of _ status])
qed

text \<open>A keyboard that answers after the copy with the expected firmware of its left half.\<close>

lemma drift_read:
  assumes "holds_a s"
  shows "\<exists>n s'. keymap_drift_for_device (link_transport snapshot_handler) entries s = Some (Inr n, s') \<and> holds_a s'"
proof -
  let ?T = "link_transport snapshot_handler"
  have "\<exists>n' s'. io_fold (\<lambda>drift (p, v). io_bind (get_keycode ?T p) (\<lambda>current.
      io_return (if current \<noteq> v then drift + 1 else drift))) n xs s = Some (Inr n', s') \<and> holds_a s'" for n xs
    using assms
  proof (induction xs arbitrary: n s)
    case (Cons x xs)
    obtain p v where x: "x = (p, v)" by fastforce
    obtain s1 where "get_keycode ?T p s = Some (Inr 4, s1)" "holds_a s1"
      using ask_keycode [OF Cons.prems] by blast
    with Cons.IH [of s1 "if 4 \<noteq> v then n + 1 else n"] show ?case
      by (simp add: x io_bind_def io_return_def)
  qed (simp add: io_return_def)
  then show ?thesis by (simp add: keymap_drift_for_device_def keymap_drift_def)
qed

lemma status_read:
  assumes "holds_a s"
  shows "\<exists>status s'. device_status (hashes layer_build) (host_open apply_host) d entries (via apply_config) s = Some (Inr status, s') \<and>
    verified_half (hashes layer_build) HalfLeft status"
proof -
  let ?T = "link_transport snapshot_handler" and ?q = "command_report ID_GET_PROTOCOL_VERSION"
  have s: "serving s" "link_open snapshot_handler s = Some (Inr ?T, s)"
    using assms by (auto simp: holds_a_def serving_def calm_def link_open_def)
  have acc: "accept_report ?q ID_GET_PROTOCOL_VERSION ?q = Some ?q" by code_simp
  have byte: "command_report c ! 0 = c" "length (command_report c) = 32" for c
    by (simp_all add: command_report_def REPORT_LEN_def)
  obtain s1 where s1: "transact ?T ?q ID_GET_PROTOCOL_VERSION s = Some (Inr ?q, s1)" "holds_a s1"
    using ask_echo [OF s(1) _ _ acc] assms by (auto simp: byte holds_a_def)
  obtain s2 where s2: "firmware_status ?T s1 = Some (Inr (image_status sample_image), s2)" "holds_a s2"
    using firmware_status_calm [OF sample_firmware(2), of s1 snapshot_core] s1(2)
    by (auto simp: holds_a_def serving_def snapshot_handler_def)
  obtain n s3 where s3: "keymap_drift_for_device ?T entries s2 = Some (Inr n, s3)" "holds_a s3"
    using drift_read [OF s2(2)] by blast
  obtain s4 s5 s6 where s4: "get_layout_options ?T s3 = Some (Inr 0, s4)"
    "macro_capacity ?T s4 = Some (Inr 0, s5)" "macro_buffer_size ?T s5 = Some (Inr 0, s6)"
    "get_macro_buffer ?T 0 s6 = Some (Inr [], s6)"
    using empty_via_state [of s3] s3(2) by (auto simp: holds_a_def)
  have current: "abi_matches (hashes layer_build) (image_status sample_image)"
    "runtime_matches (hashes layer_build) (image_status sample_image)" "half (image_status sample_image) = Some HalfLeft"
    "desired_macro_buffer [] 0 0 = Inr []" "layout_options (via apply_config) = 0" "macros (via apply_config) = []"
    by code_simp+
  have v: "via_state_drift_for_device ?T (via apply_config) s3 = Some (Inr [], s6)"
    using s4 current by (simp add: via_state_drift_for_device_def io_bind_def io_return_def io_lift_def)
  have "host_open apply_host p s = Some (Inr ?T, s)" for p
    using s(2) by (simp add: apply_host_def layer_host_def)
  then show ?thesis
    using s1 s2 s3 v current
    by (simp add: device_status_def via_protocol_def probe_firmware_def io_bind_def io_try_def io_return_def
        verified_half_def firmware_is_current_def)
qed

theorem flash_success_verified_witness:
  "\<exists>s'. copy_firmware_and_verify layer_build (demo_flasher\<lparr>flash_host := apply_host\<rparr>) ''/mnt/RPI-RP2'' HalfLeft snapshot_link
      = Some (Inr (), s') \<and>
    (\<exists>v statuses status. collect_statuses layer_build apply_host v = Some (Inr statuses, s') \<and> status \<in> set statuses \<and>
      firmware_is_current (hashes layer_build) status)"
proof -
  let ?P = "demo_flasher\<lparr>flash_host := apply_host\<rparr>"
  obtain entries where entries: "load_configuration_entries layer_build apply_host ''configuration.json'' snapshot_link
      = Some (Inr entries, snapshot_link)"
    using apply_loads(2) by blast
  have start: "holds_a snapshot_link"
    by (simp add: holds_a_def serving_def snapshot_link_def sample_keyboard_def calm_def)
  have raw: "raw_hid_devices [layer_hid] = [descriptor_of layer_hid]"
    by (simp add: raw_hid_devices_def is_silakka54_def is_raw_interface_def layer_hid_def Let_def)
  obtain status s' where status: "(device_status (hashes layer_build) (host_open apply_host) (descriptor_of layer_hid) entries (via apply_config)
      :: (_, sync_error, _) io) snapshot_link = Some (Inr status, s')" "verified_half (hashes layer_build) HalfLeft status"
    using status_read [OF start] by blast
  have "collect_statuses layer_build apply_host snapshot_link = Some (Inr [status], s')"
  proof -
    have "host_hid apply_host = io_return [layer_hid]" "CONFIGURATION_PATH layer_build = ''configuration.json''"
      by (simp_all add: apply_host_def layer_host_def layer_build_def)
    then show ?thesis
      using status entries apply_loads(1) raw
      by (simp add: collect_statuses_def collect_statuses_for_def list_raw_devices_def io_bind_def io_map_err_def io_return_def)
  qed
  then have "copy_firmware_and_verify layer_build ?P ''/mnt/RPI-RP2'' HalfLeft snapshot_link = Some (Inr (), s')"
    using status(2)
    by (simp add: copy_firmware_and_verify_def demo_flasher_def sync_firmware_copy_def io_bind_def io_map_err_def io_return_def
        io_lift_def io_try_def verify_flash.simps)
  with flash_success_verified [OF this] show ?thesis by auto
qed

end
