(* ===== verification/Sync_Watch.thy ===== *)
theory Sync_Watch
  imports Sync_Commands
begin

text \<open>
  Hotplug and watch of \<open>packages/silakka54/sync/src/main.rs\<close>: reconciling a keyboard that was
  plugged in, the notification that its firmware is stale, and the loop that looks for new
  devices. The file that remembers the last notification is an interface; its laws are
  those of a file system, and are proved for the file system below.
\<close>

section \<open>The desktop\<close>

datatype remove_error = NotFound | RemoveFailed string

record 'w desktop =
  desk_host :: "'w host"
  desk_create_dirs :: "string \<Rightarrow> ('w, string, unit) io"
  desk_remove :: "string \<Rightarrow> ('w, remove_error, unit) io"
  desk_prompt :: "('w, string, unit) io"
  desk_sleep :: "nat \<Rightarrow> ('w, sync_error, unit) io"
  desk_var :: "string \<Rightarrow> string option"
  desk_join :: "string \<Rightarrow> string \<Rightarrow> string"
  desk_parent :: "string \<Rightarrow> string option"
  desk_temporary :: "string \<Rightarrow> string"

definition HOTPLUG_STATUS_ATTEMPTS :: nat where "HOTPLUG_STATUS_ATTEMPTS = 4"
definition HOTPLUG_STATUS_RETRY_DELAY :: nat where "HOTPLUG_STATUS_RETRY_DELAY = 750"
definition NOTIFICATION_STATE_FILE :: string where "NOTIFICATION_STATE_FILE = ''silakka54/firmware-notification''"

definition notification_state_path :: "'w desktop \<Rightarrow> (string, string) res" where
  "notification_state_path D =
    (case desk_var D ''SILAKKA54_NOTIFICATION_STATE'' of
       Some path \<Rightarrow> Inr path
     | None \<Rightarrow>
         (case desk_var D ''XDG_STATE_HOME'' of
            Some base \<Rightarrow> Inr (desk_join D base NOTIFICATION_STATE_FILE)
          | None \<Rightarrow>
              (case desk_var D ''HOME'' of
                 Some home \<Rightarrow> Inr (desk_join D (desk_join D home ''.local/state'') NOTIFICATION_STATE_FILE)
               | None \<Rightarrow> Inl ''XDG_STATE_HOME and HOME are both unset'')))"

definition notify_once :: "'w desktop \<Rightarrow> string \<Rightarrow> string \<Rightarrow> ('w, string, bool) io" where
  "notify_once D path key =
     io_bind (io_try (host_read (desk_host D) path)) (\<lambda>existing.
     if existing = Inr key then io_return False
     else
       io_bind (case desk_parent D path of Some parent \<Rightarrow> desk_create_dirs D parent | None \<Rightarrow> io_return ()) (\<lambda>_.
       io_bind (host_write (desk_host D) (desk_temporary D path) key) (\<lambda>_.
       io_bind (host_rename (desk_host D) (desk_temporary D path) path) (\<lambda>_.
       io_bind (desk_prompt D) (\<lambda>_.
       io_return True)))))"

definition clear_notification_state :: "'w desktop \<Rightarrow> string \<Rightarrow> ('w, string, unit) io" where
  "clear_notification_state D path =
     io_bind (io_try (desk_remove D path)) (\<lambda>removed.
     case removed of
       Inr _ \<Rightarrow> io_return ()
     | Inl NotFound \<Rightarrow> io_return ()
     | Inl (RemoveFailed error) \<Rightarrow> io_fail error)"

text \<open>\<open>unreachable!\<close> in the notification key would abort the program: an effect without a value.\<close>

definition hotplug_command :: "build \<Rightarrow> 'w desktop \<Rightarrow> ('w, sync_error, unit) io" where
  "hotplug_command B D =
     io_bind (collect_statuses_with_retry (collect_statuses B (desk_host D)) HOTPLUG_STATUS_ATTEMPTS
       (desk_sleep D HOTPLUG_STATUS_RETRY_DELAY)) (\<lambda>statuses.
     if statuses = [] then io_return ()
     else
       io_bind (if list_ex (live_state_is_stale (hashes B)) statuses
                then io_bind (sync_keymap_command B (desk_host D)) (\<lambda>_. io_return ())
                else io_return ()) (\<lambda>_.
       case firmware_notification_key (hashes B) statuses of
         Inl Panic \<Rightarrow> (\<lambda>s. None)
       | Inr (Some key) \<Rightarrow>
           io_bind (io_lift (map_err HostError (notification_state_path D))) (\<lambda>path.
           io_bind (io_map_err HostError (notify_once D path key)) (\<lambda>_. io_return ()))
       | Inr None \<Rightarrow>
           if list_all (firmware_is_current (hashes B)) statuses then
             io_bind (io_lift (map_err HostError (notification_state_path D))) (\<lambda>path.
             io_map_err HostError (clear_notification_state D path))
           else io_return ()))"

section \<open>Watching for devices\<close>

definition should_reconcile :: "string set \<Rightarrow> string set \<Rightarrow> bool" where
  "should_reconcile previous current \<longleftrightarrow> current \<noteq> {} \<and> (\<exists>ident \<in> current. ident \<notin> previous)"

text \<open>What one round does with the listing: reconcile or not, and the devices to compare with next.\<close>

definition watch_decision :: "string set \<Rightarrow> ('e, string list) res \<Rightarrow> bool \<times> string set" where
  "watch_decision previous listing =
     (case listing of
        Inr ids \<Rightarrow> (should_reconcile previous (set ids), set ids)
      | Inl _ \<Rightarrow> (False, previous))"

definition watch_round :: "build \<Rightarrow> 'w desktop \<Rightarrow> string set \<Rightarrow> ('w, sync_error, string set) io" where
  "watch_round B D previous =
     io_bind (io_try (list_raw_devices (desk_host D))) (\<lambda>devices.
     let (reconcile, current) = watch_decision previous (map_sum id (map d_path) devices) in
     io_bind (if reconcile
              then io_bind (desk_sleep D 500) (\<lambda>_.
                   io_bind (io_try (hotplug_command B D)) (\<lambda>_. io_return ()))
              else io_return ()) (\<lambda>_.
     io_bind (desk_sleep D 1000) (\<lambda>_.
     io_return current)))"

text \<open>The loop, for the rounds it gets to run.\<close>

fun watch_rounds :: "build \<Rightarrow> 'w desktop \<Rightarrow> nat \<Rightarrow> string set \<Rightarrow> ('w, sync_error, string set) io" where
  "watch_rounds B D 0 previous = io_return previous"
| "watch_rounds B D (Suc n) previous =
     io_bind (watch_round B D previous) (watch_rounds B D n)"

definition watch_command :: "build \<Rightarrow> 'w desktop \<Rightarrow> nat \<Rightarrow> ('w, sync_error, string set) io" where
  "watch_command B D rounds = watch_rounds B D rounds {}"

text \<open>The decisions of the rounds for a sequence of listings.\<close>

fun watch_decisions :: "string set \<Rightarrow> ('e, string list) res list \<Rightarrow> bool list" where
  "watch_decisions previous [] = []"
| "watch_decisions previous (listing # rest) =
     (let (reconcile, current) = watch_decision previous listing
      in reconcile # watch_decisions current rest)"

text \<open>The devices of the last listing that did not fail.\<close>

fun last_seen :: "string set \<Rightarrow> ('e, string list) res list \<Rightarrow> string set" where
  "last_seen seen [] = seen"
| "last_seen seen (Inr ids # rest) = last_seen (set ids) rest"
| "last_seen seen (Inl _ # rest) = last_seen seen rest"

text \<open>
  The watch loop reconciles exactly when a device appears: in each round, if and only if
  the listing succeeds and names a device that the last successful listing before it did
  not. A failed listing neither triggers a reconciliation nor forgets a device.
\<close>
theorem watch_reconciles_on_arrival:
  assumes "i < length listings"
  shows "watch_decisions {} listings ! i \<longleftrightarrow>
    (\<exists>ids. listings ! i = Inr ids \<and> (\<exists>ident \<in> set ids. ident \<notin> last_seen {} (take i listings)))"
proof -
  have "i < length ls \<Longrightarrow> watch_decisions seen ls ! i \<longleftrightarrow>
      (\<exists>ids. ls ! i = Inr ids \<and> (\<exists>ident \<in> set ids. ident \<notin> last_seen seen (take i ls)))" for seen and ls :: "('e, string list) res list"
  proof (induction ls arbitrary: i seen)
    case (Cons l ls)
    show ?case
    proof (cases i)
      case 0
      then show ?thesis by (cases l) (auto simp: watch_decision_def should_reconcile_def)
    next
      case (Suc j)
      then show ?thesis using Cons by (cases l) (simp_all add: watch_decision_def)
    qed
  qed simp
  with assms show ?thesis by blast
qed

theorem watch_reconciles_on_arrival_witness:
  "watch_decisions {} [Inr [''/dev/hidraw1''], Inl ''busy'', Inr [''/dev/hidraw1''], Inr [], Inr [''/dev/hidraw1'']] ! 4 \<longleftrightarrow>
   (\<exists>ids. [Inr [''/dev/hidraw1''], Inl ''busy'', Inr [''/dev/hidraw1''], Inr [], Inr [''/dev/hidraw1'']] ! 4 = Inr ids \<and>
     (\<exists>ident \<in> set ids. ident \<notin> last_seen {} (take 4 [Inr [''/dev/hidraw1''], Inl ''busy'', Inr [''/dev/hidraw1''], Inr [], Inr [''/dev/hidraw1'']])))"
  by (rule watch_reconciles_on_arrival) simp

section \<open>Notifications\<close>

text \<open>
  What \<open>notify_once\<close> relies on: reading, writing and renaming act on a map from paths to
  contents, a failed write or rename leaves every other path as it was, and only the prompt
  prompts.
\<close>

locale notification_store =
  fixes D :: "'w desktop" and files :: "'w \<Rightarrow> string \<Rightarrow> string option" and prompts :: "'w \<Rightarrow> nat"
  assumes read_law: "host_read (desk_host D) path s = Some (r, s') \<Longrightarrow>
      files s' = files s \<and> prompts s' = prompts s \<and> (\<forall>c. r = Inr c \<longleftrightarrow> files s path = Some c)"
    and dirs_law: "desk_create_dirs D path s = Some (u, s') \<Longrightarrow> files s' = files s \<and> prompts s' = prompts s"
    and write_law: "host_write (desk_host D) path c s = Some (u, s') \<Longrightarrow>
      prompts s' = prompts s \<and> (u = Inr () \<longrightarrow> files s' = (files s)(path \<mapsto> c)) \<and>
      (\<forall>q. q \<noteq> path \<longrightarrow> files s' q = files s q)"
    and rename_law: "host_rename (desk_host D) path path' s = Some (u, s') \<Longrightarrow>
      prompts s' = prompts s \<and>
      files s' = (if u = Inr () then (files s)(path' := files s path, path := None) else files s)"
    and prompt_law: "desk_prompt D s = Some (u, s') \<Longrightarrow> files s' = files s \<and> prompts s' = prompts s + 1"
begin

lemma notify_step:
  assumes "notify_once D path key s = Some (r, s')" "desk_temporary D path \<noteq> path"
  shows "files s path = Some key \<and> r = Inr False \<and> files s' = files s \<and> prompts s' = prompts s \<or>
    files s path \<noteq> Some key \<and> files s' path = files s path \<and> prompts s' = prompts s \<and> \<not> is_ok r \<or>
    files s path \<noteq> Some key \<and> files s' path = Some key \<and> prompts s' = prompts s + 1 \<and> r \<noteq> Inr False"
proof -
  let ?dirs = "case desk_parent D path of Some parent \<Rightarrow> desk_create_dirs D parent | None \<Rightarrow> io_return ()"
  have dirs: "files s2 = files s1 \<and> prompts s2 = prompts s1" if "?dirs s1 = Some (u, s2)" for s1 u s2
    using that dirs_law by (auto simp: io_return_app split: option.splits)
  obtain e s1 where e: "host_read (desk_host D) path s = Some (e, s1)"
    using assms(1) by (auto simp: notify_once_def io_bind_eq_Some [of "io_try _"] io_try_eq_Some)
  note law = read_law [OF e]
  note rest = assms(1) [unfolded notify_once_def, unfolded io_bind_def [of "io_try _"], unfolded io_try_def, unfolded e]
  show ?thesis
  proof (cases "e = Inr key")
    case True
    then show ?thesis using rest law by (auto simp: io_return_app)
  next
    case False
    then have "files s path \<noteq> Some key" using law by blast
    from False rest consider (Mkdir) x where "?dirs s1 = Some (Inl x, s')" "r = Inl x"
      | (Wr) s2 x where "?dirs s1 = Some (Inr (), s2)" "host_write (desk_host D) (desk_temporary D path) key s2 = Some (Inl x, s')" "r = Inl x"
      | (Mv) s2 s3 x where "?dirs s1 = Some (Inr (), s2)" "host_write (desk_host D) (desk_temporary D path) key s2 = Some (Inr (), s3)"
          "host_rename (desk_host D) (desk_temporary D path) path s3 = Some (Inl x, s')" "r = Inl x"
      | (Asked) s2 s3 s4 u where "?dirs s1 = Some (Inr (), s2)" "host_write (desk_host D) (desk_temporary D path) key s2 = Some (Inr (), s3)"
          "host_rename (desk_host D) (desk_temporary D path) path s3 = Some (Inr (), s4)" "desk_prompt D s4 = Some (u, s')" "r \<noteq> Inr False"
      by (auto simp: io_bind_eq_Some io_return_app)
    then show ?thesis
    proof cases
      case Mkdir
      then show ?thesis using \<open>files s path \<noteq> Some key\<close> law dirs [OF Mkdir(1)] by simp
    next
      case Wr
      then show ?thesis using \<open>files s path \<noteq> Some key\<close> law dirs [OF Wr(1)] write_law [OF Wr(2)] assms(2) by auto
    next
      case Mv
      then show ?thesis
        using \<open>files s path \<noteq> Some key\<close> law dirs [OF Mv(1)] write_law [OF Mv(2)] rename_law [OF Mv(3)] assms(2)
        by auto
    next
      case Asked
      then show ?thesis
        using \<open>files s path \<noteq> Some key\<close> law dirs [OF Asked(1)] write_law [OF Asked(2)] rename_law [OF Asked(3)]
          prompt_law [OF Asked(4)] assms(2)
        by auto
    qed
  qed
qed

lemma notify_repeated:
  fixes r :: "('f, (string, bool) res list) res"
  shows "io_map (\<lambda>_. io_try (notify_once D path key)) xs s = Some (r, s') \<Longrightarrow> desk_temporary D path \<noteq> path \<Longrightarrow>
   prompts s' \<le> prompts s + (if files s path = Some key then 0 else 1)"
proof (induction xs arbitrary: s r)
  case Nil
  then show ?case by (simp add: io_return_app)
next
  case (Cons x xs)
  from Cons.prems(1) obtain q s1 and p :: "('f, (string, bool) res list) res" where one: "notify_once D path key s = Some (q, s1)"
      "io_map (\<lambda>_. io_try (notify_once D path key)) xs s1 = Some (p, s')"
    by (auto simp: io_bind_eq_Some io_try_eq_Some io_return_app)
  from Cons.IH [OF one(2) Cons.prems(2)] notify_step [OF one(1) Cons.prems(2)] show ?case
    by (auto split: if_splits)
qed

end

section \<open>A file system\<close>

text \<open>
  The files as a map from paths to contents. Any call may fail: the world holds the outcomes
  of the coming calls, and a failed write leaves an empty file, as an interrupted
  \<open>fs::write\<close> does. Directories are not kept, there are no devices and the prompt succeeds or
  fails like every other call.
\<close>

record disk_world =
  w_files :: "string \<Rightarrow> string option"
  w_faults :: "bool list"
  w_prompts :: nat

definition faulty :: "(disk_world \<Rightarrow> disk_world) \<Rightarrow> (disk_world \<Rightarrow> disk_world) \<Rightarrow> (disk_world, string, unit) io" where
  "faulty failed succeeded w =
     (case w_faults w of
        True # rest \<Rightarrow> Some (Inl ''I/O error'', failed (w\<lparr>w_faults := rest\<rparr>))
      | faults \<Rightarrow> Some (Inr (), succeeded (w\<lparr>w_faults := tl faults\<rparr>)))"

definition file_host :: "disk_world host" where
  "file_host =
     \<lparr>host_read = (\<lambda>path w. Some (ok_or ''no such file'' (w_files w path), w)),
      host_write = (\<lambda>path contents. faulty (w_files_update (\<lambda>f. f(path := Some [])))
        (w_files_update (\<lambda>f. f(path \<mapsto> contents)))),
      host_rename = (\<lambda>path path'. faulty id (w_files_update (\<lambda>f. f(path' := f path, path := None)))),
      host_hid = io_return [],
      host_open = (\<lambda>path. io_fail ''no such device''),
      parse_configuration = (\<lambda>text. Inl ''not a configuration''),
      parse_catalog = (\<lambda>text. Inl ''not a catalog''),
      print_configuration = (\<lambda>c. Inl ''not printable''),
      temporary_path = (\<lambda>path. path @ ''.tmp'')\<rparr>"

definition file_desktop :: "disk_world desktop" where
  "file_desktop =
     \<lparr>desk_host = file_host,
      desk_create_dirs = (\<lambda>path. faulty id id),
      desk_remove = (\<lambda>path w. if w_files w path = None then Some (Inl NotFound, w)
        else Some (Inr (), w\<lparr>w_files := (w_files w)(path := None)\<rparr>)),
      desk_prompt = faulty (w_prompts_update Suc) (w_prompts_update Suc),
      desk_sleep = (\<lambda>ms. io_return ()),
      desk_var = (\<lambda>name. None),
      desk_join = (\<lambda>dir name. dir @ ''/'' @ name),
      desk_parent = (\<lambda>path. None),
      desk_temporary = (\<lambda>path. path @ ''.tmp'')\<rparr>"

lemma faulty_cases:
  assumes "faulty failed succeeded w = Some (u, w')"
  obtains (failed) rest where "u = Inl ''I/O error''" "w' = failed (w\<lparr>w_faults := rest\<rparr>)"
    | (succeeded) rest where "u = Inr ()" "w' = succeeded (w\<lparr>w_faults := rest\<rparr>)"
  using assms by (auto simp: faulty_def split: list.splits bool.splits)

interpretation disk_store: notification_store file_desktop w_files w_prompts
proof
  fix path path' c :: string and s s' :: disk_world and r :: "(string, string) res" and u :: "(string, unit) res"
  show "w_files s' = w_files s \<and> w_prompts s' = w_prompts s \<and> (\<forall>c. r = Inr c \<longleftrightarrow> w_files s path = Some c)"
    if "host_read (desk_host file_desktop) path s = Some (r, s')"
    using that by (auto simp: file_desktop_def file_host_def split: option.splits)
  show "w_files s' = w_files s \<and> w_prompts s' = w_prompts s"
    if "desk_create_dirs file_desktop path s = Some (u, s')"
    using that by (auto simp: file_desktop_def elim!: faulty_cases)
  show "w_prompts s' = w_prompts s \<and> (u = Inr () \<longrightarrow> w_files s' = (w_files s)(path \<mapsto> c)) \<and>
      (\<forall>q. q \<noteq> path \<longrightarrow> w_files s' q = w_files s q)"
    if "host_write (desk_host file_desktop) path c s = Some (u, s')"
    using that by (auto simp: file_desktop_def file_host_def elim!: faulty_cases)
  show "w_prompts s' = w_prompts s \<and>
      w_files s' = (if u = Inr () then (w_files s)(path' := w_files s path, path := None) else w_files s)"
    if "host_rename (desk_host file_desktop) path path' s = Some (u, s')"
    using that by (auto simp: file_desktop_def file_host_def elim!: faulty_cases)
  show "w_files s' = w_files s \<and> w_prompts s' = w_prompts s + 1"
    if "desk_prompt file_desktop s = Some (u, s')"
    using that by (auto simp: file_desktop_def elim!: faulty_cases)
qed



end
