(* ===== verification/Sync_Report.thy ===== *)
theory Sync_Report
  imports Sync_Flash
begin

text \<open>
  What \<open>packages/silakka54/sync/src/main.rs\<close> prints: the report of the status command, the
  help, the prompt to flash, and how \<open>main\<close> ends. A report is the list of its lines. The
  wording of an error value is the parameter \<open>show_error\<close>; the JSON form of the status is
  printed by \<open>serde_json\<close> and is the parameter \<open>status_json\<close>.
\<close>

section \<open>Numbers in hexadecimal\<close>

definition hex_u16 :: "u16 \<Rightarrow> string" where
  "hex_u16 v = concat (map hex2 (u16_bytes v))"

definition hex_u32 :: "u32 \<Rightarrow> string" where
  "hex_u32 v = concat (map hex2 (u32_bytes v))"

section \<open>The report of a device\<close>

fun drift_text :: "via_drift \<Rightarrow> string" where
  "drift_text (LayoutDiffers layout desired) =
     ''layout options 0x'' @ hex_u32 layout @ '' != 0x'' @ hex_u32 desired"
| "drift_text MacroBufferDiffers = ''macro buffer differs''"

definition via_line :: "(device_error \<Rightarrow> string) \<Rightarrow> device_status \<Rightarrow> string" where
  "via_line show_error status =
     (case status_via_protocol status of
        Some version \<Rightarrow> ''  VIA protocol: 0x'' @ hex_u16 version
      | None \<Rightarrow> ''  VIA protocol: unavailable ('' @
          (case status_via_error status of Some e \<Rightarrow> show_error e | None \<Rightarrow> ''non-VIA HID interface'') @ '')'')"

definition count_text :: "u8 \<Rightarrow> string" where
  "count_text n = show_nat (unat n)"

definition firmware_lines :: "(device_error \<Rightarrow> string) \<Rightarrow> build_hashes \<Rightarrow> firmware_probe \<Rightarrow> string list" where
  "firmware_lines show_error B probe =
     (case probe of
        Version2 firmware \<Rightarrow>
          [''  firmware ABI: '' @ abi_hash_prefix firmware @
             (if abi_hash_prefix firmware = hash_prefix (EXPECTED_ABI_HASH B) then '' (current)'' else '' (stale)''),
           ''  runtime firmware: '' @ runtime_hash_prefix firmware @
             (if runtime_hash_prefix firmware = hash_prefix (EXPECTED_RUNTIME_HASH B)
              then '' (current)'' else '' (flash required)''),
           ''  factory defaults: '' @ keymap_hash_prefix firmware @
             (if keymap_hash_prefix firmware = hash_prefix (EXPECTED_KEYMAP_HASH B)
              then '' (current)'' else '' (optional reflash)''),
           ''  dynamic storage: '' @ count_text (layer_count firmware) @ '' layers, '' @
             count_text (macro_count firmware) @ '' macros, '' @ count_text (rows firmware) @ '' rows, '' @
             count_text (cols firmware) @ '' cols''] @
          (case half firmware of Some side \<Rightarrow> [''  physical half: '' @ half_label side] | None \<Rightarrow> [])
      | LegacyVersion1 firmware \<Rightarrow>
          [''  firmware ABI: '' @ legacy_abi_hash_prefix firmware @ '' (legacy protocol; flash required)'',
           ''  factory defaults: '' @ legacy_keymap_hash_prefix firmware @ '' (legacy)'',
           ''  dynamic storage: '' @ count_text (legacy_layer_count firmware) @ '' layers, '' @
             count_text (legacy_rows firmware) @ '' rows, '' @ count_text (legacy_cols firmware) @ '' cols'']
      | Unavailable current_error legacy_error \<Rightarrow>
          [''  firmware ABI: unavailable (current probe: '' @ show_error current_error @
             ''; legacy probe: '' @ show_error legacy_error @ '')'']
      | NotChecked \<Rightarrow> [''  firmware ABI: not checked''])"

definition keymap_line :: "nat option \<Rightarrow> string" where
  "keymap_line drift =
     (case drift of
        Some count \<Rightarrow>
          if count = 0 then ''  dynamic keymap: current''
          else ''  dynamic keymap: stale ('' @ show_nat count @ '' keycodes differ)''
      | None \<Rightarrow> ''  dynamic keymap: not checked'')"

definition via_state_line :: "via_drift list option \<Rightarrow> string" where
  "via_state_line drift =
     (case drift of
        Some ds \<Rightarrow>
          if ds = [] then ''  layout options/macros: current''
          else ''  layout options/macros: stale ('' @ join '', '' (map drift_text ds) @ '')''
      | None \<Rightarrow> ''  layout options/macros: not checked'')"

definition print_device_status :: "(device_error \<Rightarrow> string) \<Rightarrow> build_hashes \<Rightarrow> device_status \<Rightarrow> string list" where
  "print_device_status show_error B status =
     (''Device: '' @ status_name status) #
     (case status_error status of
        Some error \<Rightarrow> [''  error: '' @ error]
      | None \<Rightarrow>
          via_line show_error status # firmware_lines show_error B (status_firmware status) @
          [keymap_line (status_keymap_drift status), via_state_line (status_via_drift status)])"

definition status_output ::
  "(device_error \<Rightarrow> string) \<Rightarrow> (device_status list \<Rightarrow> string) \<Rightarrow> string \<Rightarrow> build_hashes \<Rightarrow> status_args \<Rightarrow>
   device_status list \<Rightarrow> string list" where
  "status_output show_error status_json manifest B args statuses =
     (if sa_json args then [status_json statuses]
      else if statuses = [] then
        [''Silakka54: no connected raw HID devices for '' @ hex_u16 VID @ '':'' @ hex_u16 PID]
      else
        [''Silakka54 manifest: '' @ manifest,
         ''Configuration: '' @ sa_config args,
         ''Expected firmware ABI: '' @ EXPECTED_ABI_HASH B,
         ''Expected runtime: '' @ EXPECTED_RUNTIME_HASH B,
         ''Expected factory defaults: '' @ EXPECTED_KEYMAP_HASH B] @
        concat (map (print_device_status show_error B) statuses))"

section \<open>Help, prompt and exit\<close>

definition print_help :: "string list" where
  "print_help =
     [''Usage: silakka54-sync <command> [options]'',
      ''  status [--config FILE]       Show live, runtime, and recovery-default state'',
      ''  apply [--config FILE]        Apply and verify standard VIA keymap state'',
      ''  config validate [--config FILE]'',
      ''  config options [--search TERM] [--json]'',
      ''  config diff [--config FILE]'',
      ''  config snapshot-live [--config FILE] [--output FILE]'',
      ''  layer NAME                   Move to a configured layer (for example Game or Base)'',
      ''  flash --left|--right [--yes]'',
      ''  hotplug | watch'']"

text \<open>
  The prompt of the Linux and of the macOS build. \<open>delivered\<close> runs a program and tells
  whether it ended with success; what is not delivered goes to the standard error.
\<close>

datatype platform = Linux | MacOS | OtherPlatform

definition prompt_text :: "string \<Rightarrow> string" where
  "prompt_text command =
     ''The connected Silakka54 firmware does not match this system generation. Flash the connected half explicitly with '' @ command"

definition prompt_command :: "platform \<Rightarrow> (string \<times> string list \<times> string) option" where
  "prompt_command platform =
     (case platform of
        Linux \<Rightarrow>
          (let message = prompt_text [CHR 0x60] @ ''silakka54-sync flash --left'' @ [CHR 0x60] @ '' or '' @ [CHR 0x60] @ ''--right'' @ [CHR 0x60] @ ''.''
           in Some (''notify-send'',
                [''--app-name=Silakka54'',
                 ''--hint=string:x-canonical-private-synchronous:silakka54-firmware-update'',
                 ''Silakka54 firmware update'', message], message))
      | MacOS \<Rightarrow>
          (let message = prompt_text ''silakka54-sync flash --left or --right.''
           in Some (''/usr/bin/osascript'',
                [''-e'', ''display notification '' @ [CHR 0x22] @ message @ [CHR 0x22] @ '' with title '' @ [CHR 0x22] @
                   ''Silakka54 firmware update'' @ [CHR 0x22]], message))
      | OtherPlatform \<Rightarrow> None)"

definition request_user_prompt ::
  "platform \<Rightarrow> (string \<Rightarrow> string list \<Rightarrow> 'w \<Rightarrow> bool \<times> 'w) \<Rightarrow> 'w \<Rightarrow> (string, string list) res \<times> 'w" where
  "request_user_prompt platform delivered w =
     (case prompt_command platform of
        None \<Rightarrow> (Inl ''firmware prompts are unsupported on this platform'', w)
      | Some (program, arguments, message) \<Rightarrow>
          (let (ok, w') = delivered program arguments w in (Inr (if ok then [] else [message]), w')))"

text \<open>The exit code of \<open>main\<close> and what it writes to the standard error.\<close>

definition exit_of :: "(string, 'a) res \<Rightarrow> nat \<times> string list" where
  "exit_of result =
     (case result of Inr _ \<Rightarrow> (0, []) | Inl error \<Rightarrow> (1, [''silakka54-sync: '' @ error]))"

section \<open>Lemmas\<close>

lemma starts_with_append [simp]: "starts_with (p @ s) p"
  by (auto simp: starts_with_iff)

lemma status_ok_parts:
  "status_ok B status \<longleftrightarrow> status_error status = None \<and>
     (\<exists>firmware. status_firmware status = Version2 firmware \<and> abi_matches B firmware \<and> runtime_matches B firmware) \<and>
     (status_keymap_drift status = None \<or> status_keymap_drift status = Some 0) \<and>
     (status_via_drift status = None \<or> status_via_drift status = Some [])"
  by (auto simp: status_ok_def firmware_is_current_def live_state_is_stale_def firmware_is_compatible_def
      split: firmware_probe.splits option.splits)

definition abi_current :: "build_hashes \<Rightarrow> string" where
  "abi_current B = ''  firmware ABI: '' @ hash_prefix (EXPECTED_ABI_HASH B) @ '' (current)''"

definition runtime_current :: "build_hashes \<Rightarrow> string" where
  "runtime_current B = ''  runtime firmware: '' @ hash_prefix (EXPECTED_RUNTIME_HASH B) @ '' (current)''"

definition stale_live :: "string \<Rightarrow> bool" where
  "stale_live line \<longleftrightarrow> starts_with line ''  dynamic keymap: stale'' \<or> starts_with line ''  layout options/macros: stale''"

lemma suffix_differs: "rev a \<noteq> rev b \<Longrightarrow> length a = length b \<Longrightarrow> x @ a \<noteq> y @ b"
  by auto

lemma stale_not_current [simp]: "x @ '' (stale)'' \<noteq> y @ '' (current)''" "x @ '' (flash required)'' \<noteq> y @ '' (current)''"
proof -
  have "rev (x @ '' (stale)'') \<noteq> rev (y @ '' (current)'')" "rev (x @ '' (flash required)'') \<noteq> rev (y @ '' (current)'')"
    by simp_all
  then show "x @ '' (stale)'' \<noteq> y @ '' (current)''" "x @ '' (flash required)'' \<noteq> y @ '' (current)''" by metis+
qed

lemma version2_lines:
  "abi_current B \<in> set (firmware_lines show_error B (Version2 firmware)) \<longleftrightarrow> abi_matches B firmware"
  "runtime_current B \<in> set (firmware_lines show_error B (Version2 firmware)) \<longleftrightarrow> runtime_matches B firmware"
  by (auto simp: firmware_lines_def abi_current_def runtime_current_def abi_matches_def runtime_matches_def
      split: option.splits)

lemma other_lines:
  "runtime_current B \<in> set (firmware_lines show_error B probe) \<Longrightarrow> \<exists>firmware. probe = Version2 firmware"
  by (cases probe) (auto simp: firmware_lines_def runtime_current_def)

lemma not_firmware_lines:
  "abi_current B \<noteq> ''Device: '' @ x" "abi_current B \<noteq> ''  error: '' @ x" "abi_current B \<noteq> via_line show_error status"
  "abi_current B \<noteq> keymap_line d" "abi_current B \<noteq> via_state_line v"
  "runtime_current B \<noteq> ''Device: '' @ x" "runtime_current B \<noteq> ''  error: '' @ x"
  "runtime_current B \<noteq> via_line show_error status" "runtime_current B \<noteq> keymap_line d" "runtime_current B \<noteq> via_state_line v"
  by (auto simp: abi_current_def runtime_current_def via_line_def keymap_line_def via_state_line_def split: option.splits)

lemma live_lines:
  "stale_live (keymap_line d) \<longleftrightarrow> d \<noteq> None \<and> d \<noteq> Some 0"
  "stale_live (via_state_line v) \<longleftrightarrow> v \<noteq> None \<and> v \<noteq> Some []"
  "\<not> stale_live (''Device: '' @ x)" "\<not> stale_live (''  error: '' @ x)" "\<not> stale_live (via_line show_error status)"
  "\<not> list_ex stale_live (firmware_lines show_error B probe)"
  by (auto simp: stale_live_def starts_with_iff keymap_line_def via_state_line_def via_line_def firmware_lines_def
      split: option.splits firmware_probe.splits)

section \<open>Properties\<close>


text \<open>
  A keyboard whose live keymap cannot be read passes the check: the failure is kept as no
  drift at all, and the report says that the keymap was not checked.
\<close>
theorem unread_keymap_passes_check:
  "let status = \<lparr>status_name = name, status_via_protocol = Some 12, status_via_error = None,
       status_firmware = Version2 \<lparr>abi_hash_prefix = hash_prefix (EXPECTED_ABI_HASH B),
         runtime_hash_prefix = hash_prefix (EXPECTED_RUNTIME_HASH B), keymap_hash_prefix = [], layer_count = 8,
         macro_count = 16, rows = 10, cols = 6, half = None\<rparr>,
       status_keymap_drift = ok_option (Inl e), status_via_drift = ok_option (Inl e'), status_error = None\<rparr>
   in status_ok B status \<and> ''  dynamic keymap: not checked'' \<in> set (print_device_status show_error B status)"
  by (simp add: status_ok_parts abi_matches_def runtime_matches_def print_device_status_def keymap_line_def)

text \<open>Every command that \<open>main\<close> runs under its first name stands in the help.\<close>

lemma help_names_commands:
  "\<forall>command \<in> {''status'', ''apply'', ''config'', ''layer'', ''flash'', ''hotplug'', ''watch''}.
     \<exists>line \<in> set print_help. contains line command"
  unfolding print_help_def by (simp add: contains.simps starts_with_def strip_prefix_def)

end
