(* ===== verification/Config_Json.thy ===== *)
theory Config_Json
  imports Layer_Config
begin

text \<open>
  \<open>configuration.json\<close> and the keycode catalogue as values: the \<open>Deserialize\<close> and \<open>Serialize\<close>
  implementations that serde derives for the structures of
  \<open>packages/silakka54/sync/src/main.rs\<close>. A structure is read from an object, in which unknown
  fields are ignored, or from an array of its fields in order; a field marked
  \<open>serde(default)\<close> may be missing. The first error is reported in the order of the
  declaration, where serde reports it in the order of the text. Reading and printing the text
  of a JSON value is left to \<open>serde_json\<close>.
\<close>

section \<open>Values\<close>

datatype decode_error =
    MissingField string
  | InvalidType string
  | OutOfRange string
  | InvalidLength string

definition struct_fields :: "string \<Rightarrow> string list \<Rightarrow> json \<Rightarrow> (decode_error, (string \<times> json) list) res" where
  "struct_fields name members value =
     (case value of
        JObject kvs \<Rightarrow> Inr kvs
      | JArray vs \<Rightarrow> if length vs \<le> length members then Inr (zip members vs) else Inl (InvalidLength name)
      | _ \<Rightarrow> Inl (InvalidType name))"

definition required ::
  "string \<Rightarrow> (json \<Rightarrow> (decode_error, 'a) res) \<Rightarrow> (string \<times> json) list \<Rightarrow> (decode_error, 'a) res" where
  "required name decode members =
     (case map_of members name of Some v \<Rightarrow> decode v | None \<Rightarrow> Inl (MissingField name))"

definition defaulted ::
  "string \<Rightarrow> 'a \<Rightarrow> (json \<Rightarrow> (decode_error, 'a) res) \<Rightarrow> (string \<times> json) list \<Rightarrow> (decode_error, 'a) res" where
  "defaulted name absent decode members =
     (case map_of members name of Some v \<Rightarrow> decode v | None \<Rightarrow> Inr absent)"

definition decode_string :: "json \<Rightarrow> (decode_error, string) res" where
  "decode_string v = (case v of JString s \<Rightarrow> Inr s | _ \<Rightarrow> Inl (InvalidType ''string''))"

definition decode_bool :: "json \<Rightarrow> (decode_error, bool) res" where
  "decode_bool v = (case v of JBool b \<Rightarrow> Inr b | _ \<Rightarrow> Inl (InvalidType ''bool''))"

text \<open>An unsigned integer of the width of its type; floating-point numbers are refused.\<close>

definition decode_word :: "string \<Rightarrow> json \<Rightarrow> (decode_error, 'w::len word) res" where
  "decode_word name v =
     (case v of
        JNumber (PosInt n) \<Rightarrow> if n < 2 ^ LENGTH('w) then Inr (of_nat n) else Inl (OutOfRange name)
      | JNumber (NegInt _) \<Rightarrow> Inl (OutOfRange name)
      | _ \<Rightarrow> Inl (InvalidType name))"

definition decode_list :: "(json \<Rightarrow> (decode_error, 'a) res) \<Rightarrow> json \<Rightarrow> (decode_error, 'a list) res" where
  "decode_list decode v = (case v of JArray vs \<Rightarrow> map_res decode vs | _ \<Rightarrow> Inl (InvalidType ''sequence''))"

definition decode_map :: "(json \<Rightarrow> (decode_error, 'a) res) \<Rightarrow> json \<Rightarrow> (decode_error, (string \<times> 'a) list) res" where
  "decode_map decode v =
     (case v of
        JObject kvs \<Rightarrow> map_res (\<lambda>(k, x). bind_res (decode x) (\<lambda>y. Inr (k, y))) kvs
      | _ \<Rightarrow> Inl (InvalidType ''map''))"

section \<open>The structures\<close>

definition decode_layer :: "json \<Rightarrow> (decode_error, configured_layer) res" where
  "decode_layer v =
     bind_res (struct_fields ''ConfiguredLayer'' [''id'', ''name'', ''keys''] v) (\<lambda>members.
     bind_res (required ''id'' decode_string members) (\<lambda>ident.
     bind_res (required ''name'' decode_string members) (\<lambda>name.
     bind_res (required ''keys'' (decode_list decode_string) members) (\<lambda>keys.
     Inr \<lparr>layer_id = ident, layer_name = name, layer_keys = keys\<rparr>))))"

definition decode_via :: "json \<Rightarrow> (decode_error, via_configuration) res" where
  "decode_via v =
     bind_res (struct_fields ''ViaConfiguration'' [''layers'', ''layout_options'', ''macros''] v) (\<lambda>members.
     bind_res (required ''layers'' (decode_list decode_layer) members) (\<lambda>ls.
     bind_res (defaulted ''layout_options'' 0 (decode_word ''u32'') members) (\<lambda>options.
     bind_res (defaulted ''macros'' [] (decode_list decode_string) members) (\<lambda>ms.
     Inr \<lparr>layers = ls, layout_options = options, macros = ms\<rparr>))))"

definition decode_tap_hold :: "json \<Rightarrow> (decode_error, tap_hold_configuration) res" where
  "decode_tap_hold v =
     bind_res (struct_fields ''TapHoldConfiguration'' [''hold_on_other_key_press_mods'', ''speculative_hold_mods''] v)
       (\<lambda>members.
     bind_res (defaulted ''hold_on_other_key_press_mods'' [] (decode_list decode_string) members) (\<lambda>hold.
     bind_res (defaulted ''speculative_hold_mods'' [] (decode_list decode_string) members) (\<lambda>speculative.
     Inr \<lparr>hold_on_other_key_press_mods = hold, speculative_hold_mods = speculative\<rparr>)))"

definition decode_combo :: "json \<Rightarrow> (decode_error, combo_configuration) res" where
  "decode_combo v =
     bind_res (struct_fields ''ComboConfiguration'' [''name'', ''keys'', ''output''] v) (\<lambda>members.
     bind_res (required ''name'' decode_string members) (\<lambda>name.
     bind_res (required ''keys'' (decode_list decode_string) members) (\<lambda>keys.
     bind_res (required ''output'' decode_string members) (\<lambda>out.
     Inr \<lparr>combo_name = name, combo_keys = keys, combo_output = out\<rparr>))))"

definition no_tap_hold :: tap_hold_configuration where
  "no_tap_hold = \<lparr>hold_on_other_key_press_mods = [], speculative_hold_mods = []\<rparr>"

definition decode_qmk :: "json \<Rightarrow> (decode_error, qmk_configuration) res" where
  "decode_qmk v =
     bind_res (struct_fields ''QmkConfiguration'' [''defines'', ''rules'', ''tap_hold'', ''combos''] v) (\<lambda>members.
     bind_res (required ''defines'' (decode_map Inr) members) (\<lambda>ds.
     bind_res (required ''rules'' (decode_map decode_bool) members) (\<lambda>rs.
     bind_res (defaulted ''tap_hold'' no_tap_hold decode_tap_hold members) (\<lambda>taps.
     bind_res (defaulted ''combos'' [] (decode_list decode_combo) members) (\<lambda>cs.
     Inr \<lparr>qmk_defines = ds, qmk_rules = rs, tap_hold = taps, combos = cs\<rparr>)))))"

definition decode_configuration :: "json \<Rightarrow> (decode_error, configuration) res" where
  "decode_configuration v =
     bind_res (struct_fields ''Configuration'' [''schema_version'', ''via'', ''qmk''] v) (\<lambda>members.
     bind_res (required ''schema_version'' (decode_word ''u32'') members) (\<lambda>schema.
     bind_res (required ''via'' decode_via members) (\<lambda>via_part.
     bind_res (required ''qmk'' decode_qmk members) (\<lambda>qmk_part.
     Inr \<lparr>schema_version = schema, via = via_part, qmk = qmk_part\<rparr>))))"

definition decode_catalog :: "json \<Rightarrow> (decode_error, qmk_catalog) res" where
  "decode_catalog v =
     bind_res (struct_fields ''QmkCatalog'' [''qmk_revision'', ''keycodes'', ''options''] v) (\<lambda>members.
     bind_res (required ''qmk_revision'' decode_string members) (\<lambda>revision.
     bind_res (required ''keycodes'' (decode_map (decode_word ''u16'')) members) (\<lambda>codes.
     bind_res (required ''options'' (decode_map Inr) members) (\<lambda>opts.
     Inr \<lparr>qmk_revision = revision, keycodes = codes, options = opts\<rparr>))))"

section \<open>Serialization\<close>

text \<open>The value a structure prints as; its fields stand in key order, as a \<open>Value\<close> has them.\<close>

definition encode_strings :: "string list \<Rightarrow> json" where
  "encode_strings ss = JArray (map JString ss)"

definition encode_word :: "'w::len word \<Rightarrow> json" where
  "encode_word w = JNumber (PosInt (unat w))"

definition encode_layer :: "configured_layer \<Rightarrow> json" where
  "encode_layer l = JObject
     [(''id'', JString (layer_id l)), (''keys'', encode_strings (layer_keys l)), (''name'', JString (layer_name l))]"

definition encode_via :: "via_configuration \<Rightarrow> json" where
  "encode_via v = JObject
     [(''layers'', JArray (map encode_layer (layers v))), (''layout_options'', encode_word (layout_options v)),
      (''macros'', encode_strings (macros v))]"

definition encode_combo :: "combo_configuration \<Rightarrow> json" where
  "encode_combo c = JObject
     [(''keys'', encode_strings (combo_keys c)), (''name'', JString (combo_name c)),
      (''output'', JString (combo_output c))]"

definition encode_tap_hold :: "tap_hold_configuration \<Rightarrow> json" where
  "encode_tap_hold t = JObject
     [(''hold_on_other_key_press_mods'', encode_strings (hold_on_other_key_press_mods t)),
      (''speculative_hold_mods'', encode_strings (speculative_hold_mods t))]"

definition encode_qmk :: "qmk_configuration \<Rightarrow> json" where
  "encode_qmk q = JObject
     [(''combos'', JArray (map encode_combo (combos q))), (''defines'', JObject (qmk_defines q)),
      (''rules'', JObject (map (\<lambda>(k, b). (k, JBool b)) (qmk_rules q))), (''tap_hold'', encode_tap_hold (tap_hold q))]"

definition encode_configuration :: "configuration \<Rightarrow> json" where
  "encode_configuration c = JObject
     [(''qmk'', encode_qmk (qmk c)), (''schema_version'', encode_word (schema_version c)),
      (''via'', encode_via (via c))]"

section \<open>Reading back\<close>

named_theorems decode_simps "reading values and structures"

lemma decode_basic [decode_simps, simp]:
  "decode_string (JString s) = Inr s"
  "decode_bool (JBool b) = Inr b"
  "struct_fields name members (JObject kvs) = Inr kvs"
  by (simp_all add: decode_string_def decode_bool_def struct_fields_def)

lemma decode_word_encode [decode_simps, simp]: "decode_word name (encode_word w) = Inr w"
  using unsigned_less [of w] by (simp add: decode_word_def encode_word_def)

lemma decode_list_map:
  assumes "\<And>x. x \<in> set xs \<Longrightarrow> d (e x) = Inr x"
  shows "decode_list d (JArray (map e xs)) = Inr xs"
proof -
  have "map_res d (map e xs) = Inr xs" using assms by (induction xs) auto
  then show ?thesis by (simp add: decode_list_def)
qed

lemma decode_strings [decode_simps, simp]: "decode_list decode_string (encode_strings ss) = Inr ss"
  unfolding encode_strings_def by (rule decode_list_map) simp

lemma decode_map_any [decode_simps, simp]: "decode_map Inr (JObject kvs) = Inr kvs"
proof -
  have "map_res (\<lambda>(k, x). bind_res (Inr x :: (decode_error, json) res) (\<lambda>y. Inr (k, y))) kvs = Inr kvs"
    by (induction kvs) auto
  then show ?thesis by (simp add: decode_map_def)
qed

lemma decode_rules [decode_simps, simp]:
  "decode_map decode_bool (JObject (map (\<lambda>(k, b). (k, JBool b)) rs)) = Inr rs"
proof -
  have "map_res (\<lambda>(k, x). bind_res (decode_bool x) (\<lambda>y. Inr (k, y))) (map (\<lambda>(k, b). (k, JBool b)) rs) = Inr rs"
    by (induction rs) auto
  then show ?thesis by (simp add: decode_map_def)
qed

lemma decode_parts [decode_simps]:
  "decode_layer (encode_layer l) = Inr l"
  "decode_combo (encode_combo c) = Inr c"
  "decode_tap_hold (encode_tap_hold t) = Inr t"
  by (simp_all add: decode_layer_def encode_layer_def decode_combo_def encode_combo_def decode_tap_hold_def
      encode_tap_hold_def required_def defaulted_def)

lemma decode_via_encode [decode_simps]: "decode_via (encode_via v) = Inr v"
  by (simp add: decode_via_def encode_via_def required_def defaulted_def decode_list_map decode_parts)

lemma decode_qmk_encode [decode_simps]: "decode_qmk (encode_qmk q) = Inr q"
  by (simp add: decode_qmk_def encode_qmk_def required_def defaulted_def decode_list_map decode_parts)

lemma decode_encode: "decode_configuration (encode_configuration c) = Inr c"
  by (simp add: decode_configuration_def encode_configuration_def required_def decode_via_encode decode_qmk_encode)

definition read_configuration :: "json \<Rightarrow> configuration option" where
  "read_configuration v = (case decode_configuration v of Inr c \<Rightarrow> Some c | Inl _ \<Rightarrow> None)"

interpretation configuration_json: codec encode_configuration read_configuration "\<lambda>_. True"
  by unfold_locales (simp add: read_configuration_def decode_encode)

text \<open>
  A configuration that the tool prints, for example a snapshot of a keyboard, is read back as
  it was: no field is lost, and two configurations that print the same are the same.
\<close>
theorem configuration_json_roundtrip:
  "decode_configuration (encode_configuration c) = Inr c \<and>
   (encode_configuration c = encode_configuration c' \<longleftrightarrow> c = c')"
  using decode_encode configuration_json.enc_inj by auto

end
