(* ===== verification/Viewer_State.thy ===== *)
theory Viewer_State
  imports Rust_Strings
begin

text \<open>
  The overlay of \<open>pkgs/keyboard-layer-viewer/source/src/main.rs\<close> as a state machine: which
  keyboard and layer it shows, whether it is visible, and when it hides. Each event comes
  with what the handler would see of its surroundings: the clock, the answer of
  \<open>hyprctl\<close> about the submap and about the placement. Window calls appear as the fields they
  set; drawing is not modelled. An index outside its vector is a panic, the value \<open>None\<close>.
\<close>

section \<open>State\<close>

record key_layer =
  kl_name :: string
  kl_keys :: "string list"

text \<open>Of the \<open>layout\<close> field only the number of keys is kept, as \<open>kp_keys\<close>: their geometry is drawing.\<close>

record keyboard_profile =
  kp_id :: string
  kp_name :: string
  kp_vid :: string
  kp_pid :: string
  kp_keys :: nat
  kp_layers :: "key_layer list"
  kp_current_layer :: nat
  kp_current_layer_hid :: bool
  kp_visible_layers :: "nat set option"

datatype window_place = Unplaced | PlacedAt string int | OnMonitor string

text \<open>What \<open>state_status\<close> reports, before \<open>serde_json\<close> prints it.\<close>

record ui_status =
  us_index :: nat
  us_id :: string
  us_name :: string
  us_vid :: string
  us_pid :: string
  us_current_layer_hid :: bool
  us_layer :: nat
  us_layer_name :: string
  us_visible :: bool
  us_enabled :: bool
  us_auto_hide_enabled :: bool
  us_held_keys :: nat
  us_layer_held :: bool
  us_suppressed :: bool

record ui_state =
  ui_profiles :: "keyboard_profile list"
  ui_active_profile :: nat
  ui_visible :: bool
  ui_auto_hide_enabled :: bool
  ui_hide_after :: "int option"
  ui_held_keys :: "(string \<times> u16) set"
  ui_suppressed_by_submap :: bool
  ui_title :: string
  ui_place :: window_place
  ui_redraws :: nat
  ui_replies :: "ui_status list"

record surroundings =
  now :: int
  hypr_submap :: "string option"
  hypr_placement :: "(string \<times> int) option"
  hypr_focused :: "string option"

datatype app_event =
    Layer nat u8
  | Key nat string u16 bool
  | InputDisconnected string
  | Activity
  | Hide
  | Place string int
  | RefreshPlacement
  | Monitor string
  | Submap string
  | Status

definition AUTO_HIDE_DURATION :: int where "AUTO_HIDE_DURATION = 3000000000"
definition SUPPRESSED_SUBMAP :: string where "SUPPRESSED_SUBMAP = ''game''"

section \<open>Handlers\<close>

definition clamp_layer :: "nat \<Rightarrow> key_layer list \<Rightarrow> nat" where
  "clamp_layer layer ls = (if layer < length ls then layer else 0)"

definition overlay_is_enabled_for_current_layer :: "keyboard_profile \<Rightarrow> bool" where
  "overlay_is_enabled_for_current_layer profile =
     (case kp_visible_layers profile of
        Some ls \<Rightarrow> kp_current_layer profile \<in> ls
      | None \<Rightarrow> True)"

definition active :: "ui_state \<Rightarrow> keyboard_profile option" where
  "active st = list_get (ui_profiles st) (ui_active_profile st)"

definition overlay_is_enabled_for_active_layer :: "ui_state \<Rightarrow> bool option" where
  "overlay_is_enabled_for_active_layer st =
     map_option overlay_is_enabled_for_current_layer (active st)"

definition submap_suppresses_activity :: "string \<Rightarrow> bool" where
  "submap_suppresses_activity submap \<longleftrightarrow> submap = SUPPRESSED_SUBMAP"

definition refresh_submap_suppression :: "surroundings \<Rightarrow> ui_state \<Rightarrow> ui_state" where
  "refresh_submap_suppression env st =
     (case hypr_submap env of
        Some submap \<Rightarrow> st\<lparr>ui_suppressed_by_submap := submap_suppresses_activity submap\<rparr>
      | None \<Rightarrow> st)"

definition input_is_held :: "nat \<Rightarrow> nat \<Rightarrow> bool" where
  "input_is_held held_keys current_layer \<longleftrightarrow> held_keys \<noteq> 0 \<or> current_layer \<noteq> 0"

datatype auto_hide_action = Unchanged | Clear | Schedule

definition auto_hide_deadline_action :: "bool \<Rightarrow> bool \<Rightarrow> bool \<Rightarrow> auto_hide_action" where
  "auto_hide_deadline_action auto_hide_enabled visible input_held =
     (if input_held then Clear
      else if \<not> auto_hide_enabled then Unchanged
      else if visible then Schedule
      else Unchanged)"

definition update_auto_hide_deadline :: "surroundings \<Rightarrow> ui_state \<Rightarrow> ui_state option" where
  "update_auto_hide_deadline env st =
     map_option (\<lambda>profile.
       case auto_hide_deadline_action (ui_auto_hide_enabled st) (ui_visible st)
              (input_is_held (card (ui_held_keys st)) (kp_current_layer profile)) of
         Unchanged \<Rightarrow> st
       | Clear \<Rightarrow> st\<lparr>ui_hide_after := None\<rparr>
       | Schedule \<Rightarrow> st\<lparr>ui_hide_after := Some (now env + AUTO_HIDE_DURATION)\<rparr>)
     (active st)"

definition show_state :: "ui_state \<Rightarrow> ui_state" where
  "show_state st = st\<lparr>ui_visible := True\<rparr>"

definition hide_state :: "ui_state \<Rightarrow> ui_state" where
  "hide_state st = st\<lparr>ui_hide_after := None, ui_auto_hide_enabled := False, ui_visible := False\<rparr>"

definition update_window_title :: "ui_state \<Rightarrow> ui_state option" where
  "update_window_title st =
     map_option (\<lambda>profile.
       st\<lparr>ui_title := kp_name profile @ '' Layer Viewer ('' @ kp_id profile @ '')''\<rparr>) (active st)"

definition queue_draw :: "ui_state \<Rightarrow> ui_state" where
  "queue_draw st = st\<lparr>ui_redraws := Suc (ui_redraws st)\<rparr>"

text \<open>The lines that \<open>activity_state\<close> and \<open>set_layer\<close> share: hide the overlay or show it.\<close>

definition reveal :: "surroundings \<Rightarrow> ui_state \<Rightarrow> ui_state option" where
  "reveal env st0 =
    (let st = refresh_submap_suppression env st0 in
     Option.bind (overlay_is_enabled_for_active_layer st) (\<lambda>enabled.
     if ui_suppressed_by_submap st \<or> \<not> enabled then Some (hide_state st)
     else update_auto_hide_deadline env ((show_state st)\<lparr>ui_auto_hide_enabled := True\<rparr>)))"

definition activity_state :: "surroundings \<Rightarrow> ui_state \<Rightarrow> ui_state option" where
  "activity_state env st = reveal env st"

definition store_layer :: "nat \<Rightarrow> keyboard_profile \<Rightarrow> nat \<Rightarrow> ui_state \<Rightarrow> ui_state" where
  "store_layer profile p layer st =
     st\<lparr>ui_profiles := (ui_profiles st)[profile := p\<lparr>kp_current_layer := layer\<rparr>]\<rparr>"

definition set_layer :: "surroundings \<Rightarrow> nat \<Rightarrow> u8 \<Rightarrow> ui_state \<Rightarrow> ui_state option" where
  "set_layer env profile layer st0 =
    (case list_get (ui_profiles st0) profile of
       None \<Rightarrow> Some st0
     | Some p \<Rightarrow>
        (let target = clamp_layer (unat layer) (kp_layers p);
             changed = (ui_active_profile st0 \<noteq> profile \<or> kp_current_layer p \<noteq> target)
         in Option.bind (update_window_title (st0\<lparr>ui_active_profile := profile\<rparr>)) (\<lambda>st1.
            let st2 = store_layer profile p target st1 in
            if changed then map_option queue_draw (reveal env st2) else Some st2)))"

definition touch_profile :: "surroundings \<Rightarrow> nat \<Rightarrow> ui_state \<Rightarrow> ui_state option" where
  "touch_profile env profile st0 =
    (if length (ui_profiles st0) \<le> profile then Some st0
     else
       let changed = (ui_active_profile st0 \<noteq> profile) in
       Option.bind (update_window_title (st0\<lparr>ui_active_profile := profile\<rparr>)) (\<lambda>st1.
       let st2 = refresh_submap_suppression env st1 in
       Option.bind (overlay_is_enabled_for_active_layer st2) (\<lambda>enabled.
       let st3 = (if ui_suppressed_by_submap st2 \<or> \<not> enabled then hide_state st2
                  else (show_state st2)\<lparr>ui_auto_hide_enabled := True\<rparr>) in
       Option.bind (update_auto_hide_deadline env st3) (\<lambda>st4.
       Some (if changed then queue_draw st4 else st4)))))"

definition key_profile ::
  "surroundings \<Rightarrow> nat \<Rightarrow> string \<Rightarrow> u16 \<Rightarrow> bool \<Rightarrow> ui_state \<Rightarrow> ui_state option" where
  "key_profile env profile device keycode pressed st =
    (let key = (device, keycode) in
     if pressed then
       if length (ui_profiles st) \<le> profile then Some st
       else touch_profile env profile (st\<lparr>ui_held_keys := insert key (ui_held_keys st)\<rparr>)
     else update_auto_hide_deadline env (st\<lparr>ui_held_keys := ui_held_keys st - {key}\<rparr>))"

definition input_disconnected :: "surroundings \<Rightarrow> string \<Rightarrow> ui_state \<Rightarrow> ui_state option" where
  "input_disconnected env device st =
    (let held_before = card (ui_held_keys st);
         st' = st\<lparr>ui_held_keys := {key \<in> ui_held_keys st. fst key \<noteq> device}\<rparr>
     in if card (ui_held_keys st') \<noteq> held_before then update_auto_hide_deadline env st' else Some st')"

definition state_status :: "ui_state \<Rightarrow> ui_status option" where
  "state_status st =
    Option.bind (active st) (\<lambda>profile.
    Option.bind (list_get (kp_layers profile) (kp_current_layer profile)) (\<lambda>layer.
    Some \<lparr>us_index = ui_active_profile st, us_id = kp_id profile, us_name = kp_name profile,
      us_vid = kp_vid profile, us_pid = kp_pid profile,
      us_current_layer_hid = kp_current_layer_hid profile,
      us_layer = kp_current_layer profile, us_layer_name = kl_name layer,
      us_visible = ui_visible st, us_enabled = overlay_is_enabled_for_current_layer profile,
      us_auto_hide_enabled = ui_auto_hide_enabled st, us_held_keys = card (ui_held_keys st),
      us_layer_held = (kp_current_layer profile \<noteq> 0),
      us_suppressed = ui_suppressed_by_submap st\<rparr>))"

definition handle_event :: "surroundings \<Rightarrow> app_event \<Rightarrow> ui_state \<Rightarrow> ui_state option" where
  "handle_event env event st =
    (case event of
       Layer profile layer \<Rightarrow> set_layer env profile layer st
     | Key profile device keycode pressed \<Rightarrow> key_profile env profile device keycode pressed st
     | InputDisconnected device \<Rightarrow> input_disconnected env device st
     | Activity \<Rightarrow> activity_state env st
     | Hide \<Rightarrow> Some (hide_state st)
     | Place monitor left_margin \<Rightarrow> Some (st\<lparr>ui_place := PlacedAt monitor (max left_margin 0)\<rparr>)
     | RefreshPlacement \<Rightarrow>
         Some (case hypr_placement env of
                 Some (monitor, left_margin) \<Rightarrow> st\<lparr>ui_place := PlacedAt monitor (max left_margin 0)\<rparr>
               | None \<Rightarrow> (case hypr_focused env of Some name \<Rightarrow> st\<lparr>ui_place := OnMonitor name\<rparr> | None \<Rightarrow> st))
     | Monitor name \<Rightarrow> Some (st\<lparr>ui_place := OnMonitor name\<rparr>)
     | Submap submap \<Rightarrow>
         (let st' = st\<lparr>ui_suppressed_by_submap := submap_suppresses_activity submap\<rparr>
          in Some (if ui_suppressed_by_submap st' then hide_state st' else st'))
     | Status \<Rightarrow> map_option (\<lambda>reply. st\<lparr>ui_replies := ui_replies st @ [reply]\<rparr>) (state_status st))"

text \<open>The 25 ms timer, after it has drained the event queue.\<close>

definition hide_timer :: "surroundings \<Rightarrow> ui_state \<Rightarrow> ui_state" where
  "hide_timer env st =
     (case ui_hide_after st of
        Some deadline \<Rightarrow> if deadline \<le> now env then hide_state st else st
      | None \<Rightarrow> st)"

definition initial_ui :: "keyboard_profile list \<Rightarrow> bool \<Rightarrow> string option \<Rightarrow> ui_state" where
  "initial_ui profiles visible submap =
     \<lparr>ui_profiles = profiles, ui_active_profile = 0,
      ui_visible = (visible \<and> (case profiles of p # _ \<Rightarrow> overlay_is_enabled_for_current_layer p | [] \<Rightarrow> False)),
      ui_auto_hide_enabled = False, ui_hide_after = None, ui_held_keys = {},
      ui_suppressed_by_submap = (case submap of Some s \<Rightarrow> submap_suppresses_activity s | None \<Rightarrow> False),
      ui_title = ''Keyboard Layer Viewer'', ui_place = Unplaced, ui_redraws = 0, ui_replies = []\<rparr>"

datatype ui_input = Event surroundings app_event | Timer surroundings

fun ui_step :: "ui_state option \<Rightarrow> ui_input \<Rightarrow> ui_state option" where
  "ui_step st (Event env event) = Option.bind st (handle_event env event)"
| "ui_step st (Timer env) = map_option (hide_timer env) st"

section \<open>Invariant\<close>

definition profile_ok :: "keyboard_profile \<Rightarrow> bool" where
  "profile_ok p \<longleftrightarrow> kp_current_layer p < length (kp_layers p)"

definition held :: "ui_state \<Rightarrow> keyboard_profile \<Rightarrow> bool" where
  "held st p \<longleftrightarrow> ui_held_keys st \<noteq> {} \<or> kp_current_layer p \<noteq> 0"

definition ui_ok :: "ui_state \<Rightarrow> bool" where
  "ui_ok st \<longleftrightarrow>
     ui_active_profile st < length (ui_profiles st) \<and> finite (ui_held_keys st) \<and>
     (\<forall>p \<in> set (ui_profiles st). profile_ok p) \<and>
     (let p = ui_profiles st ! ui_active_profile st in
      (ui_visible st \<longrightarrow> overlay_is_enabled_for_current_layer p) \<and>
      (ui_auto_hide_enabled st \<longrightarrow> ui_visible st \<and> (ui_hide_after st = None \<longleftrightarrow> held st p)) \<and>
      (ui_hide_after st \<noteq> None \<longrightarrow> ui_auto_hide_enabled st))"

lemma active_Some: "active st = Some p \<longleftrightarrow> ui_active_profile st < length (ui_profiles st) \<and>
    p = ui_profiles st ! ui_active_profile st"
  by (auto simp: active_def)

text \<open>What must hold of a state before its auto-hide deadline is brought up to date.\<close>

definition ui_shown :: "ui_state \<Rightarrow> bool" where
  "ui_shown st \<longleftrightarrow>
     ui_active_profile st < length (ui_profiles st) \<and> finite (ui_held_keys st) \<and>
     (\<forall>p \<in> set (ui_profiles st). profile_ok p) \<and>
     (ui_visible st \<longrightarrow> overlay_is_enabled_for_current_layer (ui_profiles st ! ui_active_profile st)) \<and>
     (ui_auto_hide_enabled st \<longrightarrow> ui_visible st) \<and> (ui_hide_after st \<noteq> None \<longrightarrow> ui_auto_hide_enabled st)"

lemma ui_ok_shown: "ui_ok st \<Longrightarrow> ui_shown st"
  by (auto simp: ui_ok_def ui_shown_def Let_def)

lemma update_deadline_ok:
  "ui_shown st \<Longrightarrow> \<exists>st'. update_auto_hide_deadline env st = Some st' \<and> ui_ok st'"
  by (auto simp: update_auto_hide_deadline_def active_def list_get_def ui_shown_def ui_ok_def Let_def
      auto_hide_deadline_action_def input_is_held_def held_def)

lemma hide_ok: "ui_shown st \<Longrightarrow> ui_ok (hide_state st)"
  by (auto simp: hide_state_def ui_ok_def ui_shown_def)

lemma show_shown:
  "ui_shown st \<Longrightarrow> overlay_is_enabled_for_current_layer (ui_profiles st ! ui_active_profile st) \<Longrightarrow>
   ui_shown ((show_state st)\<lparr>ui_auto_hide_enabled := True\<rparr>)"
  by (auto simp: show_state_def ui_shown_def)

text \<open>The part of the invariant that does not depend on what is visible.\<close>

definition ui_base :: "ui_state \<Rightarrow> bool" where
  "ui_base st \<longleftrightarrow> ui_active_profile st < length (ui_profiles st) \<and> finite (ui_held_keys st) \<and>
     (\<forall>p \<in> set (ui_profiles st). profile_ok p)"

lemma hide_base: "ui_base st \<Longrightarrow> ui_ok (hide_state st)"
  by (auto simp: hide_state_def ui_ok_def ui_base_def)

lemma show_base:
  assumes "ui_base st" "overlay_is_enabled_for_current_layer (ui_profiles st ! ui_active_profile st)"
  shows "ui_shown ((show_state st)\<lparr>ui_auto_hide_enabled := True\<rparr>)"
  using assms by (auto simp: show_state_def ui_shown_def ui_base_def)

lemma enabled_base: "ui_base st \<Longrightarrow> overlay_is_enabled_for_active_layer st =
    Some (overlay_is_enabled_for_current_layer (ui_profiles st ! ui_active_profile st))"
  by (auto simp: overlay_is_enabled_for_active_layer_def active_def list_get_def ui_base_def)

lemma refresh_simps [simp]:
  "ui_profiles (refresh_submap_suppression env st) = ui_profiles st"
  "ui_active_profile (refresh_submap_suppression env st) = ui_active_profile st"
  "ui_held_keys (refresh_submap_suppression env st) = ui_held_keys st"
  by (simp_all add: refresh_submap_suppression_def split: option.splits)

lemma refresh_base: "ui_base (refresh_submap_suppression env st) = ui_base st"
  by (simp add: ui_base_def)

lemma ui_ok_base: "ui_ok st \<Longrightarrow> ui_base st"
  by (simp add: ui_ok_def ui_base_def)

lemma reveal_ok:
  assumes "ui_base st"
  shows "\<exists>st'. reveal env st = Some st' \<and> ui_ok st'"
proof -
  let ?r = "refresh_submap_suppression env st"
  have b: "ui_base ?r" using assms by (simp add: refresh_base)
  show ?thesis
    using hide_base [OF b] update_deadline_ok [OF show_base [OF b], of env]
    by (auto simp: reveal_def enabled_base [OF b] Let_def)
qed

lemma queue_draw_ok [simp]: "ui_ok (queue_draw st) = ui_ok st"
  by (simp add: ui_ok_def queue_draw_def held_def)

lemma retitle_ok: "ui_ok (st\<lparr>ui_title := t\<rparr>) = ui_ok st"
  by (simp add: ui_ok_def held_def)

lemma set_layer_ok:
  assumes ok: "ui_ok st"
  shows "\<exists>st'. set_layer env profile layer st = Some st' \<and> ui_ok st'"
proof (cases "profile < length (ui_profiles st)")
  case False
  then show ?thesis using ok by (simp add: set_layer_def list_get_def)
next
  case True
  let ?p = "ui_profiles st ! profile"
  let ?t = "clamp_layer (unat layer) (kp_layers ?p)"
  have "profile_ok ?p" using ok True by (simp add: ui_ok_def)
  then have t: "?t < length (kp_layers ?p)" by (auto simp: profile_ok_def clamp_layer_def)
  obtain title where title: "update_window_title (st\<lparr>ui_active_profile := profile\<rparr>) =
      Some (st\<lparr>ui_active_profile := profile, ui_title := title\<rparr>)"
    using True by (simp add: update_window_title_def active_def list_get_def)
  define st2 where "st2 = store_layer profile ?p ?t (st\<lparr>ui_active_profile := profile, ui_title := title\<rparr>)"
  have b: "ui_base st2"
    using ok True t set_update_subset_insert [of "ui_profiles st" profile "?p\<lparr>kp_current_layer := ?t\<rparr>"]
    by (auto simp: st2_def store_layer_def ui_base_def ui_ok_def profile_ok_def)
  have eq: "set_layer env profile layer st =
    (if ui_active_profile st \<noteq> profile \<or> kp_current_layer ?p \<noteq> ?t
     then map_option queue_draw (reveal env st2) else Some st2)"
    using True title by (simp add: set_layer_def list_get_def st2_def Let_def)
  show ?thesis
  proof (cases "ui_active_profile st \<noteq> profile \<or> kp_current_layer ?p \<noteq> ?t")
    case True
    then show ?thesis using reveal_ok [OF b, of env] by (auto simp: eq)
  next
    case False
    then have "?p\<lparr>kp_current_layer := ?t\<rparr> = ?p" "ui_active_profile st = profile" by auto
    then have "st2 = st\<lparr>ui_title := title\<rparr>"
      by (simp add: st2_def store_layer_def)
    then show ?thesis using False ok by (simp add: eq retitle_ok)
  qed
qed

lemma touch_ok:
  assumes b: "ui_base st" "ui_auto_hide_enabled st \<longrightarrow> ui_visible st" "ui_hide_after st \<noteq> None \<longrightarrow> ui_auto_hide_enabled st"
    and p: "profile < length (ui_profiles st)"
  shows "\<exists>st'. touch_profile env profile st = Some st' \<and> ui_ok st'"
proof -
  obtain title where title: "update_window_title (st\<lparr>ui_active_profile := profile\<rparr>) =
      Some (st\<lparr>ui_active_profile := profile, ui_title := title\<rparr>)"
    using p by (simp add: update_window_title_def active_def list_get_def)
  define st2 where "st2 = refresh_submap_suppression env (st\<lparr>ui_active_profile := profile, ui_title := title\<rparr>)"
  have b2: "ui_base st2" using b(1) p by (simp add: st2_def ui_base_def)
  define st3 where "st3 = (if ui_suppressed_by_submap st2 \<or>
      \<not> overlay_is_enabled_for_current_layer (ui_profiles st2 ! ui_active_profile st2)
      then hide_state st2 else (show_state st2)\<lparr>ui_auto_hide_enabled := True\<rparr>)"
  have "ui_shown st3"
    using hide_base [OF b2] show_base [OF b2] by (simp add: st3_def ui_ok_shown)
  then obtain st4 where st4: "update_auto_hide_deadline env st3 = Some st4" "ui_ok st4"
    using update_deadline_ok by blast
  have "touch_profile env profile st = Some (if ui_active_profile st \<noteq> profile then queue_draw st4 else st4)"
    using p title st4(1) enabled_base [OF b2]
    by (auto simp: touch_profile_def Let_def st3_def simp flip: st2_def)
  then show ?thesis using st4(2) by simp
qed

lemma key_ok:
  assumes ok: "ui_ok st"
  shows "\<exists>st'. key_profile env profile device keycode pressed st = Some st' \<and> ui_ok st'"
proof -
  have shown: "ui_shown (st\<lparr>ui_held_keys := H\<rparr>)" if "finite H" for H
    using ui_ok_shown [OF ok] that by (simp add: ui_shown_def)
  have fin: "finite (ui_held_keys st)" using ok by (simp add: ui_ok_def)
  show ?thesis
  proof (cases "pressed \<and> profile < length (ui_profiles st)")
    case True
    have "\<exists>st'. touch_profile env profile (st\<lparr>ui_held_keys := insert (device, keycode) (ui_held_keys st)\<rparr>) = Some st' \<and> ui_ok st'"
      by (rule touch_ok) (use True shown [of "insert (device, keycode) (ui_held_keys st)"] fin in
        \<open>auto simp: ui_shown_def ui_base_def\<close>)
    then show ?thesis using True by (simp add: key_profile_def)
  next
    case False
    have "ui_shown (st\<lparr>ui_held_keys := ui_held_keys st - {(device, keycode)}\<rparr>)"
      using shown fin by simp
    from update_deadline_ok [OF this, of env] show ?thesis
      using False ok by (cases pressed) (auto simp: key_profile_def Let_def)
  qed
qed

lemma disconnected_ok:
  assumes ok: "ui_ok st"
  shows "\<exists>st'. input_disconnected env device st = Some st' \<and> ui_ok st'"
proof -
  define H where "H = {key \<in> ui_held_keys st. fst key \<noteq> device}"
  have fin: "finite (ui_held_keys st)" using ok by (simp add: ui_ok_def)
  have sub: "H \<subseteq> ui_held_keys st" "finite H" using fin by (auto simp: H_def intro: finite_subset)
  show ?thesis
  proof (cases "card H = card (ui_held_keys st)")
    case True
    then have "H = ui_held_keys st" using card_subset_eq [OF fin sub(1)] by simp
    then show ?thesis using ok by (simp add: input_disconnected_def Let_def flip: H_def)
  next
    case False
    have "ui_shown (st\<lparr>ui_held_keys := H\<rparr>)"
      using ui_ok_shown [OF ok] sub by (simp add: ui_shown_def)
    from update_deadline_ok [OF this, of env] show ?thesis
      using False by (simp add: input_disconnected_def Let_def flip: H_def)
  qed
qed

lemma place_ok [simp]: "ui_ok (st\<lparr>ui_place := w\<rparr>) = ui_ok st"
  by (simp add: ui_ok_def held_def)

lemma suppress_ok [simp]: "ui_ok (st\<lparr>ui_suppressed_by_submap := b\<rparr>) = ui_ok st"
  by (simp add: ui_ok_def held_def)

lemma replies_ok [simp]: "ui_ok (st\<lparr>ui_replies := r\<rparr>) = ui_ok st"
  by (simp add: ui_ok_def held_def)

lemma status_ok: "ui_ok st \<Longrightarrow> \<exists>reply. state_status st = Some reply"
  by (auto simp: state_status_def active_def list_get_def ui_ok_def profile_ok_def)

lemma handle_event_ok:
  assumes ok: "ui_ok st"
  shows "\<exists>st'. handle_event env event st = Some st' \<and> ui_ok st'"
  using ok set_layer_ok [OF ok] key_ok [OF ok] disconnected_ok [OF ok] reveal_ok [OF ui_ok_base [OF ok]]
    hide_ok [OF ui_ok_shown [OF ok]] status_ok [OF ok]
    hide_base [OF ui_ok_base [of "st\<lparr>ui_suppressed_by_submap := b\<rparr>" for b]]
  by (cases event) (auto simp: handle_event_def activity_state_def Let_def split: option.splits prod.splits)

definition ui_running :: "ui_state option \<Rightarrow> bool" where
  "ui_running s \<longleftrightarrow> (case s of Some st \<Rightarrow> ui_ok st | None \<Rightarrow> False)"

interpretation viewer: event_machine ui_step ui_running
proof
  fix s i assume "ui_running s"
  then obtain st where s: "s = Some st" "ui_ok st" by (auto simp: ui_running_def split: option.splits)
  show "ui_running (ui_step s i)"
  proof (cases i)
    case (Event env event)
    then show ?thesis using handle_event_ok [OF s(2), of env event] s(1) by (auto simp: ui_running_def)
  next
    case (Timer env)
    then show ?thesis using s hide_ok [OF ui_ok_shown [OF s(2)]]
      by (auto simp: ui_running_def hide_timer_def split: option.splits)
  qed
qed

lemma initial_ok:
  "profiles \<noteq> [] \<Longrightarrow> list_all profile_ok profiles \<Longrightarrow> ui_ok (initial_ui profiles visible submap)"
  by (cases profiles) (auto simp: initial_ui_def ui_ok_def list_all_iff)

section \<open>Suppression and hiding\<close>

definition game_only :: "surroundings \<Rightarrow> bool" where
  "game_only env \<longleftrightarrow> hypr_submap env \<in> {None, Some SUPPRESSED_SUBMAP}"

fun stays_in_game :: "ui_input \<Rightarrow> bool" where
  "stays_in_game (Event env (Submap submap)) = (submap = SUPPRESSED_SUBMAP)"
| "stays_in_game (Event env event) = game_only env"
| "stays_in_game (Timer env) = True"

definition ui_quiet :: "ui_state \<Rightarrow> bool" where
  "ui_quiet st \<longleftrightarrow> ui_suppressed_by_submap st \<and> \<not> ui_visible st"

lemma quiet_refresh: "game_only env \<Longrightarrow> ui_suppressed_by_submap st \<Longrightarrow>
    ui_suppressed_by_submap (refresh_submap_suppression env st)"
  by (auto simp: game_only_def refresh_submap_suppression_def submap_suppresses_activity_def)

lemma quiet_hide [simp]: "ui_quiet (hide_state st) = ui_suppressed_by_submap st"
  by (simp add: ui_quiet_def hide_state_def)

lemma quiet_fields [simp]:
  "ui_quiet (st\<lparr>ui_title := t\<rparr>) = ui_quiet st" "ui_quiet (st\<lparr>ui_active_profile := a\<rparr>) = ui_quiet st"
  "ui_quiet (st\<lparr>ui_profiles := ps\<rparr>) = ui_quiet st" "ui_quiet (st\<lparr>ui_held_keys := H\<rparr>) = ui_quiet st"
  "ui_quiet (st\<lparr>ui_place := w\<rparr>) = ui_quiet st" "ui_quiet (st\<lparr>ui_replies := r\<rparr>) = ui_quiet st"
  "ui_quiet (st\<lparr>ui_hide_after := h\<rparr>) = ui_quiet st" "ui_quiet (queue_draw st) = ui_quiet st"
  by (simp_all add: ui_quiet_def queue_draw_def)

lemma quiet_suppressed: "ui_quiet st \<Longrightarrow> ui_suppressed_by_submap st"
  by (simp add: ui_quiet_def)

lemma quiet_title: "ui_quiet st \<Longrightarrow> update_window_title (st\<lparr>ui_active_profile := a\<rparr>) = Some st' \<Longrightarrow> ui_quiet st'"
  by (auto simp: update_window_title_def)

lemma deadline_only:
  assumes "update_auto_hide_deadline env st = Some st'"
  obtains h where "st' = st\<lparr>ui_hide_after := h\<rparr>"
proof -
  obtain p where "active st = Some p"
    using assms by (auto simp: update_auto_hide_deadline_def)
  then have "\<exists>h. st' = st\<lparr>ui_hide_after := h\<rparr>"
    using assms
    by (cases "auto_hide_deadline_action (ui_auto_hide_enabled st) (ui_visible st)
          (input_is_held (card (ui_held_keys st)) (kp_current_layer p))")
      (auto simp: update_auto_hide_deadline_def intro: exI [of _ "ui_hide_after st"])
  then show ?thesis using that by blast
qed

lemma quiet_deadline: "update_auto_hide_deadline env st = Some st' \<Longrightarrow> ui_quiet st' = ui_quiet st"
  by (erule deadline_only) simp

lemma quiet_reveal:
  assumes "game_only env" "ui_quiet st" "reveal env st = Some st'"
  shows "ui_quiet st'"
  using assms quiet_refresh [OF assms(1) quiet_suppressed [OF assms(2)]]
  by (auto simp: reveal_def Let_def bind_eq_Some_conv)

lemma quiet_store [simp]: "ui_quiet (store_layer i p l st) = ui_quiet st"
  by (simp add: store_layer_def)

lemma quiet_set_layer:
  assumes "game_only env" "ui_quiet st" "set_layer env profile layer st = Some st'"
  shows "ui_quiet st'"
proof (cases "list_get (ui_profiles st) profile")
  case None
  then have "st' = st" using assms(3) unfolding set_layer_def None by simp
  then show ?thesis using assms(2) by simp
next
  case (Some p)
  then obtain st1 where "update_window_title (st\<lparr>ui_active_profile := profile\<rparr>) = Some st1"
    using assms(3) unfolding set_layer_def Some by (auto simp: Let_def bind_eq_Some_conv)
  moreover from this have "ui_quiet st1" using assms(2) by (auto elim: quiet_title)
  ultimately show ?thesis
    using assms(1,3) quiet_reveal [of env "store_layer profile p (clamp_layer (unat layer) (kp_layers p)) st1"]
    unfolding set_layer_def Some by (auto simp: Let_def split: if_splits)
qed

lemma quiet_touch:
  assumes "game_only env" "ui_quiet st" "touch_profile env profile st = Some st'"
  shows "ui_quiet st'"
proof (cases "profile < length (ui_profiles st)")
  case False
  then show ?thesis using assms by (simp add: touch_profile_def)
next
  case True
  then obtain st1 where st1: "update_window_title (st\<lparr>ui_active_profile := profile\<rparr>) = Some st1"
    using assms(3) by (auto simp: touch_profile_def Let_def bind_eq_Some_conv)
  then have "ui_quiet st1" using assms(2) by (auto elim: quiet_title)
  from quiet_refresh [OF assms(1) quiet_suppressed [OF this]] show ?thesis
    using assms(3) st1 True
    by (auto simp: touch_profile_def Let_def bind_eq_Some_conv quiet_deadline)
qed

lemma quiet_key:
  assumes "game_only env" "ui_quiet st" "key_profile env profile device keycode pressed st = Some st'"
  shows "ui_quiet st'"
  using assms quiet_touch [of env "st\<lparr>ui_held_keys := insert (device, keycode) (ui_held_keys st)\<rparr>"]
  by (auto simp: key_profile_def Let_def quiet_deadline split: if_splits)

lemma quiet_disconnected:
  "ui_quiet st \<Longrightarrow> input_disconnected env device st = Some st' \<Longrightarrow> ui_quiet st'"
  by (auto simp: input_disconnected_def Let_def quiet_deadline split: if_splits)

lemma ui_quiet_step:
  assumes "stays_in_game i" "ui_quiet st" "ui_step (Some st) i = Some st'"
  shows "ui_quiet st'"
proof (cases i)
  case (Timer env)
  then show ?thesis using assms(2,3)
    by (auto simp: hide_timer_def quiet_suppressed split: option.splits if_splits)
next
  case (Event env event)
  then have h: "handle_event env event st = Some st'" using assms(3) by simp
  show ?thesis
  proof (cases event)
    case (Submap submap)
    then show ?thesis using assms(1) h Event
      by (auto simp: handle_event_def Let_def submap_suppresses_activity_def)
  next
    case (RefreshPlacement)
    then show ?thesis using assms(2) h
      by (auto simp: handle_event_def split: option.splits)
  qed (use assms h Event in \<open>auto simp: handle_event_def activity_state_def quiet_suppressed
      intro: quiet_set_layer quiet_reveal quiet_key quiet_disconnected\<close>)
qed

lemma ui_step_None: "foldl ui_step None inputs = None"
proof (induction inputs)
  case (Cons i inputs)
  then show ?case by (cases i) simp_all
qed simp

lemma quiet_run:
  "ui_quiet st \<Longrightarrow> list_all stays_in_game inputs \<Longrightarrow> foldl ui_step (Some st) inputs = Some st' \<Longrightarrow> ui_quiet st'"
proof (induction inputs arbitrary: st)
  case (Cons i inputs)
  then show ?case
    by (cases "ui_step (Some st) i") (auto simp: ui_step_None intro: ui_quiet_step)
qed simp

lemma hide_timers:
  assumes "ui_hide_after st = Some deadline" "ui_visible st"
  shows "foldl ui_step (Some st) (map Timer ticks) =
    Some (if \<exists>env \<in> set ticks. deadline \<le> now env then hide_state st else st)"
proof -
  have hidden: "foldl ui_step (Some (hide_state st)) (map Timer ts) = Some (hide_state st)" for ts
    by (induction ts) (simp_all add: hide_timer_def hide_state_def)
  show ?thesis
    using assms by (induction ticks) (auto simp: hide_timer_def hidden)
qed

section \<open>Properties\<close>

lemma viewer_running:
  assumes "profiles \<noteq> []" "list_all profile_ok profiles"
  shows "\<exists>st. foldl ui_step (Some (initial_ui profiles visible submap)) inputs = Some st \<and> ui_ok st"
proof -
  have "ui_running (Some (initial_ui profiles visible submap))"
    using initial_ok [OF assms] by (simp add: ui_running_def)
  from viewer.run_inv [OF this, of inputs] show ?thesis
    by (auto simp: ui_running_def split: option.splits)
qed

text \<open>
  With at least one keyboard profile and every profile's layer in range, the overlay never
  panics, whatever events and timer ticks arrive and whatever \<open>hyprctl\<close> answers: the active
  profile and its layer stay in range, the window is visible only when the layer's overlay
  is enabled, and a hide deadline is set exactly while the overlay is automatic and no
  input is held.
\<close>
theorem viewer_invariant:
  assumes "profiles \<noteq> []" "list_all profile_ok profiles"
  shows "\<exists>st. foldl ui_step (Some (initial_ui profiles visible submap)) inputs = Some st \<and> ui_ok st"
  by (rule viewer_running [OF assms])

definition sample_profile :: keyboard_profile where
  "sample_profile = \<lparr>kp_id = ''silakka54'', kp_name = ''Silakka54'', kp_vid = ''feed'', kp_pid = ''1212'', kp_keys = 0,
     kp_layers = [\<lparr>kl_name = ''Base'', kl_keys = []\<rparr>, \<lparr>kl_name = ''Nav'', kl_keys = []\<rparr>],
     kp_current_layer = 0, kp_current_layer_hid = True, kp_visible_layers = None\<rparr>"

lemma viewer_invariant_witness:
  "\<exists>st. foldl ui_step (Some (initial_ui [sample_profile] True None))
     [Event \<lparr>now = 0, hypr_submap = None, hypr_placement = None, hypr_focused = None\<rparr> (Layer 0 1)] = Some st \<and> ui_ok st"
  by (rule viewer_invariant) (simp_all add: sample_profile_def profile_ok_def)

text \<open>
  C28: While Hyprland is in the \<open>game\<close> submap the overlay stays hidden: once the submap event
  has been handled, no sequence of layer reports, key events, control commands, disconnects
  or timer ticks shows the window, as long as \<open>hyprctl\<close> does not report another submap.
\<close>
theorem game_submap_hides:
  assumes "list_all stays_in_game inputs"
    and "foldl ui_step (Some st) (Event env (Submap SUPPRESSED_SUBMAP) # inputs) = Some st'"
  shows "\<not> ui_visible st'"
proof -
  have "handle_event env (Submap SUPPRESSED_SUBMAP) st = Some (hide_state (st\<lparr>ui_suppressed_by_submap := True\<rparr>))"
    by (simp add: handle_event_def Let_def submap_suppresses_activity_def)
  then have "ui_quiet st'"
    using quiet_run [OF _ assms(1), of "hide_state (st\<lparr>ui_suppressed_by_submap := True\<rparr>)" st'] assms(2) by simp
  then show ?thesis by (simp add: ui_quiet_def)
qed

definition quiet_env :: "int \<Rightarrow> surroundings" where
  "quiet_env t = \<lparr>now = t, hypr_submap = None, hypr_placement = None, hypr_focused = None\<rparr>"

lemma game_submap_hides_witness:
  "\<exists>st'. foldl ui_step (Some (initial_ui [sample_profile] True None))
     [Event (quiet_env 0) (Submap SUPPRESSED_SUBMAP), Event (quiet_env 1) Activity] = Some st' \<and> \<not> ui_visible st'"
proof -
  have "list_all stays_in_game [Event (quiet_env 1) Activity]"
    by (simp add: game_only_def quiet_env_def)
  from game_submap_hides [OF this, of "initial_ui [sample_profile] True None" "quiet_env 0"]
    viewer_running [of "[sample_profile]" True None
      "[Event (quiet_env 0) (Submap SUPPRESSED_SUBMAP), Event (quiet_env 1) Activity]"]
  show ?thesis by (auto simp: sample_profile_def profile_ok_def)
qed

text \<open>
  C29: Auto-hide is live and exact. If activity at time \<open>t\<close> leaves the overlay visible with the
  base layer active and no key held, then after any number of timer ticks the overlay is
  still visible exactly if none of them came 3 s or more after \<open>t\<close>.
\<close>
theorem activity_auto_hides:
  assumes "handle_event env Activity st = Some st'" "ui_visible st'" "ui_held_keys st' = {}"
    and "map_option kp_current_layer (active st') = Some 0"
  shows "\<exists>final. foldl ui_step (Some st') (map Timer ticks) = Some final \<and>
    (ui_visible final \<longleftrightarrow> (\<forall>tick \<in> set ticks. now tick < now env + AUTO_HIDE_DURATION))"
proof -
  let ?r = "refresh_submap_suppression env st"
  have "update_auto_hide_deadline env ((show_state ?r)\<lparr>ui_auto_hide_enabled := True\<rparr>) = Some st'"
    using assms(1,2) by (auto simp: handle_event_def activity_state_def reveal_def Let_def hide_state_def
        bind_eq_Some_conv split: if_splits)
  then have "ui_hide_after st' = Some (now env + AUTO_HIDE_DURATION)"
    using assms(3,4) by (auto simp: update_auto_hide_deadline_def active_def show_state_def
        auto_hide_deadline_action_def input_is_held_def list_get_def split: auto_hide_action.splits if_splits)
  from hide_timers [OF this assms(2), of ticks] assms(2) show ?thesis
    by (force simp: hide_state_def not_less)
qed

lemma activity_auto_hides_witness:
  "\<exists>final. foldl ui_step (handle_event (quiet_env 0) Activity (initial_ui [sample_profile] False None))
      (map Timer [quiet_env 5]) = Some final \<and>
    (ui_visible final \<longleftrightarrow> (\<forall>tick \<in> set [quiet_env 5]. now tick < now (quiet_env 0) + AUTO_HIDE_DURATION))"
proof -
  let ?st = "initial_ui [sample_profile] False None"
  let ?st' = "(show_state ?st)\<lparr>ui_auto_hide_enabled := True, ui_hide_after := Some AUTO_HIDE_DURATION\<rparr>"
  have "handle_event (quiet_env 0) Activity ?st = Some ?st'"
    by (simp add: handle_event_def activity_state_def reveal_def Let_def refresh_submap_suppression_def
        quiet_env_def overlay_is_enabled_for_active_layer_def active_def list_get_def initial_ui_def
        sample_profile_def overlay_is_enabled_for_current_layer_def update_auto_hide_deadline_def
        show_state_def auto_hide_deadline_action_def input_is_held_def)
  moreover from this have "\<exists>final. foldl ui_step (Some ?st') (map Timer [quiet_env 5]) = Some final \<and>
    (ui_visible final \<longleftrightarrow> (\<forall>tick \<in> set [quiet_env 5]. now tick < now (quiet_env 0) + AUTO_HIDE_DURATION))"
    by (rule activity_auto_hides)
      (simp_all add: show_state_def initial_ui_def sample_profile_def active_def list_get_def)
  ultimately show ?thesis by simp
qed

end
