(* ===== verification/Viewer_Bindings.thy ===== *)
theory Viewer_Bindings
  imports Viewer_State Rust_Text
begin

text \<open>
  What the overlay writes on a key (\<open>resolved_binding\<close> and its helpers in
  \<open>pkgs/keyboard-layer-viewer/source/src/main.rs\<close>): the label of the active layer or, through
  a transparent key, of the base layer, split into a tap and a hold legend. The Unicode
  upper-case mapping of a character outside ASCII, which \<open>char::to_uppercase\<close> takes from
  the Unicode tables, is the parameter \<open>upper\<close>.
\<close>

section \<open>Tap legends\<close>

definition QMK_TAP_LABELS :: "(string \<times> string) list" where
  "QMK_TAP_LABELS =
    [(''KC_TRNS'', ''___''), (''KC_NO'', ''---''), (''KC_ESC'', ''Esc''),
     (''KC_TAB'', ''Tab''), (''KC_LCTL'', ''Ctrl''), (''KC_RCTL'', ''Ctrl''),
     (''KC_LSFT'', ''Shift''), (''KC_RSFT'', ''Shift''), (''KC_LALT'', ''Alt''),
     (''KC_RALT'', ''Alt''), (''KC_LGUI'', ''GUI''), (''KC_RGUI'', ''GUI''),
     (''KC_BSPC'', ''Bspc''), (''KC_SPC'', ''Space''), (''KC_ENT'', ''Enter''),
     (''KC_DEL'', ''Del''), (''KC_INS'', ''Ins''), (''KC_HOME'', ''Home''),
     (''KC_END'', ''End''), (''KC_PGUP'', ''PgUp''), (''KC_PGDN'', ''PgDn''),
     (''KC_LEFT'', ''Left''), (''KC_DOWN'', ''Down''), (''KC_UP'', ''Up''),
     (''KC_RGHT'', ''Right''), (''KC_RIGHT'', ''Right''), (''KC_COMM'', '',''),
     (''KC_DOT'', ''.''), (''KC_SLSH'', ''/''), (''KC_MINS'', ''-''),
     (''KC_QUOT'', [CHR 0x27]), (''KC_SCLN'', '';''), (''KC_GRV'', [CHR 0x60]),
     (''KC_BSLS'', [CHR 0x5C]), (''KC_LBRC'', ''[''), (''KC_RBRC'', '']''),
     (''KC_EQL'', ''=''), (''KC_EXLM'', ''!''), (''KC_AT'', ''@''),
     (''KC_HASH'', ''#''), (''KC_DLR'', ''$''), (''KC_PERC'', ''%''),
     (''KC_CIRC'', ''^''), (''KC_AMPR'', ''&''), (''KC_ASTR'', ''*''),
     (''KC_LPRN'', ''(''), (''KC_RPRN'', '')''), (''KC_UNDS'', ''_''),
     (''KC_PLUS'', ''+''), (''KC_LCBR'', ''{''), (''KC_RCBR'', ''}''),
     (''KC_PIPE'', ''|''), (''KC_COLN'', '':''), (''KC_DQUO'', [CHR 0x22]),
     (''KC_LT'', ''<''), (''KC_GT'', ''>''), (''KC_QUES'', ''?''),
     (''KC_TILD'', ''~''), (''KC_CAPS'', ''Caps''), (''KC_APP'', ''Menu''),
     (''KC_MENU'', ''Menu''), (''KC_MUTE'', ''Mute''), (''KC_VOLD'', ''Vol-''),
     (''KC_VOLU'', ''Vol+''), (''KC_MPRV'', ''Prev''), (''KC_MNXT'', ''Next''),
     (''KC_MPLY'', ''Play''), (''KC_UNDO'', ''Undo''), (''KC_AGIN'', ''Redo''),
     (''KC_AGAIN'', ''Redo''), (''KC_REDO'', ''Redo''), (''QK_BOOT'', ''Boot'')]"

definition is_function_number :: "string \<Rightarrow> bool" where
  "is_function_number number = (case parse_u8 number of Some n \<Rightarrow> 1 \<le> n \<and> n \<le> 24 | None \<Rightarrow> False)"

definition qmk_tap_to_label :: "string \<Rightarrow> string" where
  "qmk_tap_to_label keycode =
    (case map_of QMK_TAP_LABELS keycode of
       Some label \<Rightarrow> label
     | None \<Rightarrow>
         if length keycode = 4 \<and> starts_with keycode ''KC_'' then drop 3 keycode
         else if (case strip_prefix ''KC_F'' keycode of Some number \<Rightarrow> is_function_number number | None \<Rightarrow> False)
           then drop 3 keycode
         else keycode)"

section \<open>Tap and hold legends\<close>

definition is_transparent :: "string \<Rightarrow> bool" where
  "is_transparent label \<longleftrightarrow> label \<in> {''___'', ''KC_TRNS'', ''_______'', ''TRNS''}"

definition QMK_MODIFIERS :: "(string \<times> string) list" where
  "QMK_MODIFIERS =
    [(''LCTL'', ''Ctrl''), (''RCTL'', ''Ctrl''), (''CTL'', ''Ctrl''),
     (''LSFT'', ''Shift''), (''RSFT'', ''Shift''), (''SFT'', ''Shift''),
     (''LALT'', ''Alt''), (''RALT'', ''Alt''), (''ALT'', ''Alt''),
     (''LGUI'', ''GUI''), (''RGUI'', ''GUI''), (''GUI'', ''GUI'')]"

definition qmk_modifier_to_label :: "string \<Rightarrow> string option" where
  "qmk_modifier_to_label modifier =
     map_option (join ''+'')
       (those (map (\<lambda>m. map_of QMK_MODIFIERS (trim_start_matches ''MOD_'' (trim m)))
          (split_on CHR ''|'' modifier)))"

definition MOD_TAPS :: "(string \<times> string) list" where
  "MOD_TAPS =
    [(''LCTL_T'', ''Ctrl''), (''RCTL_T'', ''Ctrl''), (''LSFT_T'', ''Shift''), (''RSFT_T'', ''Shift''),
     (''LALT_T'', ''Alt''), (''RALT_T'', ''Alt''), (''LGUI_T'', ''GUI''), (''RGUI_T'', ''GUI'')]"

text \<open>\<open>label.strip_prefix(name).strip_prefix('(').strip_suffix(')')\<close>\<close>

definition call_body :: "string \<Rightarrow> string \<Rightarrow> string option" where
  "call_body name label =
     Option.bind (strip_prefix name label) (\<lambda>rest.
     Option.bind (strip_prefix ''('' rest) (strip_suffix '')''))"

fun find_mod_tap :: "(string \<times> string) list \<Rightarrow> string \<Rightarrow> (string \<times> string) option" where
  "find_mod_tap [] label = None"
| "find_mod_tap ((name, modifier) # rest) label =
     (case call_body name label of
        Some tap \<Rightarrow> Some (modifier, qmk_tap_to_label (trim tap))
      | None \<Rightarrow> find_mod_tap rest label)"

definition parse_mod_tap :: "string \<Rightarrow> (string \<times> string) option" where
  "parse_mod_tap label =
     (case find_mod_tap MOD_TAPS label of
        Some found \<Rightarrow> Some found
      | None \<Rightarrow>
          Option.bind (strip_prefix ''MT('' label) (\<lambda>rest.
          Option.bind (strip_suffix '')'' rest) (\<lambda>inner.
          Option.bind (split_once CHR '','' inner) (\<lambda>(modifier, tap).
          Option.bind (qmk_modifier_to_label (trim modifier)) (\<lambda>hold.
          Some (hold, qmk_tap_to_label (trim tap)))))))"

definition replace_char :: "char \<Rightarrow> char \<Rightarrow> string \<Rightarrow> string" where
  "replace_char a b s = map (\<lambda>c. if c = a then b else c) s"

definition capitalize :: "(string \<Rightarrow> string) \<Rightarrow> string \<Rightarrow> string" where
  "capitalize upper s =
     (case next_char s of
        None \<Rightarrow> []
      | Some (first, rest) \<Rightarrow>
          (if list_all is_ascii first then to_ascii_uppercase first else upper first) @ rest)"

definition layer_identifier_to_label ::
  "(string \<Rightarrow> string) \<Rightarrow> string \<Rightarrow> string list \<Rightarrow> string" where
  "layer_identifier_to_label upper identifier layer_names =
     (case parse_usize identifier of
        Some index \<Rightarrow>
          (case list_get layer_names index of Some name \<Rightarrow> name | None \<Rightarrow> ''Layer '' @ show_nat index)
      | None \<Rightarrow>
          (let normalized = trim_start_matches ''_'' identifier in
           case find (\<lambda>name. eq_ignore_ascii_case (replace_char CHR '' '' CHR ''_'' name) normalized) layer_names of
             Some name \<Rightarrow> name
           | None \<Rightarrow> capitalize upper (to_ascii_lowercase (replace_char CHR ''_'' CHR '' '' normalized))))"

definition parse_layer_tap ::
  "(string \<Rightarrow> string) \<Rightarrow> string \<Rightarrow> string list \<Rightarrow> (string \<times> string) option" where
  "parse_layer_tap upper label layer_names =
     Option.bind (strip_prefix ''LT('' label) (\<lambda>rest.
     Option.bind (strip_suffix '')'' rest) (\<lambda>inner.
     Option.bind (split_once CHR '','' inner) (\<lambda>(layer, tap).
     Some (layer_identifier_to_label upper (trim layer) layer_names, qmk_tap_to_label (trim tap)))))"

definition parse_display_binding ::
  "(string \<Rightarrow> string) \<Rightarrow> string \<Rightarrow> string list \<Rightarrow> string option \<times> string option" where
  "parse_display_binding upper label layer_names =
     (if label = [] \<or> is_transparent label \<or> label \<in> {''KC_NO'', ''XXXXXXX'', ''---''} then (None, None)
      else case parse_mod_tap label of
        Some (hold, tap) \<Rightarrow> (Some tap, Some hold)
      | None \<Rightarrow>
     (case parse_layer_tap upper label layer_names of
        Some (layer, tap) \<Rightarrow> (Some tap, Some layer)
      | None \<Rightarrow>
     (case find (\<lambda>layer. layer = label) layer_names of
        Some layer \<Rightarrow> (None, Some layer)
      | None \<Rightarrow> (Some (qmk_tap_to_label label), None))))"

section \<open>Keys of a layer\<close>

datatype binding_source = Base | Overlay | ActiveLayerTrigger

record display_binding =
  db_tap :: "string option"
  db_hold :: "string option"
  db_source :: binding_source

definition binding_is_empty :: "display_binding \<Rightarrow> bool" where
  "binding_is_empty b \<longleftrightarrow> db_tap b = None \<and> db_hold b = None"

definition uses_overlay_color :: "display_binding \<Rightarrow> bool" where
  "uses_overlay_color b \<longleftrightarrow> db_source b = Overlay \<or> db_source b = ActiveLayerTrigger"

definition resolved_binding ::
  "(string \<Rightarrow> string) \<Rightarrow> key_layer list \<Rightarrow> nat \<Rightarrow> nat \<Rightarrow> string list \<Rightarrow> display_binding option" where
  "resolved_binding upper ls current key_index layer_names =
    (let current_layer = clamp_layer current ls in
     Option.bind (list_get ls current_layer) (\<lambda>active_layer.
     Option.bind (list_get (kl_keys active_layer) key_index) (\<lambda>active_label.
     let inherited_from_base = (0 < current_layer \<and> is_transparent active_label) in
     Option.bind
       (if inherited_from_base
        then Option.bind (list_get ls 0) (\<lambda>base.
             map_option (\<lambda>label. (label, Base)) (list_get (kl_keys base) key_index))
        else Some (active_label, if current_layer = 0 then Base else Overlay)) (\<lambda>(label, source).
     let (tap, hold) = parse_display_binding upper label layer_names in
     Some \<lparr>db_tap = tap, db_hold = hold,
           db_source = (if inherited_from_base \<and> hold = Some (kl_name active_layer)
                        then ActiveLayerTrigger else source)\<rparr>))))"

text \<open>The legends that \<open>draw_keyboard\<close> asks for, one for every key of the layout.\<close>

definition drawn_bindings ::
  "(string \<Rightarrow> string) \<Rightarrow> keyboard_profile \<Rightarrow> display_binding list option" where
  "drawn_bindings upper profile =
     (let layer_names = map kl_name (kp_layers profile) in
      those (map (\<lambda>index. resolved_binding upper (kp_layers profile) (kp_current_layer profile) index layer_names)
        [0..<kp_keys profile]))"

definition layers_shaped :: "nat \<Rightarrow> key_layer list \<Rightarrow> bool" where
  "layers_shaped key_count ls \<longleftrightarrow> ls \<noteq> [] \<and> list_all (\<lambda>l. length (kl_keys l) = key_count) ls"

section \<open>Lemmas\<close>

lemma clamp_in: "ls \<noteq> [] \<Longrightarrow> clamp_layer n ls < length ls"
  by (simp add: clamp_layer_def)

lemma list_get_nth [simp]: "i < length xs \<Longrightarrow> list_get xs i = Some (xs ! i)"
  by (simp add: list_get_def)

lemma shaped_nth: "layers_shaped n ls \<Longrightarrow> i < length ls \<Longrightarrow> length (kl_keys (ls ! i)) = n"
  by (simp add: layers_shaped_def list_all_length)

lemma resolved_binding_eq:
  assumes "layers_shaped key_count ls" "i < key_count"
  shows "resolved_binding upper ls current i names =
    (let c = clamp_layer current ls;
         own = kl_keys (ls ! c) ! i;
         inherited = 0 < c \<and> is_transparent own;
         shown = parse_display_binding upper (if inherited then kl_keys (ls ! 0) ! i else own) names
     in Some \<lparr>db_tap = fst shown, db_hold = snd shown,
          db_source = (if inherited then if snd shown = Some (kl_name (ls ! c)) then ActiveLayerTrigger else Base
                       else if c = 0 then Base else Overlay)\<rparr>)"
proof -
  have ne: "ls \<noteq> []" using assms(1) by (simp add: layers_shaped_def)
  then have "length (kl_keys (ls ! clamp_layer current ls)) = key_count" "length (kl_keys (ls ! 0)) = key_count"
    using shaped_nth [OF assms(1)] clamp_in by auto
  with ne assms(2) clamp_in [OF ne, of current] show ?thesis
    by (simp add: resolved_binding_def Let_def split: prod.splits)
qed

section \<open>Handlers change only the current layer of a profile\<close>

lemma title_profiles: "update_window_title st = Some st' \<Longrightarrow> ui_profiles st' = ui_profiles st"
  by (auto simp: update_window_title_def)

lemma deadline_profiles: "update_auto_hide_deadline env st = Some st' \<Longrightarrow> ui_profiles st' = ui_profiles st"
  by (erule deadline_only) simp

lemma reveal_profiles: "reveal env st = Some st' \<Longrightarrow> ui_profiles st' = ui_profiles st"
  by (auto simp: reveal_def Let_def bind_eq_Some_conv hide_state_def show_state_def
      dest!: deadline_profiles split: if_splits)

lemma touch_profiles:
  assumes "touch_profile env profile st = Some st'"
  shows "ui_profiles st' = ui_profiles st"
proof (cases "profile < length (ui_profiles st)")
  case False
  then show ?thesis using assms by (simp add: touch_profile_def)
next
  case True
  then obtain st1 where st1: "update_window_title (st\<lparr>ui_active_profile := profile\<rparr>) = Some st1"
    using assms by (auto simp: touch_profile_def Let_def bind_eq_Some_conv)
  define st2 where "st2 = refresh_submap_suppression env st1"
  obtain enabled where enabled: "overlay_is_enabled_for_active_layer st2 = Some enabled"
    using assms True st1 by (auto simp: touch_profile_def Let_def bind_eq_Some_conv simp flip: st2_def)
  define st3 where "st3 = (if ui_suppressed_by_submap st2 \<or> \<not> enabled then hide_state st2
    else (show_state st2)\<lparr>ui_auto_hide_enabled := True\<rparr>)"
  have "Option.bind (update_auto_hide_deadline env st3)
      (\<lambda>st4. Some (if ui_active_profile st \<noteq> profile then queue_draw st4 else st4)) = Some st'"
    using assms by (simp only: touch_profile_def Let_def st1 enabled st2_def [symmetric] st3_def [symmetric]
      bind.bind_lunit not_le [THEN iffD2, OF True] if_False)
  then obtain st4 where st4: "update_auto_hide_deadline env st3 = Some st4"
      "st' = (if ui_active_profile st \<noteq> profile then queue_draw st4 else st4)"
    unfolding bind_eq_Some_conv option.inject by blast
  have "ui_profiles st3 = ui_profiles st1"
    by (simp add: st3_def st2_def hide_state_def show_state_def)
  then show ?thesis
    using title_profiles [OF st1] deadline_profiles [OF st4(1)] st4(2) by (simp add: queue_draw_def)
qed

lemma key_profiles: "key_profile env profile device keycode pressed st = Some st' \<Longrightarrow> ui_profiles st' = ui_profiles st"
  by (auto simp: key_profile_def Let_def dest!: deadline_profiles touch_profiles split: if_splits)

definition profile_shapes :: "ui_state \<Rightarrow> (nat \<times> key_layer list) list" where
  "profile_shapes st = map (\<lambda>p. (kp_keys p, kp_layers p)) (ui_profiles st)"

lemma profile_shapes_eq: "ui_profiles st' = ui_profiles st \<Longrightarrow> profile_shapes st' = profile_shapes st"
  by (simp add: profile_shapes_def)

lemma set_layer_profiles:
  assumes "set_layer env profile layer st = Some st'"
  shows "profile_shapes st' = profile_shapes st"
proof (cases "list_get (ui_profiles st) profile")
  case None
  then show ?thesis using assms unfolding set_layer_def None by simp
next
  case (Some p)
  then have same: "(profile_shapes st)[profile := (kp_keys p, kp_layers p)] = profile_shapes st"
    by (auto simp: list_update_same_conv profile_shapes_def)
  show ?thesis
    using assms same unfolding set_layer_def Some profile_shapes_def
    by (auto simp: Let_def bind_eq_Some_conv store_layer_def queue_draw_def map_update
        dest!: reveal_profiles title_profiles split: if_splits)
qed

lemma step_profiles:
  assumes "ui_step (Some st) i = Some st'"
  shows "profile_shapes st' = profile_shapes st"
proof (cases i)
  case (Timer env)
  then show ?thesis using assms by (auto simp: hide_timer_def hide_state_def profile_shapes_def split: option.splits if_splits)
next
  case (Event env event)
  then have h: "handle_event env event st = Some st'" using assms by simp
  show ?thesis
  proof (cases event)
    case (Layer profile layer)
    then show ?thesis using h set_layer_profiles by (simp add: handle_event_def)
  next
    case (Key profile device keycode pressed)
    then show ?thesis using h key_profiles [of env profile device keycode pressed st st']
      by (intro profile_shapes_eq) (simp add: handle_event_def)
  next
    case (InputDisconnected device)
    then show ?thesis using h
      by (auto simp: handle_event_def input_disconnected_def Let_def profile_shapes_def
        dest: deadline_profiles split: if_splits)
  next
    case Activity
    then show ?thesis using h reveal_profiles [of env st st']
      by (intro profile_shapes_eq) (simp add: handle_event_def activity_state_def)
  next
    case RefreshPlacement
    then show ?thesis using h by (auto simp: handle_event_def profile_shapes_def split: option.splits)
  qed (use h in \<open>auto simp: handle_event_def hide_state_def profile_shapes_def Let_def split: if_splits\<close>)
qed

lemma run_profiles:
  "foldl ui_step (Some st) inputs = Some st' \<Longrightarrow> profile_shapes st' = profile_shapes st"
proof (induction inputs arbitrary: st)
  case (Cons i inputs)
  then obtain st1 where "ui_step (Some st) i = Some st1"
    by (cases "ui_step (Some st) i") (auto simp: ui_step_None)
  then show ?case using Cons step_profiles [of st i st1] by simp
qed simp

lemma drawing_total:
  assumes "profiles \<noteq> []" "list_all profile_ok profiles"
    and "list_all (\<lambda>p. layers_shaped (kp_keys p) (kp_layers p)) profiles"
  shows "\<exists>st p bs. foldl ui_step (Some (initial_ui profiles visible submap)) inputs = Some st \<and> ui_ok st \<and>
    active st = Some p \<and> drawn_bindings upper p = Some bs \<and> length bs = kp_keys p"
proof -
  obtain st where st: "foldl ui_step (Some (initial_ui profiles visible submap)) inputs = Some st" "ui_ok st"
    using viewer_running [OF assms(1,2)] by blast
  let ?p = "ui_profiles st ! ui_active_profile st"
  have a: "active st = Some ?p" "?p \<in> set (ui_profiles st)"
    using st(2) by (auto simp: active_def ui_ok_def)
  have "set (profile_shapes st) = (\<lambda>p. (kp_keys p, kp_layers p)) ` set profiles"
    using run_profiles [OF st(1)] by (simp add: initial_ui_def profile_shapes_def)
  moreover have "(kp_keys ?p, kp_layers ?p) \<in> set (profile_shapes st)"
    using a(2) by (simp add: profile_shapes_def)
  ultimately have shaped: "layers_shaped (kp_keys ?p) (kp_layers ?p)"
    using assms(3) by (auto simp: list_all_iff)
  have "\<exists>bs. drawn_bindings upper ?p = Some bs \<and> length bs = kp_keys ?p"
    unfolding drawn_bindings_def Let_def
    by (subst those_map_Some [where g = "\<lambda>i. the (resolved_binding upper (kp_layers ?p) (kp_current_layer ?p) i (map kl_name (kp_layers ?p)))"])
      (use shaped in \<open>auto simp: resolved_binding_eq Let_def\<close>)
  then show ?thesis using st a(1) by auto
qed

lemma trim_show_nat [simp]: "trim (show_nat n) = show_nat n"
  using show_nat_digits [of n] by (intro trim_all_graph) (auto simp: list_all_iff is_digit_graph)

lemma show_nat_no_comma: "CHR '','' \<notin> set (show_nat n)"
  using show_nat_digits [of n] by (auto simp: list_all_iff is_digit_def)

lemma layer_tap_display:
  assumes "n < length names" "n < 256"
  shows "parse_display_binding upper (''LT('' @ show_nat n @ '','' @ t @ '')'') names =
    (Some (qmk_tap_to_label (trim t)), Some (names ! n))"
proof -
  have "parse_mod_tap (''LT('' @ show_nat n @ '','' @ t @ '')'') = None"
    by (simp add: parse_mod_tap_def MOD_TAPS_def call_body_def strip_prefix_def)
  moreover have "split_once CHR '','' (show_nat n @ CHR '','' # t) = Some (show_nat n, t)"
    by (rule split_once_append [OF show_nat_no_comma])
  then have "parse_layer_tap upper (''LT('' @ show_nat n @ '','' @ t @ '')'') names =
      Some (names ! n, qmk_tap_to_label (trim t))"
    using assms parse_usize_show [of n] strip_suffix_append [of "'')''" "show_nat n @ CHR '','' # t"]
    by (simp add: parse_layer_tap_def strip_prefix_def layer_identifier_to_label_def)
  ultimately show ?thesis by (simp add: parse_display_binding_def is_transparent_def)
qed

section \<open>Properties\<close>

text \<open>
  The key that holds a layer is highlighted while that layer is shown: if the base layer
  has \<open>LT(n, t)\<close> on a key and layer \<open>n\<close> is transparent there, then with layer \<open>n\<close> active the
  key shows the tap legend of \<open>t\<close>, the name of layer \<open>n\<close> as its hold legend, and the colour
  of the active layer's trigger.
\<close>
theorem layer_tap_highlighted:
  assumes "layers_shaped key_count ls" "i < key_count" "0 < n" "n < length ls" "n < 256"
    and "kl_keys (ls ! 0) ! i = ''LT('' @ show_nat n @ '','' @ t @ '')''"
    and "is_transparent (kl_keys (ls ! n) ! i)"
  shows "resolved_binding upper ls n i (map kl_name ls) =
    Some \<lparr>db_tap = Some (qmk_tap_to_label (trim t)), db_hold = Some (kl_name (ls ! n)), db_source = ActiveLayerTrigger\<rparr>"
  using assms(3-5,7) layer_tap_display [of n "map kl_name ls" upper t]
  by (simp add: resolved_binding_eq [OF assms(1,2)] Let_def clamp_layer_def assms(6))

lemma show_one: "show_nat (Suc 0) = ''1''"
  by code_simp

lemma layer_tap_highlighted_witness:
  "resolved_binding (\<lambda>s. s) [\<lparr>kl_name = ''Base'', kl_keys = [''LT(1, KC_SPC)'']\<rparr>, \<lparr>kl_name = ''Nav'', kl_keys = [''___'']\<rparr>]
     1 0 (map kl_name [\<lparr>kl_name = ''Base'', kl_keys = [''LT(1, KC_SPC)'']\<rparr>, \<lparr>kl_name = ''Nav'', kl_keys = [''___'']\<rparr>]) =
   Some \<lparr>db_tap = Some (qmk_tap_to_label (trim '' KC_SPC'')), db_hold = Some ''Nav'', db_source = ActiveLayerTrigger\<rparr>"
  by (rule layer_tap_highlighted [where key_count = 1, THEN trans])
    (simp_all add: layers_shaped_def is_transparent_def show_one)

end
