(* ===== verification/Editor_Labels.thy ===== *)
theory Editor_Labels
  imports Viewer_Bindings Layer_Config
begin

text \<open>
  The key labels of \<open>pkgs/keymap-editor/main.rs\<close>: which labels the editor accepts, their
  keycodes in the saved configuration, and the tap-hold expressions it builds and reads back.
\<close>

section \<open>Taps\<close>

text \<open>The editor has its own copy of the overlay's table of tap legends.\<close>

definition EDITOR_TAP_LABELS :: "(string \<times> string) list" where
  "EDITOR_TAP_LABELS =
    [(''KC_TRNS'', ''___''), (''KC_NO'', ''---''), (''KC_ESC'', ''Esc''),
     (''KC_TAB'', ''Tab''), (''KC_LCTL'', ''Ctrl''), (''KC_RCTL'', ''Ctrl''),
     (''KC_LSFT'', ''Shift''), (''KC_RSFT'', ''Shift''), (''KC_LALT'', ''Alt''),
     (''KC_RALT'', ''Alt''), (''KC_LGUI'', ''GUI''), (''KC_RGUI'', ''GUI''),
     (''KC_BSPC'', ''Bspc''), (''KC_SPC'', ''Space''), (''KC_ENT'', ''Enter''),
     (''KC_DEL'', ''Del''), (''KC_INS'', ''Ins''), (''KC_HOME'', ''Home''),
     (''KC_END'', ''End''), (''KC_PGUP'', ''PgUp''), (''KC_PGDN'', ''PgDn''),
     (''KC_LEFT'', ''Left''), (''KC_DOWN'', ''Down''), (''KC_UP'', ''Up''),
     (''KC_RGHT'', ''Right''), (''KC_RIGHT'', ''Right''), (''KC_COMM'', '',''),
     (''KC_DOT'', ''.''), (''KC_SLSH'', ''/''), (''KC_MINS'', ''-''),
     (''KC_QUOT'', [CHR 0x27]), (''KC_SCLN'', '';''), (''KC_GRV'', [CHR 0x60]),
     (''KC_BSLS'', [CHR 0x5C]), (''KC_LBRC'', ''[''), (''KC_RBRC'', '']''),
     (''KC_EQL'', ''=''), (''KC_EXLM'', ''!''), (''KC_AT'', ''@''),
     (''KC_HASH'', ''#''), (''KC_DLR'', ''$''), (''KC_PERC'', ''%''),
     (''KC_CIRC'', ''^''), (''KC_AMPR'', ''&''), (''KC_ASTR'', ''*''),
     (''KC_LPRN'', ''(''), (''KC_RPRN'', '')''), (''KC_UNDS'', ''_''),
     (''KC_PLUS'', ''+''), (''KC_LCBR'', ''{''), (''KC_RCBR'', ''}''),
     (''KC_PIPE'', ''|''), (''KC_COLN'', '':''), (''KC_DQUO'', [CHR 0x22]),
     (''KC_LT'', ''<''), (''KC_GT'', ''>''), (''KC_QUES'', ''?''),
     (''KC_TILD'', ''~''), (''KC_CAPS'', ''Caps''), (''KC_APP'', ''Menu''),
     (''KC_MENU'', ''Menu''), (''KC_MUTE'', ''Mute''), (''KC_VOLD'', ''Vol-''),
     (''KC_VOLU'', ''Vol+''), (''KC_MPRV'', ''Prev''), (''KC_MNXT'', ''Next''),
     (''KC_MPLY'', ''Play''), (''KC_UNDO'', ''Undo''), (''KC_AGIN'', ''Redo''),
     (''KC_AGAIN'', ''Redo''), (''KC_REDO'', ''Redo''), (''QK_BOOT'', ''Boot'')]"

definition editor_qmk_tap_to_label :: "string \<Rightarrow> string" where
  "editor_qmk_tap_to_label keycode =
    (case map_of EDITOR_TAP_LABELS keycode of
       Some label \<Rightarrow> label
     | None \<Rightarrow>
         if length keycode = 4 \<and> starts_with keycode ''KC_'' then drop 3 keycode
         else if (case strip_prefix ''KC_F'' keycode of
             Some number \<Rightarrow> (case parse_u8 number of Some n \<Rightarrow> 1 \<le> n \<and> n \<le> 24 | None \<Rightarrow> False)
           | None \<Rightarrow> False) then drop 3 keycode
         else keycode)"

definition is_single_ascii_upper :: "string \<Rightarrow> bool" where
  "is_single_ascii_upper value = (case value of [c] \<Rightarrow> is_upper c | _ \<Rightarrow> False)"

definition is_single_ascii_digit :: "string \<Rightarrow> bool" where
  "is_single_ascii_digit value = (case value of [c] \<Rightarrow> is_digit c | _ \<Rightarrow> False)"

definition is_function_key :: "string \<Rightarrow> bool" where
  "is_function_key value =
    (case strip_prefix ''F'' value of
       None \<Rightarrow> False
     | Some number \<Rightarrow> (case parse_u8 number of Some n \<Rightarrow> 1 \<le> n \<and> n \<le> 24 | None \<Rightarrow> False))"

definition TAP_KEYCODES :: "(string \<times> string) list" where
  "TAP_KEYCODES =
    [(''___'', ''KC_TRNS''), (''TRNS'', ''KC_TRNS''), (''---'', ''KC_NO''),
     (''NO'', ''KC_NO''), (''Esc'', ''KC_ESC''), (''Tab'', ''KC_TAB''),
     (''Ctrl'', ''KC_LCTL''), (''Shift'', ''KC_LSFT''), (''GUI'', ''KC_LGUI''),
     (''Alt'', ''KC_LALT''), (''Space'', ''KC_SPC''), (''Enter'', ''KC_ENT''),
     (''Bspc'', ''KC_BSPC''), (''Del'', ''KC_DEL''), (''Ins'', ''KC_INS''),
     (''Home'', ''KC_HOME''), (''End'', ''KC_END''), (''PgUp'', ''KC_PGUP''),
     (''PgDn'', ''KC_PGDN''), (''Left'', ''KC_LEFT''), (''Down'', ''KC_DOWN''),
     (''Up'', ''KC_UP''), (''Right'', ''KC_RGHT''), (''Caps'', ''KC_CAPS''),
     (''Menu'', ''KC_APP''), (''Mute'', ''KC_MUTE''), (''Vol-'', ''KC_VOLD''),
     (''Vol+'', ''KC_VOLU''), (''Prev'', ''KC_MPRV''), (''Next'', ''KC_MNXT''),
     (''Play'', ''KC_MPLY''), ('','', ''KC_COMM''), (''.'', ''KC_DOT''),
     (''/'', ''KC_SLSH''), (''-'', ''KC_MINS''), ([CHR 0x27], ''KC_QUOT''),
     ('';'', ''KC_SCLN''), ([CHR 0x60], ''KC_GRV''), ([CHR 0x5C], ''KC_BSLS''),
     (''['', ''KC_LBRC''), ('']'', ''KC_RBRC''), (''='', ''KC_EQL'')]"

lemma editor_labels_shorter:
  "list_all (\<lambda>(k, l). length l < length k) EDITOR_TAP_LABELS"
  by code_simp

lemma editor_label_shorter:
  assumes "editor_qmk_tap_to_label keycode \<noteq> keycode"
  shows "length (editor_qmk_tap_to_label keycode) < length keycode"
proof (cases "map_of EDITOR_TAP_LABELS keycode")
  case None
  then have "editor_qmk_tap_to_label keycode = drop 3 keycode"
    using assms by (auto simp: editor_qmk_tap_to_label_def split: if_splits)
  moreover from this assms have "keycode \<noteq> []" by (cases keycode) auto
  ultimately show ?thesis by simp
next
  case (Some label)
  then show ?thesis
    using editor_labels_shorter by (auto simp: editor_qmk_tap_to_label_def list_all_iff dest!: map_of_SomeD)
qed

function tap_label_to_qmk :: "string \<Rightarrow> string option" where
  "tap_label_to_qmk label =
    (case map_of TAP_KEYCODES label of
       Some keycode \<Rightarrow> Some keycode
     | None \<Rightarrow>
         if is_single_ascii_upper label \<or> is_single_ascii_digit label \<or> is_function_key label
         then Some (''KC_'' @ label)
         else if starts_with label ''KC_'' then
           (let normalized = editor_qmk_tap_to_label label in
            if normalized \<noteq> label then tap_label_to_qmk normalized else None)
         else None)"
  by pat_completeness auto
termination
  by (relation "measure length") (auto intro: editor_label_shorter)

declare tap_label_to_qmk.simps [simp del]

section \<open>Labels the editor accepts\<close>

definition ALIASES :: "string list" where
  "ALIASES =
    [''___'', ''TRNS'', ''---'', ''NO'', ''Esc'', ''Tab'', ''Ctrl'', ''Shift'',
     ''GUI'', ''Alt'', ''Space'', ''Enter'', ''Bspc'', ''Del'', ''Ins'', ''Home'',
     ''End'', ''PgUp'', ''PgDn'', ''Left'', ''Down'', ''Up'', ''Right'', ''Boot'',
     ''Caps'', ''Menu'', ''Mute'', ''Vol-'', ''Vol+'', ''Prev'', ''Next'', ''Play'',
     '','', ''.'', ''/'', ''-'', [CHR 0x27], '';'', [CHR 0x60], [CHR 0x5C],
     ''['', '']'', ''='', ''!'', ''@'', ''#'', ''$'', ''%'',
     ''^'', ''&'', ''*'', ''('', '')'', ''_'', ''+'', ''{'',
     ''}'', ''|'', '':'', [CHR 0x22], ''<'', ''>'', ''?'', ''~'']"

definition is_function_call :: "string \<Rightarrow> bool" where
  "is_function_call value =
    (case split_once CHR ''('' value of
       None \<Rightarrow> False
     | Some (name, rest) \<Rightarrow>
         ends_with value '')'' \<and>
         list_all (\<lambda>ch. is_upper ch \<or> ch = CHR ''_'') name \<and>
         list_all (\<lambda>ch. is_alnum ch \<or> ch = CHR ''_'' \<or> ch = CHR '','' \<or> ch = CHR '' '') (butlast rest))"

definition valid_label :: "string \<Rightarrow> string list \<Rightarrow> bool" where
  "valid_label label layer_names \<longleftrightarrow>
     label \<in> set layer_names \<or> label \<in> set ALIASES \<or>
     is_single_ascii_upper label \<or> is_single_ascii_digit label \<or> is_function_key label \<or>
     starts_with label ''KC_'' \<or> starts_with label ''QK_'' \<or> is_function_call label"

definition keyvals :: "(int \<times> string) list" where
  "keyvals =
    [(0xff1b, ''Esc''), (0xff09, ''Tab''), (0xff08, ''Bspc''), (0xffff, ''Del''), (0xff0d, ''Enter''),
     (0xff8d, ''Enter''), (0xff50, ''Home''), (0xff57, ''End''), (0xff55, ''PgUp''), (0xff56, ''PgDn''),
     (0xff51, ''Left''), (0xff52, ''Up''), (0xff53, ''Right''), (0xff54, ''Down''), (0xffe1, ''Shift''),
     (0xffe2, ''Shift''), (0xffe3, ''Ctrl''), (0xffe4, ''Ctrl''), (0xffe7, ''GUI''), (0xffe8, ''GUI''),
     (0xffe9, ''Alt''), (0xffea, ''Alt''), (0x20, ''Space'')]"

definition keyval_to_label :: "int \<Rightarrow> string option" where
  "keyval_to_label value =
    (case map_of keyvals value of
       Some label \<Rightarrow> Some label
     | None \<Rightarrow>
         if 97 \<le> value \<and> value \<le> 122 then Some [upper_char (char_of value)]
         else if 65 \<le> value \<and> value \<le> 90 then Some [char_of value]
         else if 48 \<le> value \<and> value \<le> 57 then Some [char_of value]
         else if 0x21 \<le> value \<and> value \<le> 0x7e then Some [char_of value]
         else None)"

section \<open>Layers\<close>

record editor_layer =
  el_name :: string
  el_keys :: "string list"

definition KEY_COUNT :: nat where "KEY_COUNT = 54"

text \<open>One character of the name gives one character of the identifier: UTF-8 continuation bytes give none.\<close>

definition identifier_chars :: "char \<Rightarrow> string" where
  "identifier_chars ch =
     (if is_alnum ch \<or> ch = CHR ''_'' then [upper_char ch]
      else if 0x80 \<le> code ch \<and> code ch < 0xC0 then [] else ''_'')"

definition qmk_layer_identifier :: "string \<Rightarrow> string" where
  "qmk_layer_identifier name = CHR ''_'' # concat (map identifier_chars name)"

definition layer_index_for_identifier :: "editor_layer list \<Rightarrow> string \<Rightarrow> nat option" where
  "layer_index_for_identifier ls identifier =
    (case parse_usize identifier of
       Some index \<Rightarrow> if index < length ls \<and> index < 16 then Some index else None
     | None \<Rightarrow> find (\<lambda>i. qmk_layer_identifier (el_name (ls ! i)) = identifier) [0..<min 16 (length ls)])"

definition display_layer_identifier :: "string \<Rightarrow> string" where
  "display_layer_identifier identifier =
    (if list_all is_digit identifier then ''Layer '' @ identifier
     else
       (case to_ascii_lowercase (replace_char CHR ''_'' CHR '' '' (trim_start_matches ''_'' identifier)) of
          [] \<Rightarrow> []
        | first # rest \<Rightarrow> upper_char first # rest))"

section \<open>Holds\<close>

datatype hold_modifier = Ctrl | Shift | Alt | Gui

fun hold_label :: "hold_modifier \<Rightarrow> string" where
  "hold_label Ctrl = ''Ctrl''" | "hold_label Shift = ''Shift''"
| "hold_label Alt = ''Alt''" | "hold_label Gui = ''GUI''"

fun qmk_macro :: "hold_modifier \<Rightarrow> string" where
  "qmk_macro Ctrl = ''LCTL_T''" | "qmk_macro Shift = ''LSFT_T''"
| "qmk_macro Alt = ''LALT_T''" | "qmk_macro Gui = ''LGUI_T''"

fun qmk_mod :: "hold_modifier \<Rightarrow> string" where
  "qmk_mod Ctrl = ''MOD_LCTL''" | "qmk_mod Shift = ''MOD_LSFT''"
| "qmk_mod Alt = ''MOD_LALT''" | "qmk_mod Gui = ''MOD_LGUI''"

definition HOLD_MODIFIERS :: "hold_modifier list" where
  "HOLD_MODIFIERS = [Ctrl, Shift, Alt, Gui]"

datatype hold_action = HoldMod hold_modifier | HoldLayer string

fun hold_action_label :: "hold_action \<Rightarrow> string" where
  "hold_action_label (HoldMod modifier) = hold_label modifier"
| "hold_action_label (HoldLayer layer) = display_layer_identifier layer"

definition plain_hold_modifier :: "string \<Rightarrow> hold_modifier option" where
  "plain_hold_modifier label = find (\<lambda>m. hold_label m = label) HOLD_MODIFIERS"

definition index_of :: "('a \<Rightarrow> bool) \<Rightarrow> 'a list \<Rightarrow> nat option" where
  "index_of P xs = find (\<lambda>i. P (xs ! i)) [0..<length xs]"

definition hold_modifier_combo_index :: "hold_modifier \<Rightarrow> int" where
  "hold_modifier_combo_index modifier =
     (case index_of (\<lambda>candidate. candidate = modifier) HOLD_MODIFIERS of
        None \<Rightarrow> 0
      | Some index \<Rightarrow> int index + 1)"

definition hold_modifier_for_combo :: "int \<Rightarrow> hold_modifier option" where
  "hold_modifier_for_combo index =
     (if index - 1 < 0 then None else list_get HOLD_MODIFIERS (nat (index - 1)))"

definition hold_layer_combo_index :: "nat \<Rightarrow> int" where
  "hold_layer_combo_index layer_index = 1 + int (length HOLD_MODIFIERS) + int layer_index"

definition hold_layer_for_combo :: "int \<Rightarrow> nat option" where
  "hold_layer_for_combo index =
    (let layer_index = index - 1 - int (length HOLD_MODIFIERS) in
     if 0 \<le> layer_index \<and> layer_index < 16 then Some (nat layer_index) else None)"

fun find_hold_macro :: "hold_modifier list \<Rightarrow> string \<Rightarrow> (hold_modifier \<times> string) option" where
  "find_hold_macro [] label = None"
| "find_hold_macro (m # ms) label =
     (case call_body (qmk_macro m) label of
        Some inner \<Rightarrow> Some (m, editor_qmk_tap_to_label (trim inner))
      | None \<Rightarrow> find_hold_macro ms label)"

definition editor_parse_mod_tap :: "string \<Rightarrow> (hold_modifier \<times> string) option" where
  "editor_parse_mod_tap label =
    (case find_hold_macro HOLD_MODIFIERS label of
       Some found \<Rightarrow> Some found
     | None \<Rightarrow>
         Option.bind (strip_prefix ''MT('' label) (\<lambda>rest.
         Option.bind (strip_suffix '')'' rest) (\<lambda>inner.
         Option.bind (split_once CHR '','' inner) (\<lambda>(modifier, tap).
         Option.bind (find (\<lambda>candidate. qmk_mod candidate = trim modifier) HOLD_MODIFIERS) (\<lambda>m.
         Some (m, editor_qmk_tap_to_label (trim tap)))))))"

definition valid_tap_layer :: "string \<Rightarrow> bool" where
  "valid_tap_layer layer \<longleftrightarrow>
     (case parse_u8 layer of Some n \<Rightarrow> n < 16 | None \<Rightarrow> False) \<or>
     starts_with layer ''_'' \<and> list_all (\<lambda>ch. is_upper ch \<or> is_digit ch \<or> ch = CHR ''_'') layer"

definition editor_parse_layer_tap :: "string \<Rightarrow> (string \<times> string) option" where
  "editor_parse_layer_tap label =
     Option.bind (strip_prefix ''LT('' label) (\<lambda>rest.
     Option.bind (strip_suffix '')'' rest) (\<lambda>inner.
     Option.bind (split_once CHR '','' inner) (\<lambda>(layer, tap).
     if valid_tap_layer (trim layer) then Some (trim layer, editor_qmk_tap_to_label (trim tap)) else None)))"

definition parse_tap_hold :: "string \<Rightarrow> (hold_action \<times> string) option" where
  "parse_tap_hold label =
    (case editor_parse_mod_tap label of
       Some (modifier, tap) \<Rightarrow> Some (HoldMod modifier, tap)
     | None \<Rightarrow> map_option (\<lambda>(layer, tap). (HoldLayer layer, tap)) (editor_parse_layer_tap label))"

section \<open>The saved form of a label\<close>

definition CANONICAL_KEYS :: "(string \<times> string) list" where
  "CANONICAL_KEYS =
    [(''!'', ''KC_EXLM''), (''@'', ''KC_AT''), (''#'', ''KC_HASH''), (''$'', ''KC_DLR''),
     (''%'', ''KC_PERC''), (''^'', ''KC_CIRC''), (''&'', ''KC_AMPR''), (''*'', ''KC_ASTR''),
     (''('', ''KC_LPRN''), ('')'', ''KC_RPRN''), (''_'', ''KC_UNDS''), (''+'', ''KC_PLUS''),
     (''{'', ''KC_LCBR''), (''}'', ''KC_RCBR''), (''|'', ''KC_PIPE''), ('':'', ''KC_COLN''),
     ([CHR 0x22], ''KC_DQUO''), (''<'', ''KC_LT''), (''>'', ''KC_GT''), (''?'', ''KC_QUES''),
     (''~'', ''KC_TILD''), (''Boot'', ''QK_BOOT'')]"

definition canonical_key :: "string \<Rightarrow> editor_layer list \<Rightarrow> string" where
  "canonical_key key ls =
    (if starts_with key ''KC_'' \<or> starts_with key ''QK_'' \<or> contains key ''('' then key
     else
       (case find (\<lambda>layer. el_name layer = key) ls of
          Some layer \<Rightarrow> ''MO('' @ qmk_layer_identifier (el_name layer) @ '')''
        | None \<Rightarrow>
            (case tap_label_to_qmk key of
               Some keycode \<Rightarrow> keycode
             | None \<Rightarrow> (case map_of CANONICAL_KEYS key of Some keycode \<Rightarrow> keycode | None \<Rightarrow> key))))"

text \<open>The value that \<open>on_apply_tap_hold\<close> assigns for row \<open>row\<close> of the hold selector.\<close>

datatype editor_error =
    EmptyTap
  | UnsupportedTap string
  | NotBasicTap string
  | HoldLayerUnavailable
  | UnsupportedHold
  | EmptyLabel
  | UnsupportedLabel string
  | LayerHasKeys string nat
  | UnsupportedLabelAt string nat string
  | SettingNotBool string
  | SettingNotNumber string
  | SettingUnsupported string
  | QuickTapExceedsTapping
  | FileInvalid string
  | LayerCountChanged
  | NoKeySelected
  | SettingNamesChanged

definition tap_hold_value ::
  "editor_layer list \<Rightarrow> int \<Rightarrow> string \<Rightarrow> (editor_error, string) res" where
  "tap_hold_value ls row tap =
    (if tap = [] then Inl EmptyTap
     else if \<not> valid_label tap (map el_name ls) then Inl (UnsupportedTap tap)
     else if row \<le> 0 then Inr tap
     else
       bind_res (ok_or (NotBasicTap tap) (tap_label_to_qmk tap)) (\<lambda>tap_keycode.
       case hold_modifier_for_combo row of
         Some modifier \<Rightarrow> Inr (qmk_macro modifier @ ''('' @ tap_keycode @ '')'')
       | None \<Rightarrow>
           (case hold_layer_for_combo row of
              None \<Rightarrow> Inl UnsupportedHold
            | Some layer_index \<Rightarrow>
                (case list_get ls layer_index of
                   None \<Rightarrow> Inl HoldLayerUnavailable
                 | Some layer \<Rightarrow>
                     Inr (''LT('' @ qmk_layer_identifier (el_name layer) @ '', '' @ tap_keycode @ '')'')))))"

definition hold_combo_index :: "editor_layer list \<Rightarrow> hold_action \<Rightarrow> int" where
  "hold_combo_index ls hold =
    (case hold of
       HoldMod modifier \<Rightarrow> hold_modifier_combo_index modifier
     | HoldLayer layer \<Rightarrow>
         (case layer_index_for_identifier ls layer of None \<Rightarrow> 0 | Some i \<Rightarrow> hold_layer_combo_index i))"

section \<open>Rows of the hold selector\<close>

definition hold_row :: "hold_modifier + nat \<Rightarrow> int" where
  "hold_row hold = (case hold of Inl m \<Rightarrow> hold_modifier_combo_index m | Inr i \<Rightarrow> hold_layer_combo_index i)"

definition hold_of_row :: "int \<Rightarrow> (hold_modifier + nat) option" where
  "hold_of_row row =
     (case hold_modifier_for_combo row of
        Some m \<Rightarrow> Some (Inl m)
      | None \<Rightarrow> map_option Inr (hold_layer_for_combo row))"

definition hold_row_valid :: "hold_modifier + nat \<Rightarrow> bool" where
  "hold_row_valid hold = (case hold of Inl _ \<Rightarrow> True | Inr i \<Rightarrow> i < 16)"

lemma hold_modifier_rows:
  "hold_modifier_combo_index Ctrl = 1" "hold_modifier_combo_index Shift = 2"
  "hold_modifier_combo_index Alt = 3" "hold_modifier_combo_index Gui = 4"
  by code_simp+

lemma hold_modifier_for_row:
  "hold_modifier_for_combo row = Some m \<longleftrightarrow> hold_modifier_combo_index m = row"
proof -
  have "row \<in> {1, 2, 3, 4} \<or> row - 1 < 0 \<or> 4 \<le> row - 1" by auto
  then show ?thesis
    by (cases m) (auto simp: hold_modifier_for_combo_def hold_modifier_rows HOLD_MODIFIERS_def list_get_def)
qed

lemma hold_layer_row:
  "hold_modifier_for_combo (hold_layer_combo_index i) = None"
  "i < 16 \<Longrightarrow> hold_layer_for_combo (hold_layer_combo_index i) = Some i"
  by (simp_all add: hold_modifier_for_combo_def hold_layer_for_combo_def hold_layer_combo_index_def HOLD_MODIFIERS_def)

interpretation hold_rows: codec hold_row hold_of_row hold_row_valid
proof
  fix hold assume "hold_row_valid hold"
  then show "hold_of_row (hold_row hold) = Some hold"
  proof (cases hold)
    case (Inl m)
    then show ?thesis using hold_modifier_for_row [of "hold_modifier_combo_index m" m] by (simp add: hold_row_def hold_of_row_def)
  next
    case (Inr i)
    then show ?thesis using \<open>hold_row_valid hold\<close>
      by (simp add: hold_row_def hold_of_row_def hold_row_valid_def hold_layer_row)
  qed
qed

section \<open>Tap keycodes\<close>

definition plain_char :: "char \<Rightarrow> bool" where
  "plain_char c \<longleftrightarrow> is_graph c \<and> c \<noteq> CHR '','' \<and> c \<noteq> CHR ''('' \<and> c \<noteq> CHR '')''"

lemma tap_keycodes_plain:
  "list_all (\<lambda>(l, k). starts_with k ''KC_'' \<and> list_all plain_char k \<and> \<not> starts_with l ''KC_'' \<and>
     (l \<in> {''TRNS'', ''NO''} \<or> editor_qmk_tap_to_label k = l) \<and>
     map_of TAP_KEYCODES (editor_qmk_tap_to_label k) = Some k) TAP_KEYCODES"
  by code_simp

lemma no_short_names:
  "list_all (\<lambda>(k, _). length k \<noteq> 4 \<and> \<not> starts_with k ''KC_F'') EDITOR_TAP_LABELS"
  by code_simp

lemma short_name_label:
  assumes "length k = 4" "starts_with k ''KC_''"
  shows "editor_qmk_tap_to_label k = drop 3 k"
proof -
  have "map_of EDITOR_TAP_LABELS k = None"
    using no_short_names assms(1) by (cases "map_of EDITOR_TAP_LABELS k") (auto simp: list_all_iff dest!: map_of_SomeD)
  then show ?thesis using assms by (simp add: editor_qmk_tap_to_label_def)
qed

lemma function_name_label:
  assumes "is_function_key l"
  shows "editor_qmk_tap_to_label (''KC_'' @ l) = l"
proof -
  obtain n where l: "l = CHR ''F'' # n" and n: "case parse_u8 n of Some m \<Rightarrow> 1 \<le> m \<and> m \<le> 24 | None \<Rightarrow> False"
    using assms by (auto simp: is_function_key_def strip_prefix_Some split: option.splits)
  have "starts_with (''KC_'' @ l) ''KC_F''" by (simp add: starts_with_iff l)
  then have "map_of EDITOR_TAP_LABELS (''KC_'' @ l) = None"
    using no_short_names by (cases "map_of EDITOR_TAP_LABELS (''KC_'' @ l)") (auto simp: list_all_iff dest!: map_of_SomeD)
  moreover have "strip_prefix ''KC_F'' (''KC_'' @ l) = Some n" by (simp add: strip_prefix_Some l)
  ultimately show ?thesis using n by (simp add: editor_qmk_tap_to_label_def)
qed

lemma parse_u8_chars: "parse_u8 n = Some m \<Longrightarrow> c \<in> set n \<Longrightarrow> is_digit c \<or> c = CHR ''+''"
  by (cases n) (auto simp: parse_u8_def parse_unsigned_def Let_def list_all_iff split: if_splits)

lemma function_key_plain:
  assumes "is_function_key l"
  shows "list_all plain_char l \<and> l \<noteq> [] \<and> hd l = CHR ''F''"
proof -
  obtain n where l: "l = CHR ''F'' # n" and n: "parse_u8 n \<noteq> None"
    using assms by (auto simp: is_function_key_def strip_prefix_Some split: option.splits)
  have "is_digit c \<or> c = CHR ''+'' \<Longrightarrow> plain_char c" for c
    by (auto simp: plain_char_def is_graph_def is_digit_def)
  with parse_u8_chars [of n] n have "list_all plain_char n" by (auto simp: list_all_iff)
  then show ?thesis by (simp add: l plain_char_def is_graph_def)
qed

lemma single_plain:
  assumes "is_single_ascii_upper l \<or> is_single_ascii_digit l"
  shows "\<exists>c. l = [c] \<and> plain_char c"
  using assms
  by (auto simp: is_single_ascii_upper_def is_single_ascii_digit_def plain_char_def is_graph_def
      is_upper_def is_digit_def split: list.splits)

lemma tap_keycode_spec:
  "tap_label_to_qmk l = Some k \<Longrightarrow>
     starts_with k ''KC_'' \<and> list_all plain_char k \<and> tap_label_to_qmk (editor_qmk_tap_to_label k) = Some k \<and>
     (\<not> starts_with l ''KC_'' \<and> l \<notin> {''TRNS'', ''NO''} \<longrightarrow> editor_qmk_tap_to_label k = l)"
proof (induction l rule: tap_label_to_qmk.induct)
  case (1 l)
  show ?case
  proof (cases "map_of TAP_KEYCODES l")
    case (Some k')
    then have k: "k' = k" using "1.prems" by (simp add: tap_label_to_qmk.simps)
    with Some tap_keycodes_plain have "starts_with k ''KC_'' \<and> list_all plain_char k \<and>
        (l \<in> {''TRNS'', ''NO''} \<or> editor_qmk_tap_to_label k = l) \<and> map_of TAP_KEYCODES (editor_qmk_tap_to_label k) = Some k"
      by (auto simp: list_all_iff dest!: map_of_SomeD)
    then show ?thesis by (auto simp: tap_label_to_qmk.simps [of "editor_qmk_tap_to_label k"])
  next
    case None
    note table = None
    show ?thesis
    proof (cases "is_single_ascii_upper l \<or> is_single_ascii_digit l \<or> is_function_key l")
      case True
      then have k: "k = ''KC_'' @ l" using "1.prems" table by (simp add: tap_label_to_qmk.simps)
      have "editor_qmk_tap_to_label k = l" "list_all plain_char l"
        using True single_plain [of l] function_key_plain [of l] function_name_label [of l]
          short_name_label [of "''KC_'' @ l"]
        by (auto simp: k starts_with_iff)
      then show ?thesis
        using "1.prems" by (simp add: k starts_with_iff) (simp add: plain_char_def is_graph_def)
    next
      case False
      let ?n = "editor_qmk_tap_to_label l"
      have s: "starts_with l ''KC_''" "?n \<noteq> l" "tap_label_to_qmk ?n = Some k"
        using "1.prems" table False by (auto simp: tap_label_to_qmk.simps [of l] Let_def split: if_splits)
      from "1.IH" [OF table False s(1) refl s(2,3)] s(1) show ?thesis by simp
    qed
  qed
qed

section \<open>Tap-hold expressions\<close>

lemma plain_trim: "list_all plain_char k \<Longrightarrow> trim k = k"
  by (rule trim_all_graph) (auto simp: list_all_iff plain_char_def)

lemma plain_notin: "list_all plain_char k \<Longrightarrow> CHR '','' \<notin> set k \<and> CHR ''('' \<notin> set k \<and> CHR '')'' \<notin> set k"
  by (auto simp: list_all_iff plain_char_def)

lemma upper_char_alnum: "is_alnum c \<Longrightarrow> is_upper (upper_char c) \<or> is_digit (upper_char c)"
  by (auto simp: is_alnum_def upper_char_def is_lower_def is_upper_def is_digit_def code_char_of)

lemma upper_char_underscore [simp]: "upper_char CHR ''_'' = CHR ''_''"
  by (simp add: upper_char_def is_lower_def)

lemma identifier_char_ok:
  assumes "c \<in> set (identifier_chars ch)"
  shows "is_upper c \<or> is_digit c \<or> c = CHR ''_''"
proof (cases "is_alnum ch")
  case True
  then show ?thesis using assms upper_char_alnum [OF True] by (auto simp: identifier_chars_def)
next
  case False
  then show ?thesis using assms by (auto simp: identifier_chars_def split: if_splits)
qed

lemma identifier_chars_ok:
  "c \<in> set (qmk_layer_identifier name) \<Longrightarrow> is_upper c \<or> is_digit c \<or> c = CHR ''_''"
  using identifier_char_ok by (auto simp: qmk_layer_identifier_def)

lemma identifier_plain: "list_all plain_char (qmk_layer_identifier name)"
  using identifier_chars_ok [of _ name]
  by (fastforce simp: list_all_iff plain_char_def is_graph_def is_upper_def is_digit_def)

lemma identifier_not_number: "parse_usize (qmk_layer_identifier name) = None"
  by (simp add: qmk_layer_identifier_def parse_usize_def parse_unsigned_def Let_def is_digit_def)

lemma identifier_valid: "valid_tap_layer (qmk_layer_identifier name)"
  using identifier_chars_ok [of _ name]
  by (auto simp: valid_tap_layer_def list_all_iff starts_with_iff) (simp add: qmk_layer_identifier_def)

lemma mod_tap_reads_back:
  assumes "list_all plain_char k"
  shows "parse_tap_hold (qmk_macro m @ ''('' @ k @ '')'') = Some (HoldMod m, editor_qmk_tap_to_label k)"
  using plain_trim [OF assms]
  by (cases m) (simp_all add: parse_tap_hold_def editor_parse_mod_tap_def HOLD_MODIFIERS_def call_body_def
      strip_prefix_def strip_suffix_append [of "'')''" k, simplified])

lemma layer_tap_reads_back:
  assumes "list_all plain_char k"
  shows "parse_tap_hold (''LT('' @ qmk_layer_identifier n @ '', '' @ k @ '')'') =
    Some (HoldLayer (qmk_layer_identifier n), editor_qmk_tap_to_label k)"
proof -
  let ?id = "qmk_layer_identifier n"
  have "split_once CHR '','' (?id @ CHR '','' # CHR '' '' # k) = Some (?id, CHR '' '' # k)"
    using plain_notin [OF identifier_plain [of n]] by (intro split_once_append) simp
  moreover have "strip_suffix '')'' (?id @ '', '' @ k @ '')'') = Some (?id @ '', '' @ k)"
    using strip_suffix_append [of "'')''" "?id @ '', '' @ k"] by simp
  ultimately have "editor_parse_layer_tap (''LT('' @ ?id @ '', '' @ k @ '')'') = Some (?id, editor_qmk_tap_to_label k)"
    using plain_trim [OF identifier_plain [of n]] plain_trim [OF assms]
    by (simp add: editor_parse_layer_tap_def strip_prefix_def identifier_valid trim_blank)
  moreover have "editor_parse_mod_tap (''LT('' @ ?id @ '', '' @ k @ '')'') = None"
    by (simp add: editor_parse_mod_tap_def HOLD_MODIFIERS_def call_body_def strip_prefix_def)
  ultimately show ?thesis by (simp add: parse_tap_hold_def)
qed

lemma tap_hold_value_cases:
  assumes "tap_hold_value ls row tap = Inr v" "0 < row"
  obtains (Mod) m k where "hold_modifier_combo_index m = row" "tap_label_to_qmk tap = Some k"
      "v = qmk_macro m @ ''('' @ k @ '')''"
  | (Lay) i k where "hold_layer_combo_index i = row" "i < 16" "i < length ls" "tap_label_to_qmk tap = Some k"
      "v = ''LT('' @ qmk_layer_identifier (el_name (ls ! i)) @ '', '' @ k @ '')''"
proof -
  obtain k where k: "tap_label_to_qmk tap = Some k"
    using assms by (auto simp: tap_hold_value_def split: if_splits)
  show ?thesis
  proof (cases "hold_modifier_for_combo row")
    case (Some m)
    then have "v = qmk_macro m @ ''('' @ k @ '')''"
      using assms k by (auto simp: tap_hold_value_def split: if_splits)
    then show ?thesis using Mod Some [unfolded hold_modifier_for_row] k by blast
  next
    case None
    then obtain i where i: "hold_layer_for_combo row = Some i" "i < length ls"
        "v = ''LT('' @ qmk_layer_identifier (el_name (ls ! i)) @ '', '' @ k @ '')''"
      using assms k by (auto simp: tap_hold_value_def split: if_splits option.splits)
    then have "hold_layer_combo_index i = row" "i < 16"
      by (auto simp: hold_layer_for_combo_def hold_layer_combo_index_def Let_def split: if_splits)
    then show ?thesis using Lay i k by blast
  qed
qed

lemma layer_index_found:
  assumes "distinct (map (\<lambda>l. qmk_layer_identifier (el_name l)) ls)" "i < 16" "i < length ls"
  shows "layer_index_for_identifier ls (qmk_layer_identifier (el_name (ls ! i))) = Some i"
proof -
  have "find (\<lambda>j. qmk_layer_identifier (el_name (ls ! j)) = qmk_layer_identifier (el_name (ls ! i))) [0..<min 16 (length ls)] = Some i"
    unfolding find_Some_iff
    using assms nth_eq_iff_index_eq [OF assms(1)] by (intro exI [of _ i]) auto
  then show ?thesis by (simp add: layer_index_for_identifier_def identifier_not_number)
qed

section \<open>Properties\<close>


text \<open>
  Labels and tap keycodes convert back and forth. A label the editor can use as a tap gives a
  \<open>KC_\<close> keycode whose legend converts to the same keycode again; and unless the label was
  itself a keycode or the alias \<open>TRNS\<close> or \<open>NO\<close>, that legend is the label.
\<close>
theorem tap_label_round_trip:
  assumes "tap_label_to_qmk label = Some keycode"
  shows "starts_with keycode ''KC_'' \<and> tap_label_to_qmk (editor_qmk_tap_to_label keycode) = Some keycode \<and>
    (\<not> starts_with label ''KC_'' \<and> label \<notin> {''TRNS'', ''NO''} \<longrightarrow> editor_qmk_tap_to_label keycode = label)"
  using tap_keycode_spec [OF assms] by blast

lemma tap_label_space: "tap_label_to_qmk ''Space'' = Some ''KC_SPC''"
  by code_simp

lemma tap_label_round_trip_witness: "editor_qmk_tap_to_label ''KC_SPC'' = ''Space''"
  using tap_label_round_trip [OF tap_label_space] by (simp add: starts_with_def strip_prefix_def)

text \<open>
  What the tap-hold form assigns is what it shows. If the form accepts a tap label with a row
  of the hold selector, the expression it stores is read back as a hold on that same row,
  and as the tap legend of the label's keycode.
\<close>
theorem tap_hold_reads_back:
  assumes "tap_hold_value ls row tap = Inr value" "0 < row"
    and "distinct (map (\<lambda>l. qmk_layer_identifier (el_name l)) ls)"
  shows "\<exists>hold k. parse_tap_hold value = Some (hold, editor_qmk_tap_to_label k) \<and>
    hold_combo_index ls hold = row \<and> tap_label_to_qmk tap = Some k"
  using assms(1,2)
proof (cases rule: tap_hold_value_cases)
  case (Mod m k)
  then show ?thesis using mod_tap_reads_back [of k m] tap_keycode_spec [of tap k]
    by (simp add: hold_combo_index_def)
next
  case (Lay i k)
  then show ?thesis using layer_tap_reads_back [of k] tap_keycode_spec [of tap k] layer_index_found [OF assms(3), of i]
    by (simp add: hold_combo_index_def)
qed

definition sample_editor_layers :: "editor_layer list" where
  "sample_editor_layers = [\<lparr>el_name = ''Base'', el_keys = replicate 54 ''A''\<rparr>, \<lparr>el_name = ''Nav'', el_keys = replicate 54 ''___''\<rparr>]"

lemma sample_tap_hold:
  "tap_hold_value sample_editor_layers 6 ''Space'' = Inr ''LT(_NAV, KC_SPC)''"
  by code_simp

lemma sample_editor_ids: "distinct (map (\<lambda>l. qmk_layer_identifier (el_name l)) sample_editor_layers)"
  by code_simp

lemma tap_hold_reads_back_witness:
  "\<exists>hold k. parse_tap_hold ''LT(_NAV, KC_SPC)'' = Some (hold, editor_qmk_tap_to_label k) \<and>
    hold_combo_index sample_editor_layers hold = 6 \<and> tap_label_to_qmk ''Space'' = Some k"
  by (rule tap_hold_reads_back [OF sample_tap_hold _ sample_editor_ids]) simp

fun hold_bits :: "hold_modifier \<Rightarrow> u16" where
  "hold_bits Ctrl = 0x01" | "hold_bits Shift = 0x02" | "hold_bits Alt = 0x04" | "hold_bits Gui = 0x08"

lemma hold_bits_macro: "map_of simple_mod_taps (hold_bits m) = Some (qmk_macro m) \<and> hold_bits m AND 0x1f = hold_bits m"
  by (cases m) (simp_all add: simple_mod_taps_def)

lemma identifier_is_ident: "is_ident (qmk_layer_identifier name)"
  using identifier_chars_ok [of _ name]
  by (auto simp: is_ident_def list_all_iff ident_char_def is_alnum_def) (simp add: qmk_layer_identifier_def)


text \<open>
  Everything typed into the editor's keyboard view is accepted: a label that a key event
  produces is a valid key label whatever the layers are called.
\<close>
theorem typed_labels_valid:
  assumes "keyval_to_label value = Some label"
  shows "valid_label label layer_names"
proof -
  have "list_all (\<lambda>(_, l). l \<in> set ALIASES) keyvals" by code_simp
  then have table: "map_of keyvals value = Some label \<Longrightarrow> label \<in> set ALIASES"
    by (auto simp: list_all_iff dest!: map_of_SomeD)
  have "list_all (\<lambda>v. case keyval_to_label v of
      Some l \<Rightarrow> l \<in> set ALIASES \<or> is_single_ascii_upper l \<or> is_single_ascii_digit l | None \<Rightarrow> True) [0x21..0x7e]"
    by code_simp
  then have range: "label \<in> set ALIASES \<or> is_single_ascii_upper label \<or> is_single_ascii_digit label"
    if "value \<in> {0x21..0x7e}"
    using bspec [OF _ that [folded set_upto], of "\<lambda>v. case keyval_to_label v of
      Some l \<Rightarrow> l \<in> set ALIASES \<or> is_single_ascii_upper l \<or> is_single_ascii_digit l | None \<Rightarrow> True"] assms
    unfolding list_all_iff by simp
  from assms have "map_of keyvals value = Some label \<or> value \<in> {0x21..0x7e}"
    by (auto simp: keyval_to_label_def split: option.splits if_splits)
  with table range show ?thesis by (auto simp: valid_label_def)
qed

lemma typed_labels_valid_witness: "valid_label ''Q'' [''Base'']"
  by (rule typed_labels_valid [of 113]) code_simp

lemma paren_saved: "canonical_key ''('' ls = ''(''"
proof -
  have "contains ''('' ''(''" by code_simp
  then show ?thesis by (simp add: canonical_key_def)
qed

text \<open>
  The label \<open>(\<close> does not survive saving. The editor accepts it, but unlike the other
  punctuation labels it is saved as it is and not as \<open>KC_LPRN\<close>, because the test for
  function calls comes first; the sync tool then rejects it under every catalog and every
  layer table whose names are identifiers.
\<close>
theorem paren_label_rejected:
  assumes "catalog_ok cat" "m ''('' = None"
  shows "valid_label ''('' names \<and> resolve_keycode (canonical_key ''('' ls) m cat = Inl (UnknownKeycode ''('')"
proof -
  have "map_of cat ''('' = None" by (rule catalog_no_call [OF assms(1)]) simp
  then show ?thesis
    using assms(2)
    by (subst resolve_keycode.simps)
      (simp add: paren_saved valid_label_def ALIASES_def call_parts_def strip_suffix_def strip_prefix_def)
qed

lemma paren_label_rejected_witness:
  "resolve_keycode (canonical_key ''('' sample_editor_layers) (\<lambda>_. None) sample_catalog = Inl (UnknownKeycode ''('')"
proof -
  have "catalog_ok sample_catalog" by code_simp
  from paren_label_rejected [OF this, of "\<lambda>_. None"] show ?thesis by simp
qed


end
