(* ===== verification/Editor_File.thy ===== *)
theory Editor_File
  imports Editor_Labels
begin

text \<open>
  The configuration file as \<open>pkgs/keymap-editor/main.rs\<close> sees it: loading layers and settings,
  collecting and checking the settings form, and the value that \<open>save_configuration\<close>
  writes. The file is its parsed JSON value; \<open>serde_json\<close>'s printer and parser for scalars are
  the parameters \<open>print_json\<close> and \<open>parse_json\<close>.
\<close>

section \<open>JSON objects\<close>

text \<open>\<open>Map::insert\<close> of a key-ordered map.\<close>

fun obj_insert :: "string \<Rightarrow> 'v \<Rightarrow> (string \<times> 'v) list \<Rightarrow> (string \<times> 'v) list" where
  "obj_insert k v [] = [(k, v)]"
| "obj_insert k v ((k', v') # rest) =
     (if k = k' then (k, v) # rest
      else if k < k' then (k, v) # (k', v') # rest
      else (k', v') # obj_insert k v rest)"

fun as_array :: "json \<Rightarrow> json list option" where
  "as_array (JArray xs) = Some xs"
| "as_array _ = None"

fun as_object :: "json \<Rightarrow> (string \<times> json) list option" where
  "as_object (JObject kvs) = Some kvs"
| "as_object _ = None"

text \<open>\<open>Value::pointer\<close> and \<open>Value::pointer_mut\<close> with an update, for paths of object keys.\<close>

fun json_pointer :: "string list \<Rightarrow> json \<Rightarrow> json option" where
  "json_pointer [] v = Some v"
| "json_pointer (k # ks) v = Option.bind (json_get k v) (json_pointer ks)"

fun json_modify :: "string list \<Rightarrow> (json \<Rightarrow> ('e, json) res) \<Rightarrow> 'e \<Rightarrow> json \<Rightarrow> ('e, json) res" where
  "json_modify [] f e v = f v"
| "json_modify (k # ks) f e (JObject kvs) =
     (case map_of kvs k of
        None \<Rightarrow> Inl e
      | Some v \<Rightarrow> bind_res (json_modify ks f e v) (\<lambda>v'. Inr (JObject (obj_insert k v' kvs))))"
| "json_modify (k # ks) f e _ = Inl e"

section \<open>Settings\<close>

datatype qmk_section = SectionDefine | SectionRule

record qmk_setting =
  qs_section :: qmk_section
  qs_name :: string
  qs_value :: json

fun section_key :: "qmk_section \<Rightarrow> string" where
  "section_key SectionDefine = ''defines''"
| "section_key SectionRule = ''rules''"

definition is_scalar :: "json \<Rightarrow> bool" where
  "is_scalar v = (case v of JBool _ \<Rightarrow> True | JNumber _ \<Rightarrow> True | JString _ \<Rightarrow> True | _ \<Rightarrow> False)"

definition load_section :: "json \<Rightarrow> qmk_section \<Rightarrow> (editor_error, qmk_setting list) res" where
  "load_section value sec =
     bind_res (ok_or (FileInvalid (section_key sec))
         (Option.bind (json_pointer [''qmk'', section_key sec] value) as_object)) (\<lambda>kvs.
       map_res (\<lambda>(name, v). if is_scalar v then Inr \<lparr>qs_section = sec, qs_name = name, qs_value = v\<rparr>
         else Inl (FileInvalid name)) kvs)"

definition load_qmk_settings :: "json \<Rightarrow> (editor_error, qmk_setting list) res" where
  "load_qmk_settings value =
     bind_res (load_section value SectionDefine) (\<lambda>ds.
     bind_res (load_section value SectionRule) (\<lambda>rs. Inr (ds @ rs)))"

definition setting_text :: "(json \<Rightarrow> string) \<Rightarrow> json \<Rightarrow> string" where
  "setting_text print_json value = (case as_str value of Some s \<Rightarrow> s | None \<Rightarrow> print_json value)"

record qmk_field =
  qf_setting :: qmk_setting
  qf_entry :: string

fun parse_setting :: "(string \<Rightarrow> json option) \<Rightarrow> string \<Rightarrow> json \<Rightarrow> string \<Rightarrow> (editor_error, json) res" where
  "parse_setting parse_json name (JBool _) text =
     (if text = ''true'' then Inr (JBool True)
      else if text = ''false'' then Inr (JBool False)
      else Inl (SettingNotBool name))"
| "parse_setting parse_json name (JNumber _) text =
     (case parse_json text of Some (JNumber n) \<Rightarrow> Inr (JNumber n) | _ \<Rightarrow> Inl (SettingNotNumber name))"
| "parse_setting parse_json name (JString _) text = Inr (JString text)"
| "parse_setting parse_json name _ text = Inl (SettingUnsupported name)"

definition collect_qmk_settings ::
  "(string \<Rightarrow> json option) \<Rightarrow> qmk_field list \<Rightarrow> (editor_error, qmk_setting list) res" where
  "collect_qmk_settings parse_json =
     map_res (\<lambda>field. let setting = qf_setting field in
       bind_res (parse_setting parse_json (qs_name setting) (qs_value setting) (trim (qf_entry field)))
         (\<lambda>v. Inr (setting\<lparr>qs_value := v\<rparr>)))"

definition setting_number :: "qmk_setting list \<Rightarrow> string \<Rightarrow> nat option" where
  "setting_number settings name =
     Option.bind (find (\<lambda>s. qs_section s = SectionDefine \<and> qs_name s = name) settings)
       (\<lambda>s. as_u64 (qs_value s))"

definition validate_qmk_settings :: "qmk_setting list \<Rightarrow> (editor_error, unit) res" where
  "validate_qmk_settings settings =
     (case (setting_number settings ''QUICK_TAP_TERM'', setting_number settings ''TAPPING_TERM'') of
        (Some quick, Some tapping) \<Rightarrow> if tapping < quick then Inl QuickTapExceedsTapping else Inr ()
      | _ \<Rightarrow> Inr ())"

section \<open>Layers in the file\<close>

definition parse_layer :: "json \<Rightarrow> (editor_error, editor_layer) res" where
  "parse_layer layer =
     bind_res (ok_or (FileInvalid ''name'') (Option.bind (json_get ''name'' layer) as_str)) (\<lambda>name.
     bind_res (ok_or (FileInvalid name) (Option.bind (json_get ''keys'' layer) as_array)) (\<lambda>keys.
     bind_res (map_res (\<lambda>key. ok_or (FileInvalid name) (as_str key)) keys) (\<lambda>keys.
     Inr \<lparr>el_name = name, el_keys = keys\<rparr>)))"

definition parse_layers :: "json \<Rightarrow> (editor_error, editor_layer list) res" where
  "parse_layers value =
     (if Option.bind (json_get ''schema_version'' value) as_u64 \<noteq> Some 1 then Inl (FileInvalid ''schema_version'')
      else
        bind_res (ok_or (FileInvalid ''via.layers'')
            (Option.bind (json_pointer [''via'', ''layers''] value) as_array)) (\<lambda>source.
        bind_res (map_res parse_layer source) (\<lambda>ls.
        if ls = [] then Inl (FileInvalid ''layers'')
        else bind_res (each_res (\<lambda>l. if length (el_keys l) \<noteq> KEY_COUNT
               then Inl (LayerHasKeys (el_name l) (length (el_keys l))) else Inr ()) ls) (\<lambda>_. Inr ls))))"

definition validate_layers :: "editor_layer list \<Rightarrow> (editor_error, unit) res" where
  "validate_layers ls =
     each_res (\<lambda>layer.
       if length (el_keys layer) \<noteq> KEY_COUNT then Inl (LayerHasKeys (el_name layer) (length (el_keys layer)))
       else each_res (\<lambda>(i, label).
         if valid_label label (map el_name ls) then Inr () else Inl (UnsupportedLabelAt (el_name layer) i label))
         (enumerate 0 (el_keys layer))) ls"

definition store_layer_json :: "editor_layer list \<Rightarrow> json \<times> editor_layer \<Rightarrow> (editor_error, json) res" where
  "store_layer_json ls = (\<lambda>(target, layer).
     case as_object target of
       None \<Rightarrow> Inl (FileInvalid ''layer'')
     | Some object \<Rightarrow>
         Inr (JObject (obj_insert ''keys'' (JArray (map (\<lambda>key. JString (canonical_key key ls)) (el_keys layer)))
                (obj_insert ''name'' (JString (el_name layer)) object))))"

definition store_layers :: "editor_layer list \<Rightarrow> json \<Rightarrow> (editor_error, json) res" where
  "store_layers ls target =
     (case as_array target of
        None \<Rightarrow> Inl (FileInvalid ''via.layers'')
      | Some targets \<Rightarrow>
          if length targets \<noteq> length ls then Inl LayerCountChanged
          else bind_res (map_res (store_layer_json ls) (zip targets ls)) (\<lambda>stored. Inr (JArray stored)))"

definition store_setting :: "json \<Rightarrow> qmk_setting \<Rightarrow> (editor_error, json) res" where
  "store_setting value setting =
     json_modify [''qmk'', section_key (qs_section setting)]
       (\<lambda>object. case as_object object of
          None \<Rightarrow> Inl (FileInvalid (section_key (qs_section setting)))
        | Some kvs \<Rightarrow> Inr (JObject (obj_insert (qs_name setting) (qs_value setting) kvs)))
       (FileInvalid (section_key (qs_section setting))) value"

text \<open>The new value of the file.\<close>

definition save_value ::
  "json \<Rightarrow> editor_layer list \<Rightarrow> qmk_setting list \<Rightarrow> (editor_error, json) res" where
  "save_value value ls settings =
     bind_res (json_modify [''via'', ''layers''] (store_layers ls) (FileInvalid ''via.layers'') value)
       (\<lambda>value. fold_res store_setting value settings)"

section \<open>Reading back a saved value\<close>

lemma map_of_obj_insert: "map_of (obj_insert k v kvs) = (map_of kvs)(k \<mapsto> v)"
  by (induction kvs) (auto simp: fun_eq_iff)

lemma json_get_insert: "json_get x (JObject (obj_insert k v kvs)) = (if x = k then Some v else json_get x (JObject kvs))"
  by (simp add: map_of_obj_insert)

text \<open>Two paths that part at some key.\<close>

fun apart :: "string list \<Rightarrow> string list \<Rightarrow> bool" where
  "apart (a # as) (b # bs) = (a \<noteq> b \<or> apart as bs)"
| "apart _ _ = False"

lemma json_modify_at:
  "json_modify ks f e v = Inr v' \<Longrightarrow>
     \<exists>x x'. json_pointer ks v = Some x \<and> f x = Inr x' \<and> json_pointer ks v' = Some x'"
proof (induction ks f e v arbitrary: v' rule: json_modify.induct)
  case (2 k ks f e kvs)
  then show ?case by (auto simp: map_of_obj_insert split: option.splits)
qed auto

lemma json_modify_apart:
  "json_modify ks f e v = Inr v' \<Longrightarrow> apart ks ps \<Longrightarrow> json_pointer ps v' = json_pointer ps v"
proof (induction ks f e v arbitrary: v' ps rule: json_modify.induct)
  case (2 k ks f e kvs)
  then obtain p ps' where ps: "ps = p # ps'" by (cases ps) auto
  show ?case using 2 by (auto simp: ps map_of_obj_insert split: option.splits)
qed auto

lemma json_pointer_append: "json_pointer (ps @ qs) v = Option.bind (json_pointer ps v) (json_pointer qs)"
  by (induction ps arbitrary: v) (simp_all split: bind_split)

lemma json_pointer_single: "json_pointer [k] = json_get k"
  by (simp add: fun_eq_iff split: bind_split)

lemmas json_pointer_snoc = json_pointer_append [of _ "[k]" for k, unfolded json_pointer_single]

definition setting_path :: "qmk_setting \<Rightarrow> string list" where
  "setting_path s = [''qmk'', section_key (qs_section s), qs_name s]"

lemma section_key_inj [simp]: "section_key a = section_key b \<longleftrightarrow> a = b"
  by (cases a; cases b) simp_all

lemma as_object_Some [simp]: "as_object x = Some kvs \<longleftrightarrow> x = JObject kvs"
  by (cases x) auto

lemma as_array_Some [simp]: "as_array x = Some xs \<longleftrightarrow> x = JArray xs"
  by (cases x) auto

lemma as_str_Some [simp]: "as_str x = Some t \<longleftrightarrow> x = JString t"
  by (cases x) auto

lemma store_setting_object:
  assumes "store_setting doc s = Inr doc'"
  obtains kvs where "json_pointer [''qmk'', section_key (qs_section s)] doc = Some (JObject kvs)"
    "json_pointer [''qmk'', section_key (qs_section s)] doc' = Some (JObject (obj_insert (qs_name s) (qs_value s) kvs))"
proof -
  obtain x x' where x: "json_pointer [''qmk'', section_key (qs_section s)] doc = Some x"
      "json_pointer [''qmk'', section_key (qs_section s)] doc' = Some x'"
      "(case as_object x of None \<Rightarrow> Inl (FileInvalid (section_key (qs_section s)))
        | Some kvs \<Rightarrow> Inr (JObject (obj_insert (qs_name s) (qs_value s) kvs))) = Inr x'"
    using json_modify_at [OF assms [unfolded store_setting_def]] by blast
  then show ?thesis using that by (cases "as_object x") auto
qed

lemma store_setting_at:
  assumes "store_setting doc s = Inr doc'"
  shows "json_pointer (setting_path s) doc' = Some (qs_value s)"
proof -
  have "setting_path s = [''qmk'', section_key (qs_section s)] @ [qs_name s]" by (simp add: setting_path_def)
  then show ?thesis using store_setting_object [OF assms]
    by (metis (no_types, lifting) bind.bind_lunit json_get_insert json_pointer_snoc)
qed

lemma store_setting_apart:
  assumes "store_setting doc s = Inr doc'" "apart (setting_path s) ps"
  shows "json_pointer ps doc' = json_pointer ps doc"
proof (cases "apart [''qmk'', section_key (qs_section s)] ps")
  case True
  then show ?thesis using json_modify_apart [OF assms(1) [unfolded store_setting_def]] by simp
next
  case False
  obtain k rest where ps: "ps = [''qmk'', section_key (qs_section s)] @ k # rest" "k \<noteq> qs_name s"
    using assms(2) False by (auto simp: setting_path_def elim!: apart.elims)
  obtain kvs where "json_pointer [''qmk'', section_key (qs_section s)] doc = Some (JObject kvs)"
    "json_pointer [''qmk'', section_key (qs_section s)] doc' = Some (JObject (obj_insert (qs_name s) (qs_value s) kvs))"
    by (rule store_setting_object [OF assms(1)])
  then show ?thesis using ps(2) unfolding ps(1) json_pointer_append by (simp add: map_of_obj_insert)
qed

lemma store_settings_apart:
  "fold_res store_setting doc settings = Inr doc' \<Longrightarrow> (\<And>s. s \<in> set settings \<Longrightarrow> apart (setting_path s) ps) \<Longrightarrow>
   json_pointer ps doc' = json_pointer ps doc"
  by (induction settings arbitrary: doc) (auto simp: store_setting_apart)

lemma apart_paths: "setting_path s \<noteq> setting_path t \<Longrightarrow> apart (setting_path s) (setting_path t)"
  by (auto simp: setting_path_def)

lemma store_settings_at:
  "fold_res store_setting doc settings = Inr doc' \<Longrightarrow> distinct (map setting_path settings) \<Longrightarrow> s \<in> set settings \<Longrightarrow>
   json_pointer (setting_path s) doc' = Some (qs_value s)"
proof (induction settings arbitrary: doc)
  case (Cons t settings)
  then obtain v1 where v1: "store_setting doc t = Inr v1" "fold_res store_setting v1 settings = Inr doc'" by auto
  show ?case
  proof (cases "s \<in> set settings")
    case True
    then show ?thesis using Cons v1 by auto
  next
    case False
    then have "s = t" using Cons.prems by simp
    have "apart (setting_path u) (setting_path t)" if "u \<in> set settings" for u
      using Cons.prems(2) imageI [OF that, of setting_path] by (intro apart_paths) auto
    then show ?thesis
      using store_settings_apart [OF v1(2)] store_setting_at [OF v1(1)] \<open>s = t\<close> by simp
  qed
qed simp

definition saved_layer :: "editor_layer list \<Rightarrow> editor_layer \<Rightarrow> editor_layer" where
  "saved_layer ls l = l\<lparr>el_keys := map (\<lambda>key. canonical_key key ls) (el_keys l)\<rparr>"

lemma parse_strings: "map_res (\<lambda>key. ok_or e (as_str key)) (map JString xs) = Inr xs"
  by (induction xs) simp_all

lemma parse_stored_layer:
  assumes "store_layer_json ls (target, l) = Inr stored"
  shows "parse_layer stored = Inr (saved_layer ls l)"
proof -
  obtain kvs where "stored = JObject (obj_insert ''keys'' (JArray (map JString (map (\<lambda>key. canonical_key key ls) (el_keys l))))
      (obj_insert ''name'' (JString (el_name l)) kvs))"
    using assms by (auto simp: store_layer_json_def o_def split: option.splits)
  then show ?thesis
    using parse_strings [of "FileInvalid (el_name l)" "map (\<lambda>key. canonical_key key ls) (el_keys l)"]
    by (simp add: parse_layer_def map_of_obj_insert saved_layer_def)
qed

lemma parse_stored_layers:
  "map_res (store_layer_json ls) (zip targets ms) = Inr stored \<Longrightarrow> length targets = length ms \<Longrightarrow>
   map_res parse_layer stored = Inr (map (saved_layer ls) ms)"
proof (induction targets ms arbitrary: stored rule: list_induct2')
  case (4 t ts m ms)
  then show ?case by (auto simp: parse_stored_layer)
qed auto

lemma save_value_parts:
  assumes "save_value doc ls settings = Inr doc'"
  obtains doc1 targets stored where
    "json_modify [''via'', ''layers''] (store_layers ls) (FileInvalid ''via.layers'') doc = Inr doc1"
    "fold_res store_setting doc1 settings = Inr doc'"
    "json_pointer [''via'', ''layers''] doc = Some (JArray targets)" "length targets = length ls"
    "map_res (store_layer_json ls) (zip targets ls) = Inr stored"
    "json_pointer [''via'', ''layers''] doc' = Some (JArray stored)"
proof -
  obtain doc1 where doc1: "json_modify [''via'', ''layers''] (store_layers ls) (FileInvalid ''via.layers'') doc = Inr doc1"
      "fold_res store_setting doc1 settings = Inr doc'"
    using assms by (auto simp: save_value_def)
  obtain x x' where x: "json_pointer [''via'', ''layers''] doc = Some x" "store_layers ls x = Inr x'"
      "json_pointer [''via'', ''layers''] doc1 = Some x'"
    using json_modify_at [OF doc1(1)] by blast
  then obtain targets stored where "x = JArray targets" "length targets = length ls"
      "map_res (store_layer_json ls) (zip targets ls) = Inr stored" "x' = JArray stored"
    by (auto simp: store_layers_def split: option.splits if_splits)
  moreover have "json_pointer [''via'', ''layers''] doc' = json_pointer [''via'', ''layers''] doc1"
    using doc1(2) by (rule store_settings_apart) (simp add: setting_path_def)
  ultimately show ?thesis using that doc1 x by simp
qed

lemma save_value_apart:
  assumes "save_value doc ls settings = Inr doc'" "apart [''via'', ''layers''] ps"
    and "\<And>s. s \<in> set settings \<Longrightarrow> apart (setting_path s) ps"
  shows "json_pointer ps doc' = json_pointer ps doc"
proof -
  obtain doc1 where doc1: "json_modify [''via'', ''layers''] (store_layers ls) (FileInvalid ''via.layers'') doc = Inr doc1"
      "fold_res store_setting doc1 settings = Inr doc'"
    by (rule save_value_parts [OF assms(1)])
  have "json_pointer ps doc' = json_pointer ps doc1"
    using store_settings_apart [OF doc1(2) assms(3)] by blast
  then show ?thesis using json_modify_apart [OF doc1(1) assms(2)] by simp
qed

lemma save_value_reads_back:
  assumes save: "save_value doc ls settings = Inr doc'" and old: "parse_layers doc = Inr old"
    and shape: "list_all (\<lambda>l. length (el_keys l) = KEY_COUNT) ls"
  shows "parse_layers doc' = Inr (map (saved_layer ls) ls)"
proof -
  obtain targets stored where t: "json_pointer [''via'', ''layers''] doc = Some (JArray targets)" "length targets = length ls"
      "map_res (store_layer_json ls) (zip targets ls) = Inr stored"
      "json_pointer [''via'', ''layers''] doc' = Some (JArray stored)"
    by (rule save_value_parts [OF save])
  have "json_pointer [''schema_version''] doc' = json_pointer [''schema_version''] doc"
    using save by (rule save_value_apart) (simp_all add: setting_path_def)
  then have schema: "Option.bind (json_get ''schema_version'' doc') as_u64 = Some 1"
    using old by (simp add: json_pointer_single parse_layers_def split: if_splits)
  have "old \<noteq> [] \<and> map_res parse_layer targets = Inr old"
    using old t(1) by (auto simp: parse_layers_def split: if_splits)
  then have "ls \<noteq> []" using t(2) by auto
  moreover have "map_res parse_layer stored = Inr (map (saved_layer ls) ls)"
    using t(2,3) by (intro parse_stored_layers) simp_all
  ultimately show ?thesis
    using schema t(4) shape
    by (auto simp: parse_layers_def saved_layer_def list_all_iff simp del: json_pointer.simps)
qed


section \<open>A file to open\<close>

definition sample_doc :: json where
  "sample_doc = JObject
     [(''qmk'', JObject
        [(''defines'', JObject [(''TAPPING_TERM'', JNumber (PosInt 200))]),
         (''rules'', JObject [(''CONSOLE_ENABLE'', JBool False)])]),
      (''schema_version'', JNumber (PosInt 1)),
      (''via'', JObject [(''layers'', JArray [JObject
        [(''keys'', JArray (replicate KEY_COUNT (JString ''A''))), (''name'', JString ''Base'')]])])]"

definition sample_layers :: "editor_layer list" where
  "sample_layers = [\<lparr>el_name = ''Base'', el_keys = replicate KEY_COUNT ''A''\<rparr>]"

definition sample_settings :: "qmk_setting list" where
  "sample_settings =
     [\<lparr>qs_section = SectionDefine, qs_name = ''TAPPING_TERM'', qs_value = JNumber (PosInt 200)\<rparr>,
      \<lparr>qs_section = SectionRule, qs_name = ''CONSOLE_ENABLE'', qs_value = JBool False\<rparr>]"

lemma sample_loads: "parse_layers sample_doc = Inr sample_layers" "load_qmk_settings sample_doc = Inr sample_settings"
  by code_simp+

lemma sample_distinct: "distinct (map setting_path sample_settings)"
  by code_simp


end
