(* ===== verification/Editor_App.thy ===== *)
theory Editor_App
  imports Editor_File
begin

text \<open>
  The editor window of \<open>pkgs/keymap-editor/main.rs\<close>: its state and its signal handlers. Widgets
  are the values they hold; a click arrives as the index it hits, which \<open>Editor_Drawing\<close>
  computes. Setting the layer selector from the program raises its \<open>changed\<close> signal,
  whose handler returns at once because the row is the current layer, so no handler runs
  inside another. An index outside its vector is a panic, the value \<open>None\<close>.
\<close>

section \<open>State\<close>

datatype editor_status =
    Loaded
  | Failed editor_error
  | SaveFailed editor_error
  | ApplySaveFailed editor_error
  | EditingLayer string
  | Saved
  | AppliedLive
  | LiveApplyFailed
  | Reloaded
  | FormValid
  | AppliedSelected
  | SetKey string nat string

record editor =
  ed_layers :: "editor_layer list"
  ed_current :: nat
  ed_selected :: "nat option"
  ed_selector :: int
  ed_status :: editor_status
  ed_title :: string
  ed_entry :: string
  ed_tap :: string
  ed_hold :: int
  ed_fields :: "qmk_field list"

text \<open>The file, and whether writing the new one and renaming it succeeds now.\<close>

record editor_disk =
  disk_value :: "(string, json) res"
  disk_writable :: bool

text \<open>\<open>serde_json\<close> on scalars, and the outcome of running the sync tool.\<close>

record editor_env =
  print_json :: "json \<Rightarrow> string"
  parse_json :: "string \<Rightarrow> json option"
  sync_ok :: bool

definition cstring :: "string \<Rightarrow> string" where
  "cstring value = filter (\<lambda>c. c \<noteq> CHR 0x00) value"

definition current_key :: "editor \<Rightarrow> nat \<Rightarrow> string option" where
  "current_key ed index =
     Option.bind (list_get (ed_layers ed) (ed_current ed)) (\<lambda>layer. list_get (el_keys layer) index)"

definition store_key :: "nat \<Rightarrow> string \<Rightarrow> editor \<Rightarrow> editor option" where
  "store_key index label ed =
     Option.bind (list_get (ed_layers ed) (ed_current ed)) (\<lambda>layer.
     if index < length (el_keys layer)
     then Some (ed\<lparr>ed_layers := (ed_layers ed)[ed_current ed := layer\<lparr>el_keys := (el_keys layer)[index := label]\<rparr>]\<rparr>)
     else None)"

definition set_status :: "editor_status \<Rightarrow> editor \<Rightarrow> editor" where
  "set_status status ed = ed\<lparr>ed_status := status\<rparr>"

section \<open>Forms\<close>

text \<open>
  The rows of the hold selector: no hold, the modifiers, and at most 16 layers. Selecting a
  row that does not exist leaves the selector without a selection, which reads as -1.
\<close>

definition hold_row_count :: "editor_layer list \<Rightarrow> nat" where
  "hold_row_count ls = 1 + length HOLD_MODIFIERS + length (take 16 ls)"

definition set_active :: "nat \<Rightarrow> int \<Rightarrow> int" where
  "set_active rows row = (if 0 \<le> row \<and> row < int rows then row else -1)"

definition refresh_tap_hold_editor :: "editor \<Rightarrow> editor option" where
  "refresh_tap_hold_editor ed =
    (case ed_selected ed of
       None \<Rightarrow> Some (ed\<lparr>ed_tap := [], ed_hold := 0\<rparr>)
     | Some index \<Rightarrow>
         map_option (\<lambda>label.
           (case parse_tap_hold label of
              Some (hold, tap) \<Rightarrow> ed\<lparr>ed_tap := cstring tap, ed_hold := set_active (hold_row_count (ed_layers ed)) (hold_combo_index (ed_layers ed) hold)\<rparr>
            | None \<Rightarrow>
           (case plain_hold_modifier label of
              Some modifier \<Rightarrow> ed\<lparr>ed_tap := [], ed_hold := hold_modifier_combo_index modifier\<rparr>
            | None \<Rightarrow>
           (case index_of (\<lambda>layer. el_name layer = label) (ed_layers ed) of
              Some layer_index \<Rightarrow>
                if layer_index < 16
                then ed\<lparr>ed_tap := [], ed_hold := hold_layer_combo_index layer_index\<rparr>
                else ed\<lparr>ed_tap := cstring label, ed_hold := 0\<rparr>
            | None \<Rightarrow> ed\<lparr>ed_tap := cstring label, ed_hold := 0\<rparr>))))
         (current_key ed index))"

definition refresh_editor :: "editor \<Rightarrow> editor option" where
  "refresh_editor ed =
    (case ed_selected ed of
       None \<Rightarrow> refresh_tap_hold_editor (ed\<lparr>ed_title := ''Select a key'', ed_entry := []\<rparr>)
     | Some index \<Rightarrow>
         Option.bind (list_get (ed_layers ed) (ed_current ed)) (\<lambda>layer.
         Option.bind (list_get (el_keys layer) index) (\<lambda>label.
         refresh_tap_hold_editor
           (ed\<lparr>ed_title := cstring (el_name layer @ '' key '' @ show_nat (index + 1)), ed_entry := cstring label\<rparr>))))"

text \<open>\<open>collect_editor\<close>: the error value, or the state with the entry's label stored.\<close>

definition collect_editor :: "editor \<Rightarrow> (editor_error, editor) res option" where
  "collect_editor ed =
    (case ed_selected ed of
       None \<Rightarrow> Some (Inr ed)
     | Some index \<Rightarrow>
         (let text = trim (ed_entry ed) in
          if text = [] then Some (Inl EmptyLabel)
          else if valid_label text (map el_name (ed_layers ed)) then map_option Inr (store_key index text ed)
          else Some (Inl (UnsupportedLabel text))))"

definition apply_selected_value :: "string \<Rightarrow> editor \<Rightarrow> editor option" where
  "apply_selected_value label ed =
    (case ed_selected ed of
       None \<Rightarrow> Some (set_status (Failed NoKeySelected) ed)
     | Some index \<Rightarrow>
         if \<not> valid_label label (map el_name (ed_layers ed)) then Some (set_status (Failed (UnsupportedLabel label)) ed)
         else
           Option.bind (store_key index label ed) (\<lambda>ed.
           Option.bind (refresh_tap_hold_editor (ed\<lparr>ed_entry := cstring label\<rparr>)) (\<lambda>ed.
           Option.bind (list_get (ed_layers ed) (ed_current ed)) (\<lambda>layer.
           Some (set_status (SetKey (el_name layer) index label) ed)))))"

definition select_key :: "nat \<Rightarrow> editor \<Rightarrow> editor option" where
  "select_key index ed =
     Option.bind (collect_editor ed) (\<lambda>r.
     case r of
       Inl error \<Rightarrow> Some (set_status (Failed error) ed)
     | Inr ed \<Rightarrow> refresh_editor (ed\<lparr>ed_selected := Some index\<rparr>))"

section \<open>Handlers\<close>

definition on_button_press :: "nat option \<Rightarrow> editor \<Rightarrow> editor option" where
  "on_button_press hit ed = (case hit of Some index \<Rightarrow> select_key index ed | None \<Rightarrow> Some ed)"

definition on_key_press :: "int \<Rightarrow> editor \<Rightarrow> editor option" where
  "on_key_press keyval ed =
     (case keyval_to_label keyval of None \<Rightarrow> Some ed | Some label \<Rightarrow> apply_selected_value label ed)"

definition on_layer_changed :: "int \<Rightarrow> editor \<Rightarrow> editor option" where
  "on_layer_changed row ed0 =
    (let ed = ed0\<lparr>ed_selector := row\<rparr> in
     if row < 0 then Some ed
     else if length (ed_layers ed) \<le> nat row \<or> nat row = ed_current ed then Some ed
     else
       Option.bind (collect_editor ed) (\<lambda>r.
       case r of
         Inl error \<Rightarrow> Some ((set_status (Failed error) ed)\<lparr>ed_selector := int (ed_current ed)\<rparr>)
       | Inr ed \<Rightarrow>
           Option.bind (refresh_editor (ed\<lparr>ed_current := nat row\<rparr>)) (\<lambda>ed.
           Option.bind (list_get (ed_layers ed) (nat row)) (\<lambda>layer.
           Some (set_status (EditingLayer (el_name layer)) ed)))))"

definition store_fields :: "qmk_setting list \<Rightarrow> qmk_field list \<Rightarrow> qmk_field list" where
  "store_fields settings fs = map (\<lambda>(f, s). f\<lparr>qf_setting := s\<rparr>) (zip fs settings) @ drop (length settings) fs"

text \<open>\<open>save_configuration\<close>: the file is replaced as a whole, by a rename, or not at all.\<close>

definition save_configuration ::
  "editor_layer list \<Rightarrow> qmk_setting list \<Rightarrow> editor_disk \<Rightarrow> (editor_error, unit) res \<times> editor_disk" where
  "save_configuration ls settings disk =
    (case bind_res (map_err FileInvalid (disk_value disk)) (\<lambda>value. save_value value ls settings) of
       Inl error \<Rightarrow> (Inl error, disk)
     | Inr value \<Rightarrow>
         if disk_writable disk then (Inr (), disk\<lparr>disk_value := Inr value\<rparr>)
         else (Inl (FileInvalid ''write''), disk))"

definition persist_state ::
  "editor_env \<Rightarrow> editor \<Rightarrow> editor_disk \<Rightarrow> ((editor_error, unit) res \<times> editor \<times> editor_disk) option" where
  "persist_state env ed disk =
     map_option (\<lambda>r.
       case r of
         Inl error \<Rightarrow> (Inl error, ed, disk)
       | Inr ed \<Rightarrow>
           (case bind_res (validate_layers (ed_layers ed)) (\<lambda>_.
                 bind_res (collect_qmk_settings (parse_json env) (ed_fields ed)) (\<lambda>settings.
                 bind_res (validate_qmk_settings settings) (\<lambda>_. Inr settings))) of
              Inl error \<Rightarrow> (Inl error, ed, disk)
            | Inr settings \<Rightarrow>
                (case save_configuration (ed_layers ed) settings disk of
                   (Inl error, disk) \<Rightarrow> (Inl error, ed, disk)
                 | (Inr _, disk) \<Rightarrow> (Inr (), ed\<lparr>ed_fields := store_fields settings (ed_fields ed)\<rparr>, disk))))
       (collect_editor ed)"

definition on_save :: "editor_env \<Rightarrow> editor \<times> editor_disk \<Rightarrow> (editor \<times> editor_disk) option" where
  "on_save env = (\<lambda>(ed, disk).
     map_option (\<lambda>(r, ed, disk).
       (set_status (case r of Inl error \<Rightarrow> SaveFailed error | Inr _ \<Rightarrow> Saved) ed, disk))
     (persist_state env ed disk))"

definition on_apply_live :: "editor_env \<Rightarrow> editor \<times> editor_disk \<Rightarrow> (editor \<times> editor_disk) option" where
  "on_apply_live env = (\<lambda>(ed, disk).
     map_option (\<lambda>(r, ed, disk).
       (set_status (case r of
          Inl error \<Rightarrow> ApplySaveFailed error
        | Inr _ \<Rightarrow> if sync_ok env then AppliedLive else LiveApplyFailed) ed, disk))
     (persist_state env ed disk))"

definition same_schema :: "qmk_setting list \<Rightarrow> qmk_field list \<Rightarrow> bool" where
  "same_schema settings fs \<longleftrightarrow>
     length settings = length fs \<and>
     list_all (\<lambda>(s, f). qs_section s = qs_section (qf_setting f) \<and> qs_name s = qs_name (qf_setting f))
       (zip settings fs)"

definition on_reload :: "editor_env \<Rightarrow> editor_disk \<Rightarrow> editor \<Rightarrow> editor option" where
  "on_reload env disk ed =
     Option.bind (collect_editor ed) (\<lambda>r.
     case r of
       Inl error \<Rightarrow> Some (set_status (Failed error) ed)
     | Inr ed \<Rightarrow>
         (case bind_res (map_err FileInvalid (disk_value disk)) (\<lambda>value.
               bind_res (parse_layers value) (\<lambda>ls.
               bind_res (load_qmk_settings value) (\<lambda>settings. Inr (ls, settings)))) of
            Inl error \<Rightarrow> Some (set_status (Failed error) ed)
          | Inr (ls, settings) \<Rightarrow>
              if \<not> same_schema settings (ed_fields ed) then Some (set_status (Failed SettingNamesChanged) ed)
              else
                map_option (set_status Reloaded)
                  (refresh_editor
                    (ed\<lparr>ed_layers := ls,
                        ed_fields := map (\<lambda>s. \<lparr>qf_setting = s,
                          qf_entry = cstring (setting_text (print_json env) (qs_value s))\<rparr>) settings,
                        ed_current := min (ed_current ed) (length ls - 1),
                        ed_hold := 0,
                        ed_selector := int (min (ed_current ed) (length ls - 1))\<rparr>))))"

definition on_validate :: "editor_env \<Rightarrow> editor \<Rightarrow> editor option" where
  "on_validate env ed =
     Option.bind (collect_editor ed) (\<lambda>r.
     case r of
       Inl error \<Rightarrow> Some (set_status (Failed error) ed)
     | Inr ed \<Rightarrow>
         Some (set_status
           (case collect_qmk_settings (parse_json env) (ed_fields ed) of
              Inl error \<Rightarrow> Failed error
            | Inr settings \<Rightarrow>
                (case bind_res (validate_layers (ed_layers ed)) (\<lambda>_. validate_qmk_settings settings) of
                   Inl error \<Rightarrow> Failed error
                 | Inr _ \<Rightarrow> FormValid)) ed))"

definition on_apply :: "editor \<Rightarrow> editor option" where
  "on_apply ed =
     Option.bind (collect_editor ed) (\<lambda>r.
     case r of
       Inl error \<Rightarrow> Some (set_status (Failed error) ed)
     | Inr ed \<Rightarrow> map_option (set_status AppliedSelected) (refresh_tap_hold_editor ed))"

definition on_apply_tap_hold :: "editor \<Rightarrow> editor option" where
  "on_apply_tap_hold ed =
    (case ed_selected ed of
       None \<Rightarrow> Some (set_status (Failed NoKeySelected) ed)
     | Some index \<Rightarrow>
         (case tap_hold_value (ed_layers ed) (ed_hold ed) (trim (ed_tap ed)) of
            Inl error \<Rightarrow> Some (set_status (Failed error) ed)
          | Inr label \<Rightarrow>
              Option.bind (store_key index label ed) (\<lambda>ed.
              Option.bind (refresh_tap_hold_editor (ed\<lparr>ed_entry := cstring label\<rparr>)) (\<lambda>ed.
              Option.bind (list_get (ed_layers ed) (ed_current ed)) (\<lambda>layer.
              Some (set_status (SetKey (el_name layer) index label) ed))))))"

section \<open>Events\<close>

text \<open>\<open>hit_test\<close> searches the \<open>KEY_COUNT\<close> key geometries, so a hit is one of their indices.\<close>

datatype editor_event =
    ButtonPress "nat option"
  | KeyPress int
  | LayerChanged int
  | Save
  | ApplyLive
  | Reload
  | Validate
  | Apply
  | ApplyTapHold
  | QuickLabel string
  | TypeEntry string
  | TypeTap string
  | ChooseHold int
  | TypeField nat string
  | FileChanged editor_disk

definition on_disk :: "(editor \<Rightarrow> editor option) \<Rightarrow> editor \<times> editor_disk \<Rightarrow> (editor \<times> editor_disk) option" where
  "on_disk handler = (\<lambda>(ed, disk). map_option (\<lambda>ed. (ed, disk)) (handler ed))"

definition handle_editor_event ::
  "editor_env \<Rightarrow> editor_event \<Rightarrow> editor \<times> editor_disk \<Rightarrow> (editor \<times> editor_disk) option" where
  "handle_editor_event env event st =
    (case event of
       ButtonPress hit \<Rightarrow>
         on_disk (on_button_press (case hit of Some i \<Rightarrow> if i < KEY_COUNT then Some i else None | None \<Rightarrow> None)) st
     | KeyPress keyval \<Rightarrow> on_disk (on_key_press keyval) st
     | LayerChanged row \<Rightarrow> on_disk (on_layer_changed row) st
     | Save \<Rightarrow> on_save env st
     | ApplyLive \<Rightarrow> on_apply_live env st
     | Reload \<Rightarrow> on_disk (on_reload env (snd st)) st
     | Validate \<Rightarrow> on_disk (on_validate env) st
     | Apply \<Rightarrow> on_disk on_apply st
     | ApplyTapHold \<Rightarrow> on_disk on_apply_tap_hold st
     | QuickLabel label \<Rightarrow> on_disk (apply_selected_value label) st
     | TypeEntry text \<Rightarrow> Some (case st of (ed, disk) \<Rightarrow> (ed\<lparr>ed_entry := text\<rparr>, disk))
     | TypeTap text \<Rightarrow> Some (case st of (ed, disk) \<Rightarrow> (ed\<lparr>ed_tap := text\<rparr>, disk))
     | ChooseHold row \<Rightarrow> Some (case st of (ed, disk) \<Rightarrow> (ed\<lparr>ed_hold := row\<rparr>, disk))
     | TypeField i text \<Rightarrow>
         Some (case st of (ed, disk) \<Rightarrow>
           (ed\<lparr>ed_fields := (case list_get (ed_fields ed) i of
              Some f \<Rightarrow> (ed_fields ed)[i := f\<lparr>qf_entry := text\<rparr>] | None \<Rightarrow> ed_fields ed)\<rparr>, disk))
     | FileChanged disk \<Rightarrow> Some (fst st, disk))"

fun editor_step ::
  "(editor \<times> editor_disk) option \<Rightarrow> editor_env \<times> editor_event \<Rightarrow> (editor \<times> editor_disk) option" where
  "editor_step st (env, event) = Option.bind st (handle_editor_event env event)"

definition initial_editor :: "editor_env \<Rightarrow> editor_layer list \<Rightarrow> qmk_setting list \<Rightarrow> editor" where
  "initial_editor env ls settings =
     \<lparr>ed_layers = ls, ed_current = 0, ed_selected = None, ed_selector = 0, ed_status = Loaded,
      ed_title = ''Select a key'', ed_entry = [], ed_tap = [], ed_hold = 0,
      ed_fields = map (\<lambda>s. \<lparr>qf_setting = s, qf_entry = cstring (setting_text (print_json env) (qs_value s))\<rparr>) settings\<rparr>"

section \<open>Invariant\<close>

definition layers_fit :: "editor_layer list \<Rightarrow> bool" where
  "layers_fit ls \<longleftrightarrow> list_all (\<lambda>l. length (el_keys l) = KEY_COUNT) ls"

definition editor_ok :: "editor \<Rightarrow> bool" where
  "editor_ok ed \<longleftrightarrow>
     ed_current ed < length (ed_layers ed) \<and> layers_fit (ed_layers ed) \<and>
     (case ed_selected ed of None \<Rightarrow> True | Some i \<Rightarrow> i < KEY_COUNT) \<and>
     distinct (map (\<lambda>f. setting_path (qf_setting f)) (ed_fields ed))"

text \<open>The fields of the state the invariant reads.\<close>

definition core :: "editor \<Rightarrow> editor_layer list \<times> nat \<times> nat option \<times> qmk_field list" where
  "core ed = (ed_layers ed, ed_current ed, ed_selected ed, ed_fields ed)"

lemma editor_ok_core: "core ed' = core ed \<Longrightarrow> editor_ok ed' = editor_ok ed"
  by (simp add: core_def editor_ok_def)

lemma core_updates [simp]:
  "core (set_status status ed) = core ed" "core (ed\<lparr>ed_status := status\<rparr>) = core ed"
  "core (ed\<lparr>ed_entry := text\<rparr>) = core ed" "core (ed\<lparr>ed_tap := text\<rparr>) = core ed"
  "core (ed\<lparr>ed_hold := row\<rparr>) = core ed" "core (ed\<lparr>ed_title := text\<rparr>) = core ed"
  "core (ed\<lparr>ed_selector := row\<rparr>) = core ed"
  by (simp_all add: core_def set_status_def)

lemma ok_updates [simp]:
  "editor_ok (set_status status ed) = editor_ok ed" "editor_ok (ed\<lparr>ed_entry := text\<rparr>) = editor_ok ed"
  "editor_ok (ed\<lparr>ed_tap := text\<rparr>) = editor_ok ed" "editor_ok (ed\<lparr>ed_hold := row\<rparr>) = editor_ok ed"
  "editor_ok (ed\<lparr>ed_selector := row\<rparr>) = editor_ok ed"
  "editor_ok ((set_status status ed)\<lparr>ed_selector := row\<rparr>) = editor_ok ed"
  by (rule editor_ok_core, simp)+

lemma current_layer_ok:
  assumes "editor_ok ed"
  shows "list_get (ed_layers ed) (ed_current ed) = Some (ed_layers ed ! ed_current ed)"
    and "length (el_keys (ed_layers ed ! ed_current ed)) = KEY_COUNT"
  using assms by (auto simp: editor_ok_def layers_fit_def list_all_length)

lemma store_key_ok:
  assumes "editor_ok ed" "i < KEY_COUNT"
  shows "\<exists>ed'. store_key i label ed = Some ed' \<and> editor_ok ed' \<and> ed_selected ed' = ed_selected ed"
  using assms current_layer_ok [OF assms(1)]
  by (auto simp: store_key_def editor_ok_def layers_fit_def list_all_length nth_list_update)

lemma refresh_tap_hold_ok:
  assumes "editor_ok ed"
  shows "\<exists>ed'. refresh_tap_hold_editor ed = Some ed' \<and> core ed' = core ed"
proof (cases "ed_selected ed")
  case None
  then show ?thesis by (simp add: refresh_tap_hold_editor_def core_def)
next
  case (Some i)
  then have "current_key ed i = Some (el_keys (ed_layers ed ! ed_current ed) ! i)"
    using assms current_layer_ok [OF assms] by (simp add: current_key_def editor_ok_def)
  then show ?thesis
    using Some by (auto simp: refresh_tap_hold_editor_def core_def split: option.splits prod.splits)
qed

lemma refresh_ok:
  assumes "editor_ok ed"
  shows "\<exists>ed'. refresh_editor ed = Some ed' \<and> core ed' = core ed"
proof (cases "ed_selected ed")
  case None
  have "editor_ok (ed\<lparr>ed_title := ''Select a key'', ed_entry := []\<rparr>)"
    using assms editor_ok_core [of "ed\<lparr>ed_title := ''Select a key'', ed_entry := []\<rparr>" ed] by (simp add: core_def)
  from refresh_tap_hold_ok [OF this] None show ?thesis by (auto simp: refresh_editor_def core_def)
next
  case (Some i)
  let ?l = "ed_layers ed ! ed_current ed"
  let ?ed = "ed\<lparr>ed_title := cstring (el_name ?l @ '' key '' @ show_nat (i + 1)), ed_entry := cstring (el_keys ?l ! i)\<rparr>"
  have "i < length (el_keys ?l)" using Some assms current_layer_ok(2) [OF assms] by (simp add: editor_ok_def)
  then have eq: "refresh_editor ed = refresh_tap_hold_editor ?ed"
    using Some current_layer_ok(1) [OF assms] by (simp add: refresh_editor_def)
  have "core ?ed = core ed" by (simp add: core_def)
  moreover from this have "editor_ok ?ed" using assms editor_ok_core by blast
  ultimately show ?thesis using refresh_tap_hold_ok [of ?ed] unfolding eq by auto
qed

lemma collect_ok:
  assumes "editor_ok ed"
  shows "(\<exists>e. collect_editor ed = Some (Inl e)) \<or>
    (\<exists>ed'. collect_editor ed = Some (Inr ed') \<and> editor_ok ed')"
proof (cases "ed_selected ed")
  case None
  then show ?thesis using assms by (simp add: collect_editor_def)
next
  case (Some i)
  then have "i < KEY_COUNT" using assms by (simp add: editor_ok_def)
  from store_key_ok [OF assms this, of "trim (ed_entry ed)"] Some show ?thesis
    by (auto simp: collect_editor_def Let_def)
qed

text \<open>A handler that returns a well-formed state.\<close>

definition returns_ok :: "editor option \<Rightarrow> bool" where
  "returns_ok r \<longleftrightarrow> (\<exists>ed. r = Some ed \<and> editor_ok ed)"

lemma returns_ok_Some [simp]: "returns_ok (Some ed) = editor_ok ed"
  by (simp add: returns_ok_def)

lemma returns_ok_bind: "returns_ok r \<Longrightarrow> (\<And>ed. editor_ok ed \<Longrightarrow> returns_ok (f ed)) \<Longrightarrow> returns_ok (Option.bind r f)"
  by (auto simp: returns_ok_def)

lemma returns_ok_map: "returns_ok r \<Longrightarrow> (\<And>ed. editor_ok ed \<Longrightarrow> editor_ok (f ed)) \<Longrightarrow> returns_ok (map_option f r)"
  by (auto simp: returns_ok_def)

lemma returns_ok_core:
  assumes "\<exists>ed'. r = Some ed' \<and> core ed' = core ed" "editor_ok ed"
  shows "returns_ok r"
proof -
  obtain ed' where r: "r = Some ed'" and c: "core ed' = core ed" using assms(1) by blast
  show ?thesis unfolding r returns_ok_Some editor_ok_core [OF c] by (rule assms(2))
qed

lemma returns_ok_refresh:
  assumes "editor_ok ed"
  shows "returns_ok (refresh_editor ed)" "returns_ok (refresh_tap_hold_editor ed)"
  by (rule returns_ok_core [OF refresh_ok [OF assms] assms], rule returns_ok_core [OF refresh_tap_hold_ok [OF assms] assms])

lemma returns_ok_collect:
  assumes "editor_ok ed" "\<And>e. returns_ok (f (Inl e))" "\<And>ed'. editor_ok ed' \<Longrightarrow> returns_ok (f (Inr ed'))"
  shows "returns_ok (Option.bind (collect_editor ed) f)"
  using collect_ok [OF assms(1)] assms(2,3) by auto

lemma returns_ok_layer:
  assumes "editor_ok ed" "\<And>l. editor_ok (f l)"
  shows "returns_ok (Option.bind (list_get (ed_layers ed) (ed_current ed)) (\<lambda>l. Some (f l)))"
  using assms(2) current_layer_ok(1) [OF assms(1)] by simp

lemma returns_ok_assign:
  assumes "editor_ok ed" "i < KEY_COUNT"
  shows "returns_ok (Option.bind (store_key i label ed) (\<lambda>ed.
    Option.bind (refresh_tap_hold_editor (ed\<lparr>ed_entry := cstring text\<rparr>)) (\<lambda>ed.
    Option.bind (list_get (ed_layers ed) (ed_current ed)) (\<lambda>layer. Some (set_status (g layer) ed)))))"
  using store_key_ok [OF assms, of label]
  by (auto intro!: returns_ok_bind returns_ok_refresh returns_ok_layer)

lemma apply_selected_ok: "editor_ok ed \<Longrightarrow> returns_ok (apply_selected_value label ed)"
  using returns_ok_assign [of ed _ label label]
  by (auto simp: apply_selected_value_def editor_ok_def [of ed] split: option.splits)

lemma select_ok: "editor_ok ed \<Longrightarrow> i < KEY_COUNT \<Longrightarrow> returns_ok (select_key i ed)"
  unfolding select_key_def
proof (rule returns_ok_collect)
  fix ed' assume "editor_ok ed'" "i < KEY_COUNT"
  then have "editor_ok (ed'\<lparr>ed_selected := Some i\<rparr>)" by (simp add: editor_ok_def)
  then show "returns_ok (case Inr ed' of Inl error \<Rightarrow> Some (set_status (Failed error) ed)
      | Inr ed \<Rightarrow> refresh_editor (ed\<lparr>ed_selected := Some i\<rparr>))"
    by (simp add: returns_ok_refresh)
qed simp_all

lemma layer_changed_ok:
  assumes ok: "editor_ok ed"
  shows "returns_ok (on_layer_changed row ed)"
proof -
  let ?ed = "ed\<lparr>ed_selector := row\<rparr>"
  have ok': "editor_ok ?ed" using ok by simp
  show ?thesis
  proof (cases "row < 0 \<or> length (ed_layers ed) \<le> nat row \<or> nat row = ed_current ed")
    case True
    then show ?thesis using ok' by (auto simp: on_layer_changed_def Let_def)
  next
    case False
    have len: "length (ed_layers ed') = length (ed_layers ed)" if "collect_editor ?ed = Some (Inr ed')" for ed'
      using that by (auto simp: collect_editor_def store_key_def Let_def bind_eq_Some_conv split: option.splits if_splits)
    show ?thesis
    proof (cases "collect_editor ?ed")
      case None
      then show ?thesis using collect_ok [OF ok'] by simp
    next
      case (Some r)
      show ?thesis
      proof (cases r)
        case (Inl e)
        then show ?thesis using False Some ok' by (simp add: on_layer_changed_def Let_def)
      next
        case (Inr ed1)
        then have "editor_ok ed1" "length (ed_layers ed1) = length (ed_layers ed)"
          using collect_ok [OF ok'] Some len by auto
        then have ok1: "editor_ok (ed1\<lparr>ed_current := nat row\<rparr>)"
          using False by (auto simp: editor_ok_def)
        obtain ed2 where ed2: "refresh_editor (ed1\<lparr>ed_current := nat row\<rparr>) = Some ed2"
            "core ed2 = core (ed1\<lparr>ed_current := nat row\<rparr>)"
          using refresh_ok [OF ok1] by blast
        have "editor_ok ed2" unfolding editor_ok_core [OF ed2(2)] by (rule ok1)
        moreover have "nat row < length (ed_layers ed2)"
          using ed2(2) False \<open>length (ed_layers ed1) = _\<close> by (simp add: core_def)
        ultimately show ?thesis
          using False Some Inr ed2(1) by (simp add: on_layer_changed_def Let_def list_get_def)
      qed
    qed
  qed
qed

lemma same_schema_paths:
  "same_schema settings fs \<Longrightarrow> map setting_path settings = map (\<lambda>f. setting_path (qf_setting f)) fs"
  by (rule nth_equalityI) (auto simp: same_schema_def list_all_length setting_path_def)

lemma parse_layers_fit:
  "parse_layers doc = Inr ls \<Longrightarrow> ls \<noteq> [] \<and> layers_fit ls"
  by (auto simp: parse_layers_def layers_fit_def list_all_iff split: if_splits)

lemma reload_ok:
  assumes ok: "editor_ok ed"
  shows "returns_ok (on_reload env disk ed)"
  unfolding on_reload_def
proof (rule returns_ok_collect [OF ok])
  fix ed1 assume ok1: "editor_ok ed1"
  define loaded where "loaded = bind_res (map_err FileInvalid (disk_value disk)) (\<lambda>value.
    bind_res (parse_layers value) (\<lambda>ls. bind_res (load_qmk_settings value) (\<lambda>settings. Inr (ls, settings))))"
  have "returns_ok (case loaded of
        Inl error \<Rightarrow> Some (set_status (Failed error) ed1)
      | Inr (ls, settings) \<Rightarrow>
          if \<not> same_schema settings (ed_fields ed1) then Some (set_status (Failed SettingNamesChanged) ed1)
          else map_option (set_status Reloaded) (refresh_editor
            (ed1\<lparr>ed_layers := ls,
                ed_fields := map (\<lambda>s. \<lparr>qf_setting = s,
                  qf_entry = cstring (setting_text (print_json env) (qs_value s))\<rparr>) settings,
                ed_current := min (ed_current ed1) (length ls - 1), ed_hold := 0,
                ed_selector := int (min (ed_current ed1) (length ls - 1))\<rparr>)))"
  proof (cases loaded)
    case (Inl e)
    then show ?thesis using ok1 by simp
  next
    case (Inr out)
    then obtain ls settings where out: "loaded = Inr (ls, settings)" by (cases out) auto
    then have "ls \<noteq> [] \<and> layers_fit ls"
      by (auto simp: loaded_def dest: parse_layers_fit)
    moreover from this have "min (ed_current ed1) (length ls - 1) < length ls" by (cases ls) auto
    ultimately have "editor_ok (ed1\<lparr>ed_layers := ls,
                ed_fields := map (\<lambda>s. \<lparr>qf_setting = s,
                  qf_entry = cstring (setting_text (print_json env) (qs_value s))\<rparr>) settings,
                ed_current := min (ed_current ed1) (length ls - 1), ed_hold := 0,
                ed_selector := int (min (ed_current ed1) (length ls - 1))\<rparr>)"
      if "same_schema settings (ed_fields ed1)"
      using ok1 same_schema_paths [OF that] by (auto simp: editor_ok_def o_def)
    then show ?thesis using ok1 out
      by (auto intro!: returns_ok_map returns_ok_refresh)
  qed
  then show "returns_ok (case Inr ed1 of
       Inl error \<Rightarrow> Some (set_status (Failed error) ed)
     | Inr ed \<Rightarrow> (case bind_res (map_err FileInvalid (disk_value disk)) (\<lambda>value.
               bind_res (parse_layers value) (\<lambda>ls.
               bind_res (load_qmk_settings value) (\<lambda>settings. Inr (ls, settings)))) of
            Inl error \<Rightarrow> Some (set_status (Failed error) ed)
          | Inr (ls, settings) \<Rightarrow>
              if \<not> same_schema settings (ed_fields ed) then Some (set_status (Failed SettingNamesChanged) ed)
              else map_option (set_status Reloaded) (refresh_editor
                    (ed\<lparr>ed_layers := ls,
                        ed_fields := map (\<lambda>s. \<lparr>qf_setting = s,
                          qf_entry = cstring (setting_text (print_json env) (qs_value s))\<rparr>) settings,
                        ed_current := min (ed_current ed) (length ls - 1), ed_hold := 0,
                        ed_selector := int (min (ed_current ed) (length ls - 1))\<rparr>))))"
    by (simp only: loaded_def sum.case)
qed (use ok in simp)

lemma validate_ok: "editor_ok ed \<Longrightarrow> returns_ok (on_validate env ed)"
  unfolding on_validate_def by (rule returns_ok_collect) simp_all

lemma apply_ok: "editor_ok ed \<Longrightarrow> returns_ok (on_apply ed)"
  unfolding on_apply_def by (rule returns_ok_collect) (auto intro!: returns_ok_map returns_ok_refresh)

lemma apply_tap_hold_ok: "editor_ok ed \<Longrightarrow> returns_ok (on_apply_tap_hold ed)"
  using returns_ok_assign [of ed]
  by (auto simp: on_apply_tap_hold_def editor_ok_def [of ed] split: option.splits sum.splits)

section \<open>Saving\<close>

lemma collected_paths:
  "collect_qmk_settings p fs = Inr ss \<Longrightarrow> map setting_path ss = map (\<lambda>f. setting_path (qf_setting f)) fs"
  by (induction fs arbitrary: ss) (auto simp: collect_qmk_settings_def Let_def setting_path_def)

lemma stored_fields: "length ss = length fs \<Longrightarrow> map qf_setting (store_fields ss fs) = ss"
  by (rule nth_equalityI) (auto simp: store_fields_def)

text \<open>What \<open>persist_state\<close> leaves: the error and the file as it was, or the file saved from the form.\<close>

definition persisted ::
  "editor_disk \<Rightarrow> (editor_error, unit) res \<times> editor \<times> editor_disk \<Rightarrow> bool" where
  "persisted disk = (\<lambda>(r, ed', disk').
     editor_ok ed' \<and>
     (case r of
        Inl _ \<Rightarrow> disk' = disk
      | Inr _ \<Rightarrow> validate_layers (ed_layers ed') = Inr () \<and>
          (\<exists>doc doc'. disk_value disk = Inr doc \<and> disk_value disk' = Inr doc' \<and>
             save_value doc (ed_layers ed') (map qf_setting (ed_fields ed')) = Inr doc')))"

lemma save_configuration_cases:
  "save_configuration ls ss disk = (r, disk') \<Longrightarrow>
   (case r of Inl _ \<Rightarrow> disk' = disk
    | Inr _ \<Rightarrow> \<exists>doc doc'. disk_value disk = Inr doc \<and> disk_value disk' = Inr doc' \<and> save_value doc ls ss = Inr doc')"
  by (cases "disk_value disk") (auto simp: save_configuration_def split: sum.splits if_splits)

lemma persist_ok:
  assumes "editor_ok ed"
  shows "\<exists>out. persist_state env ed disk = Some out \<and> persisted disk out"
proof -
  consider e where "collect_editor ed = Some (Inl e)"
    | ed1 where "collect_editor ed = Some (Inr ed1)" "editor_ok ed1"
    using collect_ok [OF assms] by blast
  then show ?thesis
  proof cases
    case 1
    then show ?thesis using assms by (simp add: persist_state_def persisted_def)
  next
    case 2
    show ?thesis
    proof (cases "bind_res (validate_layers (ed_layers ed1)) (\<lambda>_.
        bind_res (collect_qmk_settings (parse_json env) (ed_fields ed1)) (\<lambda>settings.
        bind_res (validate_qmk_settings settings) (\<lambda>_. Inr settings)))")
      case (Inl e)
      then show ?thesis using 2 by (simp add: persist_state_def persisted_def)
    next
      case (Inr ss)
      then have c: "collect_qmk_settings (parse_json env) (ed_fields ed1) = Inr ss"
        and v: "validate_layers (ed_layers ed1) = Inr ()" by (auto split: sum.splits)
      have paths: "map setting_path ss = map (\<lambda>f. setting_path (qf_setting f)) (ed_fields ed1)"
        by (rule collected_paths [OF c])
      then have len: "length ss = length (ed_fields ed1)" by (metis length_map)
      obtain r disk' where s: "save_configuration (ed_layers ed1) ss disk = (r, disk')" by fastforce
      have "map (\<lambda>f. setting_path (qf_setting f)) (store_fields ss (ed_fields ed1)) = map setting_path ss"
        using arg_cong [OF stored_fields [OF len], of "map setting_path"] by (simp add: o_def)
      then have "editor_ok (ed1\<lparr>ed_fields := store_fields ss (ed_fields ed1)\<rparr>)"
        using 2(2) paths by (simp add: editor_ok_def)
      then show ?thesis
        using 2 Inr s v save_configuration_cases [OF s] stored_fields [OF len]
        by (cases r) (simp_all add: persist_state_def persisted_def)
    qed
  qed
qed


section \<open>Every event leaves the editor running\<close>

definition editor_running :: "(editor \<times> editor_disk) option \<Rightarrow> bool" where
  "editor_running st \<longleftrightarrow> (\<exists>ed disk. st = Some (ed, disk) \<and> editor_ok ed)"

lemma editor_running_Some [simp]: "editor_running (Some (ed, disk)) = editor_ok ed"
  by (simp add: editor_running_def)

lemma on_disk_running: "returns_ok (h ed) \<Longrightarrow> editor_running (on_disk h (ed, disk))"
  by (auto simp: on_disk_def returns_ok_def editor_running_def)

lemma persist_running:
  assumes "editor_ok ed"
  shows "editor_running (on_save env (ed, disk))" "editor_running (on_apply_live env (ed, disk))"
  using persist_ok [OF assms, of env disk]
  by (auto simp: on_save_def on_apply_live_def persisted_def editor_running_def)

lemma type_field_ok:
  assumes "editor_ok ed"
  shows "editor_ok (ed\<lparr>ed_fields := (case list_get (ed_fields ed) i of
    Some f \<Rightarrow> (ed_fields ed)[i := f\<lparr>qf_entry := text\<rparr>] | None \<Rightarrow> ed_fields ed)\<rparr>)"
proof -
  have "map (\<lambda>f. setting_path (qf_setting f)) ((ed_fields ed)[i := f\<lparr>qf_entry := text\<rparr>])
      = map (\<lambda>f. setting_path (qf_setting f)) (ed_fields ed)" if "list_get (ed_fields ed) i = Some f" for f
    using that by (auto simp: list_get_def map_update list_update_same_conv split: if_splits)
  then show ?thesis using assms by (simp add: editor_ok_def split: option.splits)
qed

lemma handle_running:
  assumes "editor_ok ed"
  shows "editor_running (handle_editor_event env event (ed, disk))"
proof (cases event)
  case (ButtonPress hit)
  then show ?thesis
    using select_ok [OF assms] assms
    by (auto simp: handle_editor_event_def on_button_press_def intro!: on_disk_running split: option.splits)
next
  case (KeyPress keyval)
  then show ?thesis
    using apply_selected_ok [OF assms] assms
    by (auto simp: handle_editor_event_def on_key_press_def intro!: on_disk_running split: option.splits)
qed (use assms in \<open>simp_all add: handle_editor_event_def on_disk_running persist_running layer_changed_ok reload_ok
       validate_ok apply_ok apply_tap_hold_ok apply_selected_ok type_field_ok\<close>)

interpretation editor_window: event_machine editor_step editor_running
proof
  fix st e assume "editor_running st"
  then show "editor_running (editor_step st e)"
    by (cases e) (auto simp: editor_running_def [of st] handle_running)
qed

lemma initial_editor_ok:
  assumes "parse_layers doc = Inr ls" "distinct (map setting_path settings)"
  shows "editor_ok (initial_editor env ls settings)"
  using parse_layers_fit [OF assms(1)] assms(2)
  by (simp add: editor_ok_def initial_editor_def o_def)

text \<open>
  C36: The editor never panics. A window opened on a file that loads handles every sequence
  of clicks, keys, edits, saves and reloads, whatever happens to the file meanwhile, and
  always keeps a current layer, 54 labels in each layer and a selection inside them: no
  index of a handler is out of bounds.
\<close>
theorem editor_never_panics:
  assumes "parse_layers doc = Inr ls" "load_qmk_settings doc = Inr settings" "distinct (map setting_path settings)"
  shows "\<exists>ed disk'. foldl editor_step (Some (initial_editor env0 ls settings, disk)) events = Some (ed, disk') \<and>
    ed_current ed < length (ed_layers ed) \<and>
    list_all (\<lambda>l. length (el_keys l) = KEY_COUNT) (ed_layers ed) \<and>
    (case ed_selected ed of None \<Rightarrow> True | Some i \<Rightarrow> i < KEY_COUNT)"
proof -
  have "editor_running (foldl editor_step (Some (initial_editor env0 ls settings, disk)) events)"
    by (rule editor_window.run_inv) (use initial_editor_ok [OF assms(1,3)] in \<open>auto simp: editor_running_def\<close>)
  then show ?thesis by (auto simp: editor_running_def editor_ok_def layers_fit_def)
qed

definition sample_env :: editor_env where
  "sample_env = \<lparr>print_json = (\<lambda>v. case v of JBool b \<Rightarrow> (if b then ''true'' else ''false'') | _ \<Rightarrow> ''200''),
     parse_json = (\<lambda>_. Some (JNumber (PosInt 200))), sync_ok = True\<rparr>"

definition sample_disk :: editor_disk where
  "sample_disk = \<lparr>disk_value = Inr sample_doc, disk_writable = True\<rparr>"

theorem editor_never_panics_witness:
  "\<exists>ed disk'. foldl editor_step (Some (initial_editor sample_env sample_layers sample_settings, sample_disk))
       [(sample_env, ButtonPress (Some 53)), (sample_env, TypeEntry ''MO(Base)''), (sample_env, Save), (sample_env, Reload)] = Some (ed, disk') \<and>
    ed_current ed < length (ed_layers ed) \<and>
    list_all (\<lambda>l. length (el_keys l) = KEY_COUNT) (ed_layers ed) \<and>
    (case ed_selected ed of None \<Rightarrow> True | Some i \<Rightarrow> i < KEY_COUNT)"
  by (rule editor_never_panics [OF sample_loads sample_distinct])


end
