(* ===== verification/Editor_Main.thy ===== *)
theory Editor_Main
  imports Editor_App
begin

text \<open>
  The command line of \<open>pkgs/keymap-editor/main.rs\<close>, and what saving does to the labels of a
  file as \<open>--validate\<close> sees it. Whether a path exists and joining two paths are parameters;
  rendering the preview is the value \<open>RenderPreview\<close>.
\<close>

section \<open>Arguments\<close>

record editor_args =
  ea_keymap_path :: string
  ea_print_path :: bool
  ea_validate_only :: bool
  ea_render_png :: "string option"

datatype editor_exit = ShowHelp | RenderNeedsPath | UnknownOption string

text \<open>The loop of \<open>parse_args\<close>: the path named last and the flags.\<close>

fun scan_editor_args ::
  "string option \<times> bool \<times> bool \<times> string option \<Rightarrow> string list \<Rightarrow>
   (editor_exit, string option \<times> bool \<times> bool \<times> string option) res" where
  "scan_editor_args parsed [] = Inr parsed"
| "scan_editor_args (path, print, check, png) (arg # rest) =
     (if arg = ''--print-path'' then scan_editor_args (path, True, check, png) rest
      else if arg = ''--validate'' then scan_editor_args (path, print, True, png) rest
      else if arg = ''--render-png'' then
        (case rest of
           [] \<Rightarrow> Inl RenderNeedsPath
         | out # rest' \<Rightarrow> scan_editor_args (path, print, check, Some out) rest')
      else if arg = ''--help'' \<or> arg = ''-h'' then Inl ShowHelp
      else if starts_with arg ''-'' then Inl (UnknownOption arg)
      else scan_editor_args (Some arg, print, check, png) rest)"

definition default_keymap_path ::
  "(string \<Rightarrow> bool) \<Rightarrow> (string \<Rightarrow> string \<Rightarrow> string) \<Rightarrow> string option \<Rightarrow> string \<Rightarrow> string" where
  "default_keymap_path path_exists path_join home packaged =
     (let candidates =
        [''packages/silakka54/configuration.json'',
         path_join (case home of Some h \<Rightarrow> h | None \<Rightarrow> ''.'') ''.config/system-config/packages/silakka54/configuration.json'',
         packaged]
      in (case find path_exists candidates of Some candidate \<Rightarrow> candidate | None \<Rightarrow> packaged))"

definition parse_editor_args :: "string \<Rightarrow> string list \<Rightarrow> (editor_exit, editor_args) res" where
  "parse_editor_args default_path args =
     bind_res (scan_editor_args (None, False, False, None) args) (\<lambda>(path, print, check, png).
     Inr \<lparr>ea_keymap_path = (case path of Some p \<Rightarrow> p | None \<Rightarrow> default_path),
          ea_print_path = print, ea_validate_only = check, ea_render_png = png\<rparr>)"

section \<open>Main\<close>

datatype editor_run =
    PrintPath string
  | LoadFailed editor_error
  | Invalid editor_error
  | Valid string
  | RenderPreview string "editor_layer list"
  | RunGui string "editor_layer list" "qmk_setting list"

definition editor_main :: "(string \<Rightarrow> (string, json) res) \<Rightarrow> editor_args \<Rightarrow> editor_run" where
  "editor_main read_json args =
    (let path = ea_keymap_path args in
     if ea_print_path args then PrintPath path
     else
       (case bind_res (map_err FileInvalid (read_json path)) parse_layers of
          Inl error \<Rightarrow> LoadFailed error
        | Inr ls \<Rightarrow>
       (case bind_res (map_err FileInvalid (read_json path)) load_qmk_settings of
          Inl error \<Rightarrow> LoadFailed error
        | Inr settings \<Rightarrow>
            if ea_validate_only args then
              (case bind_res (validate_layers ls) (\<lambda>_. validate_qmk_settings settings) of
                 Inl error \<Rightarrow> Invalid error
               | Inr _ \<Rightarrow> Valid path)
            else
              (case ea_render_png args of
                 Some out \<Rightarrow> RenderPreview out ls
               | None \<Rightarrow> RunGui path ls settings))))"

text \<open>
  The window is opened only on files whose every later event is handled: when
  \<open>main\<close> reaches the window, the editor handles any sequence of events without an index out
  of bounds, and the settings it shows are those of the file.
\<close>
theorem opened_window_runs:
  assumes "editor_main read_json args = RunGui path ls settings" "distinct (map setting_path settings)"
  shows "\<exists>doc. read_json path = Inr doc \<and> load_qmk_settings doc = Inr settings \<and>
    editor_running (foldl editor_step (Some (initial_editor env ls settings, \<lparr>disk_value = Inr doc, disk_writable = w\<rparr>)) events)"
proof -
  obtain doc where doc: "read_json path = Inr doc" "parse_layers doc = Inr ls" "load_qmk_settings doc = Inr settings"
    using assms(1) by (auto simp: editor_main_def Let_def split: if_splits sum.splits option.splits)
  have "editor_running (foldl editor_step (Some (initial_editor env ls settings, \<lparr>disk_value = Inr doc, disk_writable = w\<rparr>)) events)"
    by (rule editor_window.run_inv) (simp add: initial_editor_ok [OF doc(2) assms(2)])
  with doc show ?thesis by blast
qed

section \<open>Canonical labels\<close>

lemma identifier_call: "is_function_call (''MO('' @ qmk_layer_identifier name @ '')'')"
proof -
  have "ends_with (''MO('' @ qmk_layer_identifier name @ '')'') '')''"
    by (simp add: ends_with_iff)
  then show ?thesis
    using identifier_chars_ok [of _ name]
    by (auto simp: is_function_call_def list_all_iff is_upper_def is_alnum_def butlast_append)
qed

lemma canonical_keycode: "(l, k) \<in> set CANONICAL_KEYS \<Longrightarrow> starts_with k ''KC_'' \<or> starts_with k ''QK_''"
proof -
  have "list_all (\<lambda>(_, k). starts_with k ''KC_'' \<or> starts_with k ''QK_'') CANONICAL_KEYS" by code_simp
  then show "(l, k) \<in> set CANONICAL_KEYS \<Longrightarrow> starts_with k ''KC_'' \<or> starts_with k ''QK_''"
    by (auto simp: list_all_iff)
qed

text \<open>What \<open>canonical_key\<close> can return: a keycode or a call, or the key it was given.\<close>

lemma canonical_key_cases:
  obtains "canonical_key l ls = l"
    | "starts_with (canonical_key l ls) ''KC_'' \<or> starts_with (canonical_key l ls) ''QK_''"
    | name where "canonical_key l ls = ''MO('' @ qmk_layer_identifier name @ '')''"
  by (cases "starts_with l ''KC_'' \<or> starts_with l ''QK_'' \<or> contains l ''(''";
      cases "find (\<lambda>layer. el_name layer = l) ls"; cases "tap_label_to_qmk l"; cases "map_of CANONICAL_KEYS l")
    (auto simp: canonical_key_def dest: tap_keycode_spec canonical_keycode map_of_SomeD)

lemma canonical_key_valid: "valid_label l names \<Longrightarrow> valid_label (canonical_key l ls) names"
proof (rule canonical_key_cases [of l ls])
  fix name assume "canonical_key l ls = ''MO('' @ qmk_layer_identifier name @ '')''"
  then show ?thesis using identifier_call [of name] by (metis valid_label_def)
qed (auto simp: valid_label_def)

lemma find_layer_name:
  "(case find (\<lambda>layer. el_name layer = l) xs of Some layer \<Rightarrow> f (el_name layer) | None \<Rightarrow> z) =
   (if l \<in> set (map el_name xs) then f l else z)"
  by (induction xs) auto

lemma canonical_key_names:
  assumes "map el_name ls' = map el_name ls"
  shows "canonical_key l ls' = canonical_key l ls"
  unfolding canonical_key_def find_layer_name [where f = "\<lambda>name. ''MO('' @ qmk_layer_identifier name @ '')''"] assms ..

lemma canonical_key_fixed:
  "starts_with l ''KC_'' \<or> starts_with l ''QK_'' \<or> contains l ''('' \<Longrightarrow> canonical_key l ls = l"
  by (simp add: canonical_key_def)

lemma canonical_key_idem: "canonical_key (canonical_key l ls) ls = canonical_key l ls"
proof (rule canonical_key_cases [of l ls])
  fix name assume c: "canonical_key l ls = ''MO('' @ qmk_layer_identifier name @ '')''"
  have "contains (''MO('' @ qmk_layer_identifier name @ '')'') ''(''"
    unfolding contains_iff by (rule exI [of _ "''MO''"]) simp
  then show ?thesis unfolding c by (rule canonical_key_fixed [OF disjI2 [OF disjI2]])
qed (auto simp: canonical_key_fixed)

lemma saved_layer_names [simp]: "map el_name (map (saved_layer ls) ms) = map el_name ms"
  by (simp add: saved_layer_def o_def)

lemma validate_layers_iff:
  "validate_layers ls = Inr () \<longleftrightarrow>
   (\<forall>layer \<in> set ls. length (el_keys layer) = KEY_COUNT \<and> (\<forall>l \<in> set (el_keys layer). valid_label l (map el_name ls)))"
proof -
  have labels: "(\<forall>p \<in> set (enumerate 0 xs). (case p of (i, label) \<Rightarrow> if P label then Inr () else Inl (err i label)) = Inr ())
      \<longleftrightarrow> (\<forall>l \<in> set xs. P l)" for P xs and err :: "nat \<Rightarrow> string \<Rightarrow> editor_error"
  proof -
    have "set xs = snd ` set (enumerate 0 xs)" by (metis map_snd_enumerate set_map)
    then show ?thesis by (auto split: if_splits)
  qed
  show ?thesis unfolding validate_layers_def each_res_Inr by (auto simp: labels split: if_splits)
qed

lemma validate_saved:
  assumes "validate_layers ls = Inr ()"
  shows "validate_layers (map (saved_layer ls) ls) = Inr ()"
  using assms canonical_key_valid [of _ "map el_name ls" ls] unfolding validate_layers_iff saved_layer_names
  by (auto simp: saved_layer_def)

text \<open>
  A saved file is stable. Once layers that pass the form's check are saved, the file
  loads, \<open>--validate\<close> accepts its layers, and saving what was loaded would write the same
  labels again.
\<close>
theorem saved_file_validates:
  assumes "save_value doc ls settings = Inr doc'" "parse_layers doc = Inr old" "validate_layers ls = Inr ()"
  shows "\<exists>loaded. parse_layers doc' = Inr loaded \<and> validate_layers loaded = Inr () \<and>
    map (saved_layer loaded) loaded = loaded"
proof (intro exI conjI)
  have "list_all (\<lambda>l. length (el_keys l) = KEY_COUNT) ls"
    using assms(3) by (simp add: validate_layers_iff list_all_iff)
  with assms(1,2) show "parse_layers doc' = Inr (map (saved_layer ls) ls)" by (rule save_value_reads_back)
  show "validate_layers (map (saved_layer ls) ls) = Inr ()" by (rule validate_saved [OF assms(3)])
  have "canonical_key k (map (saved_layer ls) ls) = canonical_key k ls" for k
    by (rule canonical_key_names [OF saved_layer_names])
  then show "map (saved_layer (map (saved_layer ls) ls)) (map (saved_layer ls) ls) = map (saved_layer ls) ls"
    by (simp add: saved_layer_def o_def canonical_key_idem)
qed

section \<open>Examples\<close>

lemma opened_window_runs_witness:
  "\<exists>doc. Inr sample_doc = (Inr doc :: (string, json) res) \<and> load_qmk_settings doc = Inr sample_settings \<and>
    editor_running (foldl editor_step
      (Some (initial_editor sample_env sample_layers sample_settings, \<lparr>disk_value = Inr doc, disk_writable = False\<rparr>))
      [(sample_env, ButtonPress (Some 3)), (sample_env, ApplyTapHold)])"
proof (rule opened_window_runs [of "\<lambda>_. Inr sample_doc"])
  show "editor_main (\<lambda>_. Inr sample_doc)
      \<lparr>ea_keymap_path = ''configuration.json'', ea_print_path = False, ea_validate_only = False, ea_render_png = None\<rparr> =
      RunGui ''configuration.json'' sample_layers sample_settings"
    by (simp add: editor_main_def sample_loads)
qed (rule sample_distinct)

lemma saved_file_validates_witness:
  "\<exists>doc' loaded. save_value sample_doc sample_layers sample_settings = Inr doc' \<and> parse_layers doc' = Inr loaded \<and>
    validate_layers loaded = Inr () \<and> map (saved_layer loaded) loaded = loaded"
proof -
  have "\<not> isl (save_value sample_doc sample_layers sample_settings)" by code_simp
  then obtain doc' where saved: "save_value sample_doc sample_layers sample_settings = Inr doc'"
    by (cases "save_value sample_doc sample_layers sample_settings") auto
  have "validate_layers sample_layers = Inr ()" by code_simp
  from saved_file_validates [OF saved sample_loads(1) this] saved show ?thesis by blast
qed

end
