(* ===== verification/Editor_Sync.thy ===== *)
theory Editor_Sync
  imports Config_Json Editor_Main Sync_Apply
begin

text \<open>
  The editor and the sync tool share one file. What \<open>pkgs/keymap-editor/main.rs\<close> saves is
  what \<open>packages/silakka54/sync/src/main.rs\<close> loads and expands into key entries, and a
  snapshot that the sync tool prints opens in the editor.
\<close>

section \<open>The configuration after an edit\<close>

definition edited_layer :: "editor_layer list \<Rightarrow> configured_layer \<Rightarrow> editor_layer \<Rightarrow> configured_layer" where
  "edited_layer ls old l =
     old\<lparr>layer_name := el_name l, layer_keys := map (\<lambda>key. canonical_key key ls) (el_keys l)\<rparr>"

definition edited_setting :: "qmk_configuration \<Rightarrow> qmk_setting \<Rightarrow> qmk_configuration" where
  "edited_setting q s =
     (case qs_section s of
        SectionDefine \<Rightarrow> q\<lparr>qmk_defines := obj_insert (qs_name s) (qs_value s) (qmk_defines q)\<rparr>
      | SectionRule \<Rightarrow>
          (case as_bool (qs_value s) of
             Some b \<Rightarrow> q\<lparr>qmk_rules := obj_insert (qs_name s) b (qmk_rules q)\<rparr>
           | None \<Rightarrow> q))"

definition edited_configuration ::
  "editor_layer list \<Rightarrow> qmk_setting list \<Rightarrow> configuration \<Rightarrow> configuration" where
  "edited_configuration ls settings config =
     config\<lparr>via := (via config)\<lparr>layers := map2 (edited_layer ls) (layers (via config)) ls\<rparr>,
            qmk := foldl edited_setting (qmk config) settings\<rparr>"

definition rule_values :: "qmk_setting list \<Rightarrow> bool" where
  "rule_values settings \<longleftrightarrow>
     list_all (\<lambda>s. qs_section s = SectionRule \<longrightarrow> as_bool (qs_value s) \<noteq> None) settings"

section \<open>Lemmas\<close>

lemma member_insert [simp]:
  "required n d (obj_insert k v kvs) = (if n = k then d v else required n d kvs)"
  "defaulted n z d (obj_insert k v kvs) = (if n = k then d v else defaulted n z d kvs)"
  by (simp_all add: required_def defaulted_def map_of_obj_insert)

lemma required_at: "map_of kvs n = Some v \<Longrightarrow> required n d kvs = d v"
  by (simp add: required_def)

lemma json_modify_two:
  assumes "json_modify [a, b] f e v = Inr v'"
  obtains kvs inner x x' where "v = JObject kvs" "map_of kvs a = Some (JObject inner)" "map_of inner b = Some x"
    "f x = Inr x'" "v' = JObject (obj_insert a (JObject (obj_insert b x' inner)) kvs)"
proof (cases v)
  case (JObject kvs)
  with assms obtain w where w: "map_of kvs a = Some w" and m: "bind_res (json_modify [b] f e w)
      (\<lambda>w'. Inr (JObject (obj_insert a w' kvs))) = Inr v'"
    by (auto split: option.splits)
  show ?thesis
  proof (cases w)
    case inner: (JObject inner)
    then show ?thesis using that [OF JObject] w m by (auto split: option.splits)
  qed (use m in auto)
qed (use assms in auto)

lemma decode_stored_layer:
  assumes "store_layer_json ls (target, l) = Inr stored" "decode_layer target = Inr old"
  shows "decode_layer stored = Inr (edited_layer ls old l)"
proof -
  obtain kvs where t: "target = JObject kvs" and s: "stored = JObject (obj_insert ''keys''
      (encode_strings (map (\<lambda>key. canonical_key key ls) (el_keys l))) (obj_insert ''name'' (JString (el_name l)) kvs))"
    using assms(1) by (auto simp: store_layer_json_def encode_strings_def o_def split: option.splits)
  show ?thesis using assms(2) by (auto simp: t s decode_layer_def edited_layer_def)
qed

lemma decode_stored_layers:
  "map_res (store_layer_json ls) (zip targets ms) = Inr stored \<Longrightarrow> length targets = length ms \<Longrightarrow>
   map_res decode_layer targets = Inr old \<Longrightarrow>
   map_res decode_layer stored = Inr (map2 (edited_layer ls) old ms)"
proof (induction targets ms arbitrary: stored old rule: list_induct2')
  case (4 t ts m ms)
  then show ?case by (auto simp: decode_stored_layer)
qed auto

lemma decode_edited_layers:
  assumes "json_modify [''via'', ''layers''] (store_layers ls) e doc = Inr doc'"
    and "decode_configuration doc = Inr config"
  shows "decode_configuration doc' =
    Inr (config\<lparr>via := (via config)\<lparr>layers := map2 (edited_layer ls) (layers (via config)) ls\<rparr>\<rparr>)"
proof -
  obtain kvs inner x x' where d: "doc = JObject kvs" "map_of kvs ''via'' = Some (JObject inner)"
      "map_of inner ''layers'' = Some x" "store_layers ls x = Inr x'"
      "doc' = JObject (obj_insert ''via'' (JObject (obj_insert ''layers'' x' inner)) kvs)"
    by (rule json_modify_two [OF assms(1)])
  obtain targets stored where s: "x = JArray targets" "length targets = length ls"
      "map_res (store_layer_json ls) (zip targets ls) = Inr stored" "x' = JArray stored"
    using d(4) by (auto simp: store_layers_def split: option.splits if_splits)
  show ?thesis
    using assms(2) decode_stored_layers [OF s(3,2)]
    by (auto simp: d(1,5) s(1,4) decode_configuration_def decode_via_def required_at [OF d(2)] required_at [OF d(3)]
        decode_list_def)
qed

lemma map_res_insert:
  assumes "map_res (\<lambda>(k, x). bind_res (d x) (\<lambda>y. Inr (k, y))) kvs = Inr out" "d v = Inr w"
  shows "map_res (\<lambda>(k, x). bind_res (d x) (\<lambda>y. Inr (k, y))) (obj_insert k v kvs) = Inr (obj_insert k w out)"
  using assms by (induction kvs arbitrary: out) auto

lemma decode_map_insert:
  assumes "decode_map d (JObject kvs) = Inr out" "d v = Inr w"
  shows "decode_map d (JObject (obj_insert k v kvs)) = Inr (obj_insert k w out)"
  using map_res_insert [of d kvs out v w k] assms by (simp add: decode_map_def)

lemma decode_setting:
  assumes "store_setting doc s = Inr doc'" "decode_configuration doc = Inr config" "rule_values [s]"
  shows "decode_configuration doc' = Inr (config\<lparr>qmk := edited_setting (qmk config) s\<rparr>)"
proof -
  obtain kvs inner x x' where d: "doc = JObject kvs" "map_of kvs ''qmk'' = Some (JObject inner)"
      "map_of inner (section_key (qs_section s)) = Some x"
      "(case as_object x of None \<Rightarrow> Inl (FileInvalid (section_key (qs_section s)))
        | Some kvs \<Rightarrow> Inr (JObject (obj_insert (qs_name s) (qs_value s) kvs))) = Inr x'"
      "doc' = JObject (obj_insert ''qmk'' (JObject (obj_insert (section_key (qs_section s)) x' inner)) kvs)"
    by (rule json_modify_two [OF assms(1) [unfolded store_setting_def]])
  then obtain settings where x: "x = JObject settings" "x' = JObject (obj_insert (qs_name s) (qs_value s) settings)"
    by (auto split: option.splits)
  show ?thesis
  proof (cases "qs_section s")
    case SectionDefine
    then show ?thesis
      using assms(2) d(3)
      by (auto simp: d(1,5) x decode_configuration_def decode_qmk_def required_at [OF d(2)] required_at
          edited_setting_def)
  next
    case SectionRule
    then obtain b where b: "qs_value s = JBool b"
      using assms(3) by (cases "qs_value s") (auto simp: rule_values_def)
    show ?thesis
      using assms(2) d(3) decode_map_insert [of decode_bool settings _ "JBool b" b]
      by (auto simp: d(1,5) x b SectionRule decode_configuration_def decode_qmk_def required_at [OF d(2)] required_at
          edited_setting_def)
  qed
qed

lemma decode_settings:
  "fold_res store_setting doc settings = Inr doc' \<Longrightarrow> decode_configuration doc = Inr config \<Longrightarrow>
   rule_values settings \<Longrightarrow>
   decode_configuration doc' = Inr (config\<lparr>qmk := foldl edited_setting (qmk config) settings\<rparr>)"
proof (induction settings arbitrary: doc config)
  case (Cons s settings)
  then obtain doc1 where s: "store_setting doc s = Inr doc1" and rest: "fold_res store_setting doc1 settings = Inr doc'"
    by auto
  have "decode_configuration doc1 = Inr (config\<lparr>qmk := edited_setting (qmk config) s\<rparr>)"
    using decode_setting [OF s Cons.prems(2)] Cons.prems(3) by (simp add: rule_values_def)
  from Cons.IH [OF rest this] Cons.prems(3) show ?case by (simp add: rule_values_def)
qed simp

lemma decode_saved:
  assumes "save_value doc ls settings = Inr doc'" "decode_configuration doc = Inr config" "rule_values settings"
  shows "decode_configuration doc' = Inr (edited_configuration ls settings config)"
proof -
  obtain doc1 where doc1: "json_modify [''via'', ''layers''] (store_layers ls) (FileInvalid ''via.layers'') doc = Inr doc1"
      "fold_res store_setting doc1 settings = Inr doc'"
    by (rule save_value_parts [OF assms(1)])
  from decode_settings [OF doc1(2) decode_edited_layers [OF doc1(1) assms(2)] assms(3)]
  show ?thesis by (simp add: edited_configuration_def)
qed

lemma saved_layer_count:
  assumes "save_value doc ls settings = Inr doc'" "decode_configuration doc = Inr config"
  shows "length (layers (via config)) = length ls"
proof -
  obtain doc1 targets where t: "json_pointer [''via'', ''layers''] doc = Some (JArray targets)" "length targets = length ls"
      "json_modify [''via'', ''layers''] (store_layers ls) (FileInvalid ''via.layers'') doc = Inr doc1"
    by (rule save_value_parts [OF assms(1)])
  obtain kvs inner x where d: "doc = JObject kvs" "map_of kvs ''via'' = Some (JObject inner)" "map_of inner ''layers'' = Some x"
    by (rule json_modify_two [OF t(3)])
  then have "x = JArray targets" using t(1) by simp
  then show ?thesis
    using assms(2) d(3) t(2) map_res_length
    by (fastforce simp: d(1) decode_configuration_def decode_via_def required_at [OF d(2)] required_at decode_list_def)
qed

lemma validated_layer_count:
  assumes "validate_configuration config catalog = Inr ()"
    and "configuration_define_u8 config ''DYNAMIC_KEYMAP_LAYER_COUNT'' = Inr capacity"
  shows "length (layers (via config)) \<le> unat capacity"
  using assms by (auto simp: validate_configuration_def split: if_splits)

lemma expanded_key:
  assumes "configuration_entries config catalog packaged = Inr es" "l < length (layers (via config))" "i < 54"
  shows "\<exists>e \<in> set es. entry_position e = (of_nat l, fst (base_positions packaged ! i), snd (base_positions packaged ! i)) \<and>
    resolve_in config catalog (layer_keys (layers (via config) ! l) ! i) = Inr (entry_keycode e)"
proof -
  obtain capacity where cap: "configuration_define_u8 config ''DYNAMIC_KEYMAP_LAYER_COUNT'' = Inr capacity"
      "length es = unat capacity * 54"
      "\<And>l i. l < unat capacity \<Longrightarrow> i < 54 \<Longrightarrow> entry_for config catalog (base_positions packaged) l i (es ! (l * 54 + i))"
    using configuration_entries_shape [OF assms(1)] by blast
  have "validate_configuration config catalog = Inr ()"
    using assms(1) by (simp add: configuration_entries_def)
  then have l: "l < unat capacity" using validated_layer_count [OF _ cap(1)] assms(2) by fastforce
  then have "l * 54 + i < Suc l * 54" "Suc l * 54 \<le> length es" using cap(2) assms(3) by simp_all
  then have "l * 54 + i < length es" by linarith
  then show ?thesis
    using cap(3) [OF l assms(3)] assms(2)
    by (intro bexI [of _ "es ! (l * 54 + i)"]) (auto simp: entry_for_def expected_key_def entry_position_def)
qed

lemma apply_success_entries:
  assumes "sync_keymap_command_with_config B H path s = Some (Inr out, s')" "host_on_link h H"
  obtains config catalog packaged entries where
    "load_configuration H path s = Some (Inr config, s)" "load_catalog B H s = Some (Inr catalog, s)"
    "load_keymap_entries B H s = Some (Inr packaged, s)"
    "configuration_entries config catalog packaged = Inr entries"
    "load_configuration_entries B H path s = Some (Inr entries, s)"
proof -
  have pure: "t = u" if "io_map_err f (host_read H p) t = Some (r, u)" for f :: "string \<Rightarrow> sync_error" and p t r u
    using assms(2) that by (auto simp: host_on_link_def io_map_err_eq_Some)
  obtain c s0 where c: "load_configuration H path s = Some (Inr c, s0)"
      "\<exists>entries s1. load_configuration_entries B H path s0 = Some (Inr entries, s1)"
    using assms(1) unfolding sync_keymap_command_with_config_def
      io_bind_eq_ok [of "load_configuration H path"] io_bind_eq_ok [of "load_configuration_entries B H path"] by blast
  then obtain entries where e: "load_configuration_entries B H path s = Some (Inr entries, s)"
    using loading_keeps [OF assms(2)] by blast
  obtain config s1 catalog s2 u s3 packaged s4 where parts: "load_configuration H path s = Some (Inr config, s1)"
      "load_catalog B H s1 = Some (Inr catalog, s2)"
      "io_lift (map_err ConfigError (validate_configuration config catalog)) s2 = Some (Inr u, s3)"
      "load_keymap_entries B H s3 = Some (Inr packaged, s4)"
      "io_lift (map_err ConfigError (configuration_entries config catalog packaged)) s4 = Some (Inr entries, s)"
    using e unfolding load_configuration_entries_def io_bind_eq_ok by blast
  have "s1 = s" using loading_keeps(1) [OF assms(2) parts(1)] by simp
  moreover have "s2 = s1" "s4 = s3"
    using parts(2,4) by (auto simp: load_catalog_def load_keymap_entries_def io_bind_eq_ok io_lift_def dest!: pure)
  moreover have "s3 = s2" "s4 = s" "configuration_entries config catalog packaged = Inr entries"
    using parts(3,5) by (simp_all add: io_lift_def)
  ultimately show ?thesis using that parts e by simp
qed

lemma check_define_scalar: "check_define catalog (name, v) = Inr () \<Longrightarrow> is_scalar v"
proof -
  assume "check_define catalog (name, v) = Inr ()"
  then have "is_scalar_define v" by (auto simp: check_define_def split: if_splits option.splits)
  then show ?thesis by (cases v) (auto simp: is_scalar_define_def is_scalar_def)
qed

lemma map_res_map: "map_res f (map g xs) = map_res (\<lambda>x. f (g x)) xs"
  by (induction xs) simp_all

section \<open>Properties\<close>


definition typed_layers :: "editor_layer list" where
  "typed_layers = [\<lparr>el_name = ''Base'', el_keys = ''A'' # ''Space'' # replicate 52 ''A''\<rparr>]"

lemma typed_edit:
  "edited_configuration typed_layers [] apply_config = apply_config"
  "validate_layers typed_layers = Inr ()"
  "\<not> isl (save_value (encode_configuration apply_config) typed_layers [])"
  by code_simp+


text \<open>
  C27: From the keyboard to the editor. A valid configuration that the sync tool writes, such as
  the snapshot of a keyboard, is read back unchanged by the tool and opens in the editor with
  the same layers, names and keys, and with every define and rule as a setting.
\<close>
theorem snapshot_opens_in_editor:
  assumes "validate_configuration config catalog = Inr ()"
  shows "decode_configuration (encode_configuration config) = Inr config \<and>
    parse_layers (encode_configuration config) =
      Inr (map (\<lambda>l. \<lparr>el_name = layer_name l, el_keys = layer_keys l\<rparr>) (layers (via config))) \<and>
    load_qmk_settings (encode_configuration config) =
      Inr (map (\<lambda>(name, v). \<lparr>qs_section = SectionDefine, qs_name = name, qs_value = v\<rparr>) (qmk_defines (qmk config)) @
           map (\<lambda>(name, b). \<lparr>qs_section = SectionRule, qs_name = name, qs_value = JBool b\<rparr>) (qmk_rules (qmk config)))"
proof -
  have one: "schema_version config = 1" and layers: "layers (via config) \<noteq> []"
    and checked: "check_layers {} {} (layers (via config)) = Inr ()"
    and ds: "\<forall>x \<in> set (qmk_defines (qmk config)). check_define catalog x = Inr ()"
    using assms by (auto simp: validate_configuration_def split: if_splits)
  have shape: "\<forall>l \<in> set (layers (via config)). length (layer_keys l) = KEY_COUNT"
    using checked by (auto simp: check_layers_iff layers_ok_def KEY_COUNT_def)
  have layer: "parse_layer (encode_layer l) = Inr \<lparr>el_name = layer_name l, el_keys = layer_keys l\<rparr>" for l
    by (simp add: parse_layer_def encode_layer_def encode_strings_def parse_strings)
  have "map_res parse_layer (map encode_layer ls) = Inr (map (\<lambda>l. \<lparr>el_name = layer_name l, el_keys = layer_keys l\<rparr>) ls)" for ls
    by (induction ls) (simp_all add: layer)
  then have parsed: "parse_layers (encode_configuration config) =
      Inr (map (\<lambda>l. \<lparr>el_name = layer_name l, el_keys = layer_keys l\<rparr>) (layers (via config)))"
    using one layers shape by (auto simp: parse_layers_def encode_configuration_def encode_word_def encode_via_def)
  have define_part: "load_section (encode_configuration config) SectionDefine =
      Inr (map (\<lambda>(name, v). \<lparr>qs_section = SectionDefine, qs_name = name, qs_value = v\<rparr>) (qmk_defines (qmk config)))"
    using ds by (auto simp: load_section_def encode_configuration_def encode_qmk_def check_define_scalar intro!: map_res_total)
  have "load_section (encode_configuration config) SectionRule =
      Inr (map (\<lambda>(name, b). \<lparr>qs_section = SectionRule, qs_name = name, qs_value = JBool b\<rparr>) (qmk_rules (qmk config)))"
    by (auto simp: load_section_def encode_configuration_def encode_qmk_def map_res_map is_scalar_def intro!: map_res_total)
  with define_part parsed decode_encode show ?thesis by (simp add: load_qmk_settings_def)
qed

lemma snapshot_opens_in_editor_witness:
  "decode_configuration (encode_configuration apply_config) = Inr apply_config \<and>
   (\<exists>settings. load_qmk_settings (encode_configuration apply_config) = Inr settings)"
proof -
  have "validate_configuration apply_config sample_qmk_catalog = Inr ()" by code_simp
  from snapshot_opens_in_editor [OF this] show ?thesis by blast
qed

text \<open>
  The two tools disagree on names. A keycode without a \<open>KC_\<close> name, here a MIDI note, is
  recorded under its shortest name, which the form of the editor refuses: once such a
  key is in the file, saving any change fails.
\<close>
theorem snapshot_label_refused:
  "preferred_keycode_name 0x7103 [(''MI_C'', 0x7103), (''QK_MIDI_NOTE_C_0'', 0x7103)] = Inr ''MI_C'' \<and>
   (\<exists>e. validate_layers [\<lparr>el_name = ''Base'', el_keys = ''MI_C'' # replicate 53 ''KC_A''\<rparr>] = Inl e)"
proof
  show "preferred_keycode_name 0x7103 [(''MI_C'', 0x7103), (''QK_MIDI_NOTE_C_0'', 0x7103)] = Inr ''MI_C''" by code_simp
  have "isl (validate_layers [\<lparr>el_name = ''Base'', el_keys = ''MI_C'' # replicate 53 ''KC_A''\<rparr>])" by code_simp
  then show "\<exists>e. validate_layers [\<lparr>el_name = ''Base'', el_keys = ''MI_C'' # replicate 53 ''KC_A''\<rparr>] = Inl e"
    by (auto simp: isl_def)
qed

end
