(* ===== verification/Viewer_Input.thy ===== *)
theory Viewer_Input
  imports Viewer_State Device_Protocol Macro_Buffer Rust_Text
begin

text \<open>
  Where the overlay's events come from (\<open>pkgs/keyboard-layer-viewer/source/src/main.rs\<close>): HID
  reports of the keyboard, Linux input events, the control socket and Hyprland's event
  socket. Each reader thread is a function from what it read to the events it sends.
\<close>

section \<open>Layer reports\<close>

definition LAYER_REPORT_MAGIC :: "byte list" where
  "LAYER_REPORT_MAGIC = [0x4b, 0x42, 0x4c, 0x41, 0x59, 0x52]"
definition LAYER_REPORT_VERSION :: byte where "LAYER_REPORT_VERSION = 1"
definition LAYER_REPORT_KIND_QUERY :: byte where "LAYER_REPORT_KIND_QUERY = 0"
definition LAYER_REPORT_KIND_CURRENT :: byte where "LAYER_REPORT_KIND_CURRENT = 1"

definition query_current_layer :: "byte list" where
  "query_current_layer =
     LAYER_REPORT_MAGIC @ [LAYER_REPORT_VERSION, LAYER_REPORT_KIND_QUERY] @ replicate 24 0"

definition drop_report_id :: "byte list \<Rightarrow> byte list" where
  "drop_report_id buffer = (case buffer of [] \<Rightarrow> [] | b # rest \<Rightarrow> if b = 0 then rest else buffer)"

definition read_report :: "nat \<Rightarrow> byte list \<Rightarrow> app_event option" where
  "read_report profile buffer =
    (let report = drop_report_id buffer in
     if 10 \<le> length report \<and> take 6 report = LAYER_REPORT_MAGIC \<and>
        report ! 6 = LAYER_REPORT_VERSION \<and> report ! 7 = LAYER_REPORT_KIND_CURRENT
     then Some (Layer profile (report ! 8)) else None)"

text \<open>The outcomes of \<open>read\<close>, in order; a reader ends at the first it does not handle.\<close>

datatype read_result = Bytes "byte list" | Interrupted | ReadError

fun read_layer_path :: "nat \<Rightarrow> read_result list \<Rightarrow> app_event list" where
  "read_layer_path profile [] = []"
| "read_layer_path profile (Bytes buffer # rest) =
     (if buffer = [] then [] else (case read_report profile buffer of Some e \<Rightarrow> [e] | None \<Rightarrow> [])) @
     read_layer_path profile rest"
| "read_layer_path profile (Interrupted # rest) = read_layer_path profile rest"
| "read_layer_path profile (ReadError # rest) = []"

section \<open>Input events\<close>

definition INPUT_EVENT_SIZE :: nat where "INPUT_EVENT_SIZE = 24"
definition EV_KEY :: u16 where "EV_KEY = 1"

text \<open>Integers of \<open>struct input_event\<close> in the byte order of the machine, here little-endian.\<close>

definition le16 :: "byte \<Rightarrow> byte \<Rightarrow> u16" where
  "le16 a b = word_cat b a"

definition le32 :: "byte \<Rightarrow> byte \<Rightarrow> byte \<Rightarrow> byte \<Rightarrow> u32" where
  "le32 a b c d = word_cat (word_cat d c :: 16 word) (word_cat b a :: 16 word)"

definition input_key_event :: "byte list \<Rightarrow> (u16 \<times> bool) option" where
  "input_key_event event =
    (if length event < INPUT_EVENT_SIZE then None
     else if le16 (event ! 16) (event ! 17) \<noteq> EV_KEY then None
     else
       let code = le16 (event ! 18) (event ! 19);
           value = sint (le32 (event ! 20) (event ! 21) (event ! 22) (event ! 23))
       in if value = 0 then Some (code, False)
          else if value = 1 \<or> value = 2 then Some (code, True)
          else None)"

function chunks_exact :: "nat \<Rightarrow> 'a list \<Rightarrow> 'a list list" where
  "chunks_exact n xs =
     (if n = 0 \<or> length xs < n then [] else take n xs # chunks_exact n (drop n xs))"
  by pat_completeness auto
termination
  by (relation "measure (\<lambda>(n, xs). length xs)") auto

declare chunks_exact.simps [simp del]

definition key_events :: "nat \<Rightarrow> string \<Rightarrow> byte list \<Rightarrow> app_event list" where
  "key_events profile device buffer =
     List.map_filter (\<lambda>event. map_option (\<lambda>(keycode, pressed). Key profile device keycode pressed)
         (input_key_event event))
       (chunks_exact INPUT_EVENT_SIZE buffer)"

fun read_input_path :: "nat \<Rightarrow> string \<Rightarrow> read_result list \<Rightarrow> app_event list" where
  "read_input_path profile device [] = []"
| "read_input_path profile device (Bytes buffer # rest) =
     (if buffer = [] then [InputDisconnected device]
      else key_events profile device buffer @ read_input_path profile device rest)"
| "read_input_path profile device (Interrupted # rest) = read_input_path profile device rest"
| "read_input_path profile device (ReadError # rest) = [InputDisconnected device]"

section \<open>Which devices belong to a profile\<close>

definition pad4 :: "string \<Rightarrow> string" where
  "pad4 s = replicate (4 - length s) CHR ''0'' @ s"

definition normalize_hex_arg :: "string \<Rightarrow> string" where
  "normalize_hex_arg value =
     pad4 (to_ascii_lowercase (trim_start_matches ''0X'' (trim_start_matches ''0x'' value)))"

definition udev_data_has_keyboard :: "string \<Rightarrow> bool" where
  "udev_data_has_keyboard data \<longleftrightarrow> ''E:ID_INPUT_KEYBOARD=1'' \<in> set (str_lines data)"

text \<open>An entry of \<open>/sys/class/input\<close>: its name and the files the program reads below it.\<close>

record input_entry =
  ie_name :: string
  ie_dev :: "string option"
  ie_device_name :: "string option"
  ie_vendor :: "string option"
  ie_product :: "string option"

definition input_event_is_keyboard :: "(string \<Rightarrow> string option) \<Rightarrow> input_entry \<Rightarrow> bool" where
  "input_event_is_keyboard udev_data entry =
    (case Option.bind (ie_dev entry) (\<lambda>dev. udev_data (CHR ''c'' # trim dev)) of
       Some data \<Rightarrow> udev_data_has_keyboard data
     | None \<Rightarrow> (case ie_device_name entry of
         Some name \<Rightarrow> contains (to_ascii_lowercase name) ''keyboard''
       | None \<Rightarrow> False))"

definition profile_for :: "keyboard_profile list \<Rightarrow> string \<Rightarrow> string \<Rightarrow> nat option" where
  "profile_for profiles vid pid =
     find (\<lambda>i. kp_vid (profiles ! i) = vid \<and> kp_pid (profiles ! i) = pid) [0..<length profiles]"

definition input_event_path ::
  "(string \<Rightarrow> string option) \<Rightarrow> keyboard_profile list \<Rightarrow> input_entry \<Rightarrow> (nat \<times> string) option" where
  "input_event_path udev_data profiles entry =
    (if \<not> starts_with (ie_name entry) ''event'' then None
     else if \<not> input_event_is_keyboard udev_data entry then None
     else
       Option.bind (ie_vendor entry) (\<lambda>vendor.
       Option.bind (ie_product entry) (\<lambda>product.
       map_option (\<lambda>profile. (profile, ''/dev/input/'' @ ie_name entry))
         (profile_for profiles (normalize_hex_arg (trim vendor)) (normalize_hex_arg (trim product))))))"

definition input_event_paths ::
  "input_entry list option \<Rightarrow> (string \<Rightarrow> string option) \<Rightarrow> keyboard_profile list \<Rightarrow> (nat \<times> string) list" where
  "input_event_paths sys_class_input udev_data profiles =
     (case sys_class_input of
        None \<Rightarrow> []
      | Some entries \<Rightarrow> List.map_filter (input_event_path udev_data profiles) entries)"

text \<open>The hidraw nodes of a profile: \<open>(name, device/uevent)\<close> pairs of \<open>/sys/class/hidraw\<close>.\<close>

definition hidraw_paths ::
  "string option \<Rightarrow> (string \<times> string option) list option \<Rightarrow> keyboard_profile \<Rightarrow> string list" where
  "hidraw_paths path entries profile =
    (case path of
       Some path \<Rightarrow> [path]
     | None \<Rightarrow>
        (case entries of
           None \<Rightarrow> []
         | Some entries \<Rightarrow>
             List.map_filter (\<lambda>(name, uevent).
               Option.bind uevent (\<lambda>contents.
               if contains (to_ascii_lowercase contents) ('':0000'' @ kp_vid profile @ '':0000'' @ kp_pid profile)
               then Some (''/dev/'' @ name) else None)) entries))"

text \<open>
  The watcher loops: each round starts a reader for every device found that has none, and a
  reader that ends takes its key out of the shared set.
\<close>

definition reader_key :: "nat \<times> string \<Rightarrow> string" where
  "reader_key = (\<lambda>(profile, path). show_nat profile @ '':'' @ path)"

fun spawn_readers ::
  "string set \<Rightarrow> (nat \<times> string) list \<Rightarrow> (nat \<times> string) list \<times> string set" where
  "spawn_readers keys [] = ([], keys)"
| "spawn_readers keys (reader # found) =
     (if reader_key reader \<in> keys then spawn_readers keys found
      else let (spawned, keys') = spawn_readers (insert (reader_key reader) keys) found
           in (reader # spawned, keys'))"

definition layer_devices ::
  "string option \<Rightarrow> (string \<times> string option) list option \<Rightarrow> keyboard_profile list \<Rightarrow> (nat \<times> string) list" where
  "layer_devices path entries profiles =
     concat (map (\<lambda>(profile, keyboard).
       if \<not> kp_current_layer_hid keyboard then []
       else map (\<lambda>p. (profile, p)) (hidraw_paths path entries keyboard)) (enumerate 0 profiles))"

record watcher =
  w_keys :: "string set"
  w_readers :: "(nat \<times> string) list"

datatype watcher_event = Round "(nat \<times> string) list" | ReaderEnded "nat \<times> string"

fun watcher_step :: "watcher \<Rightarrow> watcher_event \<Rightarrow> watcher" where
  "watcher_step w (Round found) =
     (let (spawned, keys) = spawn_readers (w_keys w) found
      in \<lparr>w_keys = keys, w_readers = w_readers w @ spawned\<rparr>)"
| "watcher_step w (ReaderEnded reader) =
     (if reader \<in> set (w_readers w)
      then \<lparr>w_keys = w_keys w - {reader_key reader}, w_readers = remove1 reader (w_readers w)\<rparr> else w)"

text \<open>There is never more than one reader for a device of a profile.\<close>

definition watcher_ok :: "watcher \<Rightarrow> bool" where
  "watcher_ok w \<longleftrightarrow> distinct (map reader_key (w_readers w)) \<and> reader_key ` set (w_readers w) = w_keys w"

lemma spawn_readers_spec:
  "spawn_readers keys found = (spawned, keys') \<Longrightarrow>
     distinct (map reader_key spawned) \<and> (\<forall>r \<in> set spawned. reader_key r \<notin> keys) \<and>
     keys' = keys \<union> reader_key ` set spawned \<and> reader_key ` set found \<subseteq> keys'"
proof (induction keys found arbitrary: spawned keys' rule: spawn_readers.induct)
  case (2 keys reader found)
  show ?case
  proof (cases "reader_key reader \<in> keys")
    case True
    then show ?thesis using "2.IH"(1) [OF True, of spawned keys'] "2.prems" by auto
  next
    case False
    obtain out where out: "spawn_readers (insert (reader_key reader) keys) found = (out, keys')" "spawned = reader # out"
      using "2.prems" False by (simp split: prod.splits)
    from "2.IH"(2) [OF False out(1)] False show ?thesis by (auto simp: out(2))
  qed
qed simp

interpretation readers: event_machine watcher_step watcher_ok
proof
  fix w e assume ok: "watcher_ok w"
  show "watcher_ok (watcher_step w e)"
  proof (cases e)
    case (Round found)
    obtain spawned keys where s: "spawn_readers (w_keys w) found = (spawned, keys)" by fastforce
    from spawn_readers_spec [OF s] ok show ?thesis
      by (auto simp: Round s watcher_ok_def image_Un)
  next
    case (ReaderEnded reader)
    have d: "distinct (w_readers w)" "inj_on reader_key (set (w_readers w))"
      using ok by (auto simp: watcher_ok_def distinct_map)
    have "distinct (map reader_key (remove1 reader (w_readers w)))"
      using d by (simp add: distinct_map inj_on_diff)
    moreover have "reader_key ` (set (w_readers w) - {reader}) = w_keys w - {reader_key reader}"
      if "reader \<in> set (w_readers w)"
      using ok d(2) that by (auto simp: watcher_ok_def inj_on_def)
    ultimately show ?thesis using ok ReaderEnded d(1) by (simp add: watcher_ok_def)
  qed
qed

section \<open>Control socket\<close>

datatype control_command =
    CmdActivity
  | CmdHide
  | CmdPlace string int
  | CmdRefreshPlacement
  | CmdStatus

fun message :: "control_command \<Rightarrow> string" where
  "message CmdActivity = ''activity''"
| "message CmdHide = ''hide''"
| "message (CmdPlace monitor left_margin) = ''place '' @ monitor @ '' '' @ show_int left_margin"
| "message CmdRefreshPlacement = ''refresh-placement''"
| "message CmdStatus = ''status''"

definition handle_control_line :: "string \<Rightarrow> app_event option" where
  "handle_control_line line =
    (case split_whitespace line of
       [] \<Rightarrow> None
     | first # words \<Rightarrow>
         if first = ''activity'' then Some Activity
         else if first = ''hide'' then Some Hide
         else if first = ''place'' then
           (case words of
              monitor # value # _ \<Rightarrow> map_option (Place monitor) (parse_i32 value)
            | _ \<Rightarrow> None)
         else if first = ''refresh-placement'' then Some RefreshPlacement
         else if first = ''status'' then Some Status
         else None)"

text \<open>\<open>read_to_string\<close> fails on text that is not UTF-8.\<close>

definition handle_control_stream :: "byte list \<Rightarrow> app_event list" where
  "handle_control_stream bytes =
     (case from_utf8 bytes of
        None \<Rightarrow> []
      | Some text \<Rightarrow> List.map_filter handle_control_line (str_lines text))"

definition send_control :: "string \<Rightarrow> byte list" where
  "send_control command = as_bytes (command @ [CHR 0x0A])"

fun command_event :: "control_command \<Rightarrow> app_event" where
  "command_event CmdActivity = Activity"
| "command_event CmdHide = Hide"
| "command_event (CmdPlace monitor left_margin) = Place monitor left_margin"
| "command_event CmdRefreshPlacement = RefreshPlacement"
| "command_event CmdStatus = Status"

section \<open>Hyprland events\<close>

definition handle_hyprland_event :: "string option \<Rightarrow> string \<Rightarrow> app_event option" where
  "handle_hyprland_event focused line =
    (case strip_prefix ''focusedmon>>'' line of
       Some rest \<Rightarrow> map_option (\<lambda>(monitor, _). Monitor monitor) (split_once CHR '','' rest)
     | None \<Rightarrow>
         if starts_with line ''monitoradded'' \<or> starts_with line ''monitorremoved'' then map_option Monitor focused
         else map_option Submap (strip_prefix ''submap>>'' line))"

text \<open>
  The inner loop after one read: complete lines leave the buffer, each with its line feed,
  and the rest stays pending.
\<close>

function drain_lines :: "byte list \<Rightarrow> byte list list \<times> byte list" where
  "drain_lines pending =
    (if 0x0a \<in> set pending then
       (let line = takeWhile (\<lambda>b. b \<noteq> 0x0a) pending;
            rest = tl (dropWhile (\<lambda>b. b \<noteq> 0x0a) pending);
            (ls, left) = drain_lines rest
        in ((line @ [0x0a]) # ls, left))
     else ([], pending))"
  by pat_completeness auto
termination
proof (relation "measure length", goal_cases)
  case (2 pending line rest)
  then have "dropWhile (\<lambda>b. b \<noteq> 0x0a) pending \<noteq> []" by auto
  then have "length rest < length (dropWhile (\<lambda>b. b \<noteq> 0x0a) pending)"
    by (simp add: 2)
  also have "\<dots> \<le> length pending" by (rule length_dropWhile_le)
  finally show ?case by simp
qed simp

declare drain_lines.simps [simp del]

definition line_event :: "string option \<Rightarrow> byte list \<Rightarrow> app_event option" where
  "line_event focused line = Option.bind (from_utf8 line) (\<lambda>s. handle_hyprland_event focused (trim s))"

definition hyprland_read ::
  "string option \<Rightarrow> byte list \<times> app_event list \<Rightarrow> byte list \<Rightarrow> byte list \<times> app_event list" where
  "hyprland_read focused = (\<lambda>(pending, events) buffer.
     let (ls, left) = drain_lines (pending @ buffer)
     in (left, events @ List.map_filter (line_event focused) ls))"

section \<open>Lemmas\<close>

lemma drain_none: "0x0a \<notin> set p \<Longrightarrow> drain_lines p = ([], p)"
  by (subst drain_lines.simps) simp

lemma drain_line:
  assumes "0x0a \<notin> set l"
  shows "drain_lines (l @ 0x0a # r) = (let (ls, left) = drain_lines r in ((l @ [0x0a]) # ls, left))"
proof -
  have "takeWhile (\<lambda>b. b \<noteq> 0x0a) (l @ 0x0a # r) = l" "dropWhile (\<lambda>b. b \<noteq> 0x0a) (l @ 0x0a # r) = 0x0a # r"
    using assms by (induction l) auto
  then show ?thesis by (subst drain_lines.simps) (simp add: Let_def)
qed

lemma split_first_line:
  assumes "(0x0a :: byte) \<in> set p"
  obtains l r where "p = l @ 0x0a # r" "0x0a \<notin> set l"
  using assms by (meson split_list_first)

lemma drain_append:
  "drain_lines (a @ b) =
    (let (ls, left) = drain_lines a; (ms, rest) = drain_lines (left @ b) in (ls @ ms, rest))"
proof (induction a rule: length_induct)
  case (1 a)
  show ?case
  proof (cases "0x0a \<in> set a")
    case False
    then show ?thesis by (simp add: drain_none)
  next
    case True
    then obtain l r where a: "a = l @ 0x0a # r" "0x0a \<notin> set l" by (rule split_first_line)
    then have "length r < length a" by simp
    with 1 have IH: "drain_lines (r @ b) =
        (let (ls, left) = drain_lines r; (ms, rest) = drain_lines (left @ b) in (ls @ ms, rest))"
      by blast
    show ?thesis
      using drain_line [OF a(2), of r] drain_line [OF a(2), of "r @ b"] IH a(1)
      by (simp add: Let_def split: prod.splits)
  qed
qed

lemma drain_terminated:
  assumes "list_all (\<lambda>l. 0x0a \<notin> set l) ls" "0x0a \<notin> set partial"
  shows "drain_lines (concat (map (\<lambda>l. l @ [0x0a]) ls) @ partial) = (map (\<lambda>l. l @ [0x0a]) ls, partial)"
  using assms by (induction ls) (simp_all add: drain_none drain_line)

lemma hyprland_reads:
  "drain_lines pending = ([], pending) \<Longrightarrow>
   foldl (hyprland_read focused) (pending, events) chunks =
     (let (ls, left) = drain_lines (pending @ concat chunks)
      in (left, events @ List.map_filter (line_event focused) ls))"
proof (induction chunks arbitrary: pending events)
  case Nil
  then show ?case by (simp add: map_filter_def)
next
  case (Cons c chunks)
  obtain ls left where d: "drain_lines (pending @ c) = (ls, left)" by fastforce
  have left: "drain_lines left = ([], left)"
    using drain_append [of "pending @ c" "[]"] d by (auto simp: Let_def split: prod.splits)
  show ?case
    using Cons.IH [OF left] drain_append [of "pending @ c" "concat chunks"] d
    by (simp add: hyprland_read_def Let_def map_filter_def split: prod.splits)
qed

lemma control_words:
  assumes "split_whitespace line = first # words"
  shows "handle_control_line line =
    (if first = ''activity'' then Some Activity
     else if first = ''hide'' then Some Hide
     else if first = ''place'' then
       (case words of monitor # value # _ \<Rightarrow> map_option (Place monitor) (parse_i32 value) | _ \<Rightarrow> None)
     else if first = ''refresh-placement'' then Some RefreshPlacement
     else if first = ''status'' then Some Status
     else None)"
  by (simp add: handle_control_line_def assms)

fun command_ok :: "control_command \<Rightarrow> bool" where
  "command_ok (CmdPlace monitor left_margin) =
     (monitor \<noteq> [] \<and> list_all is_graph monitor \<and> - 2147483648 \<le> left_margin \<and> left_margin < 2147483648)"
| "command_ok _ = True"

fun message_words :: "control_command \<Rightarrow> string list" where
  "message_words CmdActivity = [''activity'']"
| "message_words CmdHide = [''hide'']"
| "message_words (CmdPlace monitor left_margin) = [''place'', monitor, show_int left_margin]"
| "message_words CmdRefreshPlacement = [''refresh-placement'']"
| "message_words CmdStatus = [''status'']"

lemma message_join: "message cmd = join '' '' (message_words cmd)"
  by (cases cmd) simp_all

lemma message_words_graph: "command_ok cmd \<Longrightarrow> list_all (\<lambda>w. w \<noteq> [] \<and> list_all is_graph w) (message_words cmd)"
  using show_int_graph by (cases cmd) (simp_all add: is_graph_def)

lemma handle_message: "command_ok cmd \<Longrightarrow> handle_control_line (message cmd) = Some (command_event cmd)"
  using split_whitespace_join [OF message_words_graph, of cmd]
  by (cases cmd) (simp_all add: message_join control_words parse_i32_show)

lemma join_blank_chars:
  "list_all (\<lambda>w. w \<noteq> [] \<and> list_all is_graph w) ws \<Longrightarrow> c \<in> set (join '' '' ws) \<Longrightarrow> is_graph c \<or> c = CHR '' ''"
  by (induction "'' ''" ws rule: join.induct) (auto simp: list_all_iff)

lemma graph_ascii: "is_graph c \<or> c = CHR '' '' \<Longrightarrow> is_ascii c \<and> c \<noteq> CHR 0x0A \<and> c \<noteq> CHR 0x0D"
  by (auto simp: is_graph_def is_ascii_def)

lemma layer_report_read: "read_report profile (layer_report l n) = Some (Layer profile l)"
  by (simp add: read_report_def drop_report_id_def layer_report_def pad_report_def REPORT_MAGIC_def
      LAYER_REPORT_MAGIC_def LAYER_REPORT_VERSION_def LAYER_REPORT_KIND_CURRENT_def)

lemma set_layer_shows:
  assumes "profile < length (ui_profiles st)" "set_layer env profile layer st = Some st'"
  shows "ui_active_profile st' = profile \<and>
    kp_current_layer (ui_profiles st' ! profile) = clamp_layer (unat layer) (kp_layers (ui_profiles st ! profile))"
proof -
  let ?p = "ui_profiles st ! profile"
  have p: "list_get (ui_profiles st) profile = Some ?p" using assms(1) by (simp add: list_get_def)
  obtain t where title: "update_window_title (st\<lparr>ui_active_profile := profile\<rparr>) =
      Some (st\<lparr>ui_active_profile := profile, ui_title := t\<rparr>)"
    using assms(1) by (simp add: update_window_title_def active_def list_get_def)
  have frame: "ui_active_profile st2 = ui_active_profile st1 \<and> ui_profiles st2 = ui_profiles st1"
    if "reveal env st1 = Some st2" for st1 st2
    using that by (auto simp: reveal_def Let_def bind_eq_Some_conv hide_state_def show_state_def
        elim!: deadline_only split: if_splits)
  show ?thesis
    using assms(1) assms(2) title unfolding set_layer_def p
    by (auto simp: Let_def store_layer_def queue_draw_def dest!: frame split: if_splits)
qed

section \<open>Properties\<close>

text \<open>
  Hyprland's events do not depend on how the socket's reads cut the stream. Whatever the
  boundaries of the chunks, the events sent are those of the complete lines, in order, and
  the incomplete last line stays pending.
\<close>
theorem hyprland_framing:
  assumes "concat chunks = concat (map (\<lambda>l. l @ [0x0a]) ls) @ partial"
    and "list_all (\<lambda>l. 0x0a \<notin> set l) ls" "0x0a \<notin> set partial"
  shows "foldl (hyprland_read focused) ([], []) chunks =
    (partial, List.map_filter (line_event focused) (map (\<lambda>l. l @ [0x0a]) ls))"
  using hyprland_reads [of "[]" focused "[]" chunks] drain_terminated [OF assms(2,3)] assms(1)
  by (simp add: drain_none Let_def)

lemma hyprland_framing_witness:
  "foldl (hyprland_read None) ([], []) [as_bytes ''submap>>ga'', as_bytes ''me'' @ [0x0a, 0x78]] =
    ([0x78], List.map_filter (line_event None) (map (\<lambda>l. l @ [0x0a]) [as_bytes ''submap>>game'']))"
  by (rule hyprland_framing) (simp_all add: as_bytes_def byte_of_def)

text \<open>
  A control command sent by one process is the event handled by the running one: for
  every command, what \<open>send_control\<close> writes is read back by \<open>handle_control_stream\<close> as exactly
  that command's event. A monitor name must be free of blanks; with one it is not.
\<close>
theorem control_round_trip:
  assumes "command_ok cmd"
  shows "handle_control_stream (send_control (message cmd)) = [command_event cmd]"
proof -
  have chars: "is_ascii c \<and> c \<noteq> CHR 0x0A \<and> c \<noteq> CHR 0x0D" if "c \<in> set (message cmd)" for c
    using graph_ascii [OF join_blank_chars [OF message_words_graph [OF assms]]] that
    by (simp add: message_join)
  then have "list_all is_ascii (message cmd @ [CHR 0x0A])"
    by (auto simp: list_all_iff is_ascii_def)
  then have "from_utf8 (send_control (message cmd)) = Some (message cmd @ [CHR 0x0A])"
    unfolding send_control_def by (rule from_utf8_ascii)
  moreover have "str_lines (message cmd @ [CHR 0x0A]) = [message cmd]"
    using chars by (intro str_lines_one) auto
  ultimately show ?thesis
    by (simp add: handle_control_stream_def handle_message [OF assms] map_filter_def)
qed

lemma control_round_trip_witness:
  "handle_control_stream (send_control (message (CmdPlace ''DP-1'' (- 5)))) = [Place ''DP-1'' (- 5)]"
  using control_round_trip [of "CmdPlace ''DP-1'' (- 5)"] by (simp add: is_graph_def)



end
