(* ===== verification/Viewer_Config.thy ===== *)
theory Viewer_Config
  imports Viewer_Bindings Viewer_Input
begin

text \<open>
  The overlay's start (\<open>pkgs/keyboard-layer-viewer/source/src/main.rs\<close>): command line, profile
  and keymap files, and what \<open>main\<close> does with them. YAML and JSON parsing belong to serde
  and arrive as values; paths are values of an arbitrary type with the three operations of
  \<open>Path\<close> the code calls.
\<close>

section \<open>Command line\<close>

record 'p viewer_args =
  va_vid :: string
  va_pid :: string
  va_path :: "'p option"
  va_keymap :: 'p
  va_info :: 'p
  va_profiles :: 'p
  va_simulate_layer :: "u8 option"
  va_control :: "control_command option"
  va_hidden :: bool

datatype args_end = Help | RequiresValue string | NotAnInteger string | UnknownArgument string

definition DEFAULT_VID :: string where "DEFAULT_VID = ''0000''"
definition DEFAULT_PID :: string where "DEFAULT_PID = ''0000''"

fun scan_args ::
  "(string \<Rightarrow> 'p) \<Rightarrow> 'p viewer_args \<Rightarrow> string list \<Rightarrow> (args_end, 'p viewer_args) res" where
  "scan_args path parsed [] = Inr parsed"
| "scan_args path parsed (arg # rest) =
    (if arg = ''--vid'' then
       (case rest of [] \<Rightarrow> Inl (RequiresValue arg)
        | v # rest \<Rightarrow> scan_args path (parsed\<lparr>va_vid := normalize_hex_arg v\<rparr>) rest)
     else if arg = ''--pid'' then
       (case rest of [] \<Rightarrow> Inl (RequiresValue arg)
        | v # rest \<Rightarrow> scan_args path (parsed\<lparr>va_pid := normalize_hex_arg v\<rparr>) rest)
     else if arg = ''--path'' then
       (case rest of [] \<Rightarrow> Inl (RequiresValue arg)
        | v # rest \<Rightarrow> scan_args path (parsed\<lparr>va_path := Some (path v)\<rparr>) rest)
     else if arg = ''--keymap'' then
       (case rest of [] \<Rightarrow> Inl (RequiresValue arg)
        | v # rest \<Rightarrow> scan_args path (parsed\<lparr>va_keymap := path v\<rparr>) rest)
     else if arg = ''--info'' then
       (case rest of [] \<Rightarrow> Inl (RequiresValue arg)
        | v # rest \<Rightarrow> scan_args path (parsed\<lparr>va_info := path v\<rparr>) rest)
     else if arg = ''--profiles'' then
       (case rest of [] \<Rightarrow> Inl (RequiresValue arg)
        | v # rest \<Rightarrow> scan_args path (parsed\<lparr>va_profiles := path v\<rparr>) rest)
     else if arg = ''--simulate-layer'' then
       (case rest of [] \<Rightarrow> Inl (RequiresValue arg)
        | v # rest \<Rightarrow>
            (case parse_u8 v of
               None \<Rightarrow> Inl (NotAnInteger arg)
             | Some layer \<Rightarrow> scan_args path (parsed\<lparr>va_simulate_layer := Some (of_nat layer)\<rparr>) rest))
     else if arg = ''--activity'' then scan_args path (parsed\<lparr>va_control := Some CmdActivity\<rparr>) rest
     else if arg = ''--hide'' then scan_args path (parsed\<lparr>va_control := Some CmdHide\<rparr>) rest
     else if arg = ''--place'' then
       (case rest of [] \<Rightarrow> Inl (RequiresValue arg)
        | monitor # rest \<Rightarrow>
       (case rest of [] \<Rightarrow> Inl (RequiresValue arg)
        | v # rest \<Rightarrow>
            (case parse_i32 v of
               None \<Rightarrow> Inl (NotAnInteger arg)
             | Some left_margin \<Rightarrow>
                 scan_args path (parsed\<lparr>va_control := Some (CmdPlace monitor left_margin)\<rparr>) rest)))
     else if arg = ''--refresh-placement'' then
       scan_args path (parsed\<lparr>va_control := Some CmdRefreshPlacement\<rparr>) rest
     else if arg = ''--status'' then scan_args path (parsed\<lparr>va_control := Some CmdStatus\<rparr>) rest
     else if arg = ''--hidden'' then scan_args path (parsed\<lparr>va_hidden := True\<rparr>) rest
     else if arg = ''--help'' \<or> arg = ''-h'' then Inl Help
     else Inl (UnknownArgument arg))"

definition parse_args ::
  "(string \<Rightarrow> 'p) \<Rightarrow> 'p \<Rightarrow> 'p \<Rightarrow> 'p \<Rightarrow> string list \<Rightarrow> (args_end, 'p viewer_args) res" where
  "parse_args path keymap info profiles arguments =
    (let defaults = \<lparr>va_vid = DEFAULT_VID, va_pid = DEFAULT_PID, va_path = None, va_keymap = keymap,
       va_info = info, va_profiles = profiles, va_simulate_layer = None, va_control = None, va_hidden = True\<rparr>
     in bind_res (scan_args path defaults arguments) (\<lambda>parsed.
        Inr (if va_control parsed = None \<and> va_simulate_layer parsed \<noteq> None
             then parsed\<lparr>va_hidden := False\<rparr> else parsed)))"

section \<open>Keymap and profile files\<close>

text \<open>A YAML value; a number is kept as the text that \<open>Number::to_string\<close> prints.\<close>

datatype yaml =
    YNull
  | YBool bool
  | YNumber string
  | YString string
  | YSequence "yaml list"
  | YMapping "(yaml \<times> yaml) list"
  | YTagged string yaml

fun untag :: "yaml \<Rightarrow> yaml" where
  "untag (YTagged _ v) = untag v"
| "untag v = v"

definition yaml_get :: "string \<Rightarrow> yaml \<Rightarrow> yaml option" where
  "yaml_get key v = (case untag v of YMapping m \<Rightarrow> map_of m (YString key) | _ \<Rightarrow> None)"

definition as_mapping :: "yaml \<Rightarrow> (yaml \<times> yaml) list option" where
  "as_mapping v = (case untag v of YMapping m \<Rightarrow> Some m | _ \<Rightarrow> None)"

definition as_sequence :: "yaml \<Rightarrow> yaml list option" where
  "as_sequence v = (case untag v of YSequence xs \<Rightarrow> Some xs | _ \<Rightarrow> None)"

datatype 'p load_error =
    FileError 'p string
  | NoLayersMapping 'p
  | LayerNameNotScalar
  | LayerNotSequence string
  | KeyLabelNotScalar
  | LayerKeyCount string nat nat
  | NoLayers 'p
  | NoLayoutDefined 'p
  | EmptyLayout 'p
  | UnknownVisibleLayer string string
  | NoProfiles
  | AlreadyRunning
  | NotRunning

fun scalar_to_string :: "yaml \<Rightarrow> string option" where
  "scalar_to_string (YString s) = Some s"
| "scalar_to_string (YNumber s) = Some s"
| "scalar_to_string (YBool b) = Some (if b then ''true'' else ''false'')"
| "scalar_to_string YNull = Some []"
| "scalar_to_string _ = None"

definition load_layer :: "nat \<Rightarrow> yaml \<times> yaml \<Rightarrow> ('p load_error, key_layer) res" where
  "load_layer key_count = (\<lambda>(name, keys).
     bind_res (ok_or LayerNameNotScalar (scalar_to_string name)) (\<lambda>name.
     bind_res (ok_or (LayerNotSequence name) (as_sequence keys)) (\<lambda>keys.
     bind_res (map_res (\<lambda>value. ok_or KeyLabelNotScalar (scalar_to_string value)) keys) (\<lambda>keys.
     if length keys \<noteq> key_count then Inl (LayerKeyCount name (length keys) key_count)
     else Inr \<lparr>kl_name = name, kl_keys = keys\<rparr>))))"

text \<open>Files as they are on disk: reading and parsing one gives its value or an error message.\<close>

record 'p profile_config =
  pc_id :: string
  pc_name :: string
  pc_vid :: string
  pc_pid :: string
  pc_info :: 'p
  pc_layers :: 'p
  pc_current_layer_hid :: bool
  pc_visible_layers :: "string list option"

record ('p, 'k) viewer_files =
  vf_exists :: "'p \<Rightarrow> bool"
  vf_yaml :: "'p \<Rightarrow> (string, yaml) res"
  vf_info :: "'p \<Rightarrow> (string, (string \<times> 'k list) list) res"
  vf_profiles :: "'p \<Rightarrow> (string, 'p profile_config list) res"
  vf_absolute :: "'p \<Rightarrow> bool"
  vf_join :: "'p \<Rightarrow> 'p \<Rightarrow> 'p"
  vf_parent :: "'p \<Rightarrow> 'p option"
  vf_dot :: 'p

definition load_layers ::
  "('p, 'k) viewer_files \<Rightarrow> 'p \<Rightarrow> nat \<Rightarrow> ('p load_error, key_layer list) res" where
  "load_layers fs path key_count =
    bind_res (map_err (FileError path) (vf_yaml fs path)) (\<lambda>root.
    bind_res (ok_or (NoLayersMapping path) (Option.bind (yaml_get ''layers'' root) as_mapping)) (\<lambda>ls.
    bind_res (map_res (load_layer key_count) ls) (\<lambda>output.
    if output = [] then Inl (NoLayers path) else Inr output)))"

text \<open>The keys of \<open>layouts.LAYOUT\<close>; \<open>layout_bounds\<close> and the geometry are drawing.\<close>

definition load_layout :: "('p, 'k) viewer_files \<Rightarrow> 'p \<Rightarrow> ('p load_error, 'k list) res" where
  "load_layout fs path =
    bind_res (map_err (FileError path) (vf_info fs path)) (\<lambda>layouts.
    bind_res (ok_or (NoLayoutDefined path) (map_of layouts ''LAYOUT'')) (\<lambda>keys.
    if keys = [] then Inl (EmptyLayout path) else Inr keys))"

definition resolve_profile_path :: "('p, 'k) viewer_files \<Rightarrow> 'p \<Rightarrow> 'p \<Rightarrow> 'p" where
  "resolve_profile_path fs base path = (if vf_absolute fs path then path else vf_join fs base path)"

definition layer_position :: "key_layer list \<Rightarrow> string \<Rightarrow> nat option" where
  "layer_position ls name = find (\<lambda>i. kl_name (ls ! i) = name) [0..<length ls]"

definition visible_set ::
  "'p profile_config \<Rightarrow> key_layer list \<Rightarrow> ('p load_error, nat set option) res" where
  "visible_set config ls =
    (case pc_visible_layers config of
       None \<Rightarrow> Inr None
     | Some configured \<Rightarrow>
         bind_res (map_res (\<lambda>name. ok_or (UnknownVisibleLayer (pc_id config) name) (layer_position ls name)) configured)
           (\<lambda>indices. Inr (Some (set indices))))"

definition load_profile ::
  "('p, 'k) viewer_files \<Rightarrow> 'p \<Rightarrow> 'p profile_config \<Rightarrow> ('p load_error, keyboard_profile) res" where
  "load_profile fs base config =
    bind_res (load_layout fs (resolve_profile_path fs base (pc_info config))) (\<lambda>layout.
    bind_res (load_layers fs (resolve_profile_path fs base (pc_layers config)) (length layout)) (\<lambda>ls.
    bind_res (visible_set config ls) (\<lambda>visible.
    Inr \<lparr>kp_id = pc_id config, kp_name = pc_name config, kp_vid = normalize_hex_arg (pc_vid config),
         kp_pid = normalize_hex_arg (pc_pid config), kp_keys = length layout, kp_layers = ls,
         kp_current_layer = 0, kp_current_layer_hid = pc_current_layer_hid config,
         kp_visible_layers = visible\<rparr>)))"

definition load_profiles ::
  "('p, 'k) viewer_files \<Rightarrow> 'p viewer_args \<Rightarrow> ('p load_error, keyboard_profile list) res" where
  "load_profiles fs args =
    (if vf_exists fs (va_profiles args) then
       bind_res (map_err (FileError (va_profiles args)) (vf_profiles fs (va_profiles args))) (\<lambda>keyboards.
       let base = (case vf_parent fs (va_profiles args) of Some p \<Rightarrow> p | None \<Rightarrow> vf_dot fs)
       in map_res (load_profile fs base) keyboards)
     else
       bind_res (load_profile fs (vf_dot fs)
         \<lparr>pc_id = ''manual'', pc_name = ''Manual Keyboard'', pc_vid = va_vid args, pc_pid = va_pid args,
          pc_info = va_info args, pc_layers = va_keymap args, pc_current_layer_hid = True,
          pc_visible_layers = None\<rparr>) (\<lambda>profile. Inr [profile]))"

section \<open>What main does\<close>

text \<open>
  \<open>Start\<close> is the running overlay: its profiles, the events already in its queue, whether the
  device readers run, and whether the window starts visible.
\<close>

datatype viewer_run =
    PrintStatus
  | SendControl string
  | Start "keyboard_profile list" "app_event list" bool bool

text \<open>
  The world of one start: whether the submap suppresses activity now and whether another
  instance answers on the control socket.
\<close>

definition start_viewer ::
  "('p, 'k) viewer_files \<Rightarrow> bool \<Rightarrow> 'p viewer_args \<Rightarrow> ('p load_error, viewer_run) res" where
  "start_viewer fs running args =
    bind_res (load_profiles fs args) (\<lambda>profiles.
    case profiles of
      [] \<Rightarrow> Inl NoProfiles
    | first # others \<Rightarrow>
        let profiles = (case va_simulate_layer args of
              Some layer \<Rightarrow> first\<lparr>kp_current_layer := clamp_layer (unat layer) (kp_layers first)\<rparr> # others
            | None \<Rightarrow> profiles);
            activity = (if va_control args = Some CmdActivity then [Activity] else []);
            simulated = (case va_simulate_layer args of Some layer \<Rightarrow> [Layer 0 layer] | None \<Rightarrow> [])
        in if running then Inl AlreadyRunning
           else Inr (Start profiles (activity @ simulated) (va_simulate_layer args = None) (\<not> va_hidden args)))"

definition viewer_main ::
  "('p, 'k) viewer_files \<Rightarrow> bool \<Rightarrow> bool \<Rightarrow> 'p viewer_args \<Rightarrow> ('p load_error, viewer_run) res" where
  "viewer_main fs suppressed running args =
    (case va_control args of
       Some command \<Rightarrow>
         if command = CmdStatus then (if running then Inr PrintStatus else Inl NotRunning)
         else Inr (SendControl (if command = CmdActivity \<and> suppressed then ''hide'' else message command))
     | None \<Rightarrow>
         if \<not> va_hidden args \<and> running
         then Inr (SendControl (if suppressed then ''hide'' else ''activity''))
         else start_viewer fs running args)"

section \<open>Lemmas\<close>

lemma load_layers_ok:
  assumes "load_layers fs path key_count = Inr ls"
  shows "layers_shaped key_count ls"
proof -
  have "list_all (\<lambda>l. length (kl_keys l) = key_count) out" if "map_res (load_layer key_count) xs = Inr out" for xs out
    using that by (induction xs arbitrary: out)
      (auto simp: load_layer_def Let_def bind_res_eq_Inr split: prod.splits if_splits)
  then show ?thesis
    using assms by (auto simp: load_layers_def layers_shaped_def bind_res_eq_Inr split: if_splits)
qed

lemma load_profile_ok:
  assumes "load_profile fs base config = Inr p"
  shows "profile_ok p \<and> layers_shaped (kp_keys p) (kp_layers p) \<and> 0 < kp_keys p"
  using assms load_layers_ok
  by (fastforce simp: load_profile_def load_layout_def profile_ok_def layers_shaped_def bind_res_eq_Inr split: if_splits)

definition profile_drawable :: "keyboard_profile \<Rightarrow> bool" where
  "profile_drawable p \<longleftrightarrow> profile_ok p \<and> layers_shaped (kp_keys p) (kp_layers p)"

lemma load_profiles_ok:
  assumes "load_profiles fs args = Inr profiles"
  shows "list_all profile_drawable profiles"
proof -
  have "list_all profile_drawable out" if "map_res (load_profile fs base) xs = Inr out" for base xs out
    using that by (induction xs arbitrary: out) (auto simp: bind_res_eq_Inr profile_drawable_def dest!: load_profile_ok)
  then show ?thesis
    using assms by (auto simp: load_profiles_def Let_def bind_res_eq_Inr profile_drawable_def
        dest!: load_profile_ok split: if_splits)
qed

lemma start_viewer_ok:
  assumes "start_viewer fs running args = Inr (Start profiles queued watching visible)"
  shows "profiles \<noteq> [] \<and> list_all profile_drawable profiles"
proof -
  obtain loaded where loaded: "load_profiles fs args = Inr loaded"
    using assms by (cases "load_profiles fs args") (auto simp: start_viewer_def)
  with assms obtain first others where [simp]: "loaded = first # others"
    by (cases loaded) (auto simp: start_viewer_def)
  note l = loaded
  have "list_all profile_drawable (first # others)" using load_profiles_ok [OF l] by simp
  moreover have "clamp_layer n (kp_layers first) < length (kp_layers first)" if "profile_drawable first" for n
    using that by (auto simp: profile_drawable_def layers_shaped_def clamp_layer_def)
  ultimately show ?thesis
    using assms l by (auto simp: start_viewer_def Let_def profile_drawable_def profile_ok_def
        split: if_splits option.splits)
qed

section \<open>Properties\<close>

text \<open>
  Whatever is in the files, once \<open>main\<close> starts the overlay it never panics: after the
  queued events and any further events and timer ticks the state is well-formed, and drawing
  resolves one legend for every key of the shown layout.
\<close>
theorem started_viewer_draws:
  assumes "viewer_main fs suppressed running args = Inr (Start profiles queued watching visible)"
  shows "\<exists>st p bs. foldl ui_step (Some (initial_ui profiles visible submap)) (map (Event env) queued @ inputs) = Some st \<and>
    ui_ok st \<and> active st = Some p \<and> drawn_bindings upper p = Some bs \<and> length bs = kp_keys p"
proof -
  have "start_viewer fs running args = Inr (Start profiles queued watching visible)"
    using assms by (auto simp: viewer_main_def split: option.splits if_splits)
  from start_viewer_ok [OF this] show ?thesis
    by (intro drawing_total) (auto simp: list_all_iff profile_drawable_def)
qed

definition sample_files :: "(string, unit) viewer_files" where
  "sample_files = \<lparr>vf_exists = (\<lambda>_. False),
     vf_yaml = (\<lambda>_. Inr (YMapping [(YString ''layers'', YMapping
       [(YString ''Base'', YSequence [YString ''A'', YNull]), (YString ''Nav'', YSequence [YNumber ''1'', YString ''___''])])])),
     vf_info = (\<lambda>_. Inr [(''LAYOUT'', [(), ()])]), vf_profiles = (\<lambda>_. Inl []),
     vf_absolute = (\<lambda>_. True), vf_join = (\<lambda>a b. a @ ''/'' @ b), vf_parent = (\<lambda>_. None), vf_dot = ''.''\<rparr>"

definition sample_args :: "string viewer_args" where
  "sample_args = \<lparr>va_vid = DEFAULT_VID, va_pid = DEFAULT_PID, va_path = None, va_keymap = ''keymap.yaml'',
     va_info = ''info.json'', va_profiles = ''keyboards.json'', va_simulate_layer = None, va_control = None, va_hidden = True\<rparr>"

lemma sample_starts:
  "\<exists>profiles queued watching visible.
     viewer_main sample_files False False sample_args = Inr (Start profiles queued watching visible)"
  by (simp add: viewer_main_def start_viewer_def load_profiles_def load_profile_def load_layout_def load_layers_def
      load_layer_def visible_set_def sample_files_def sample_args_def resolve_profile_path_def yaml_get_def
      as_mapping_def as_sequence_def Let_def) blast

lemma started_viewer_draws_witness:
  "\<exists>profiles queued watching visible st p bs.
     viewer_main sample_files False False sample_args = Inr (Start profiles queued watching visible) \<and>
     foldl ui_step (Some (initial_ui profiles visible None)) (map (Event (quiet_env 0)) queued @ [Timer (quiet_env 1)]) = Some st \<and>
     ui_ok st \<and> active st = Some p \<and> drawn_bindings (\<lambda>s. s) p = Some bs \<and> length bs = kp_keys p"
proof -
  obtain profiles queued watching visible where
    run: "viewer_main sample_files False False sample_args = Inr (Start profiles queued watching visible)"
    using sample_starts by blast
  from started_viewer_draws [OF run, of None "quiet_env 0" "[Timer (quiet_env 1)]" "\<lambda>s. s"] run show ?thesis by blast
qed

lemma find_upt_Some:
  "find P [0..<n] = Some i \<Longrightarrow> i < n \<and> P i"
  by (auto simp: find_Some_iff)

lemma layer_position_distinct:
  assumes "distinct (map kl_name ls)" "layer_position ls name = Some i" "j < length ls"
  shows "j = i \<longleftrightarrow> kl_name (ls ! j) = name"
  using find_upt_Some [of "\<lambda>i. kl_name (ls ! i) = name" "length ls" i] assms
    nth_eq_iff_index_eq [OF assms(1), of j i]
  by (auto simp: layer_position_def)

lemma map_res_positions:
  assumes "map_res (\<lambda>name. ok_or (err name) (layer_position ls name)) names = Inr indices"
    and "distinct (map kl_name ls)" "j < length ls"
  shows "j \<in> set indices \<longleftrightarrow> kl_name (ls ! j) \<in> set names"
  using assms(1)
proof (induction names arbitrary: indices)
  case (Cons n ns)
  then show ?case using layer_position_distinct [OF assms(2) _ assms(3)] by (cases "layer_position ls n") auto
qed simp

text \<open>
  The overlay is enabled on exactly the layers the profile names. For a loaded profile whose
  layers have distinct names, with any of its layers current, the overlay may be shown if
  and only if the profile restricts nothing or lists that layer's name.
\<close>
theorem visible_layers_by_name:
  fixes fs :: "('p, 'k) viewer_files"
  assumes "load_profile fs base config = Inr p" "distinct (map kl_name (kp_layers p))" "i < length (kp_layers p)"
  shows "overlay_is_enabled_for_current_layer (p\<lparr>kp_current_layer := i\<rparr>) \<longleftrightarrow>
    (case pc_visible_layers config of None \<Rightarrow> True | Some names \<Rightarrow> kl_name (kp_layers p ! i) \<in> set names)"
proof -
  obtain visible where "visible_set config (kp_layers p) = Inr visible" "kp_visible_layers p = visible"
    using assms(1) by (auto simp: load_profile_def)
  note vis = this
  show ?thesis
  proof (cases "pc_visible_layers config")
    case None
    then show ?thesis using vis by (auto simp: visible_set_def overlay_is_enabled_for_current_layer_def)
  next
    case (Some names)
    then obtain indices where idx: "map_res (\<lambda>name. ok_or (UnknownVisibleLayer (pc_id config) name :: 'p load_error)
        (layer_position (kp_layers p) name)) names = Inr indices" "Some (set indices) = kp_visible_layers p"
      using vis by (auto simp: visible_set_def)
    from map_res_positions [OF idx(1) assms(2,3)] show ?thesis
      by (simp add: overlay_is_enabled_for_current_layer_def idx(2) [symmetric] Some)
  qed
qed

definition sample_config :: "string profile_config" where
  "sample_config = \<lparr>pc_id = ''k'', pc_name = ''K'', pc_vid = ''0xFEED'', pc_pid = ''1212'', pc_info = ''info.json'',
     pc_layers = ''keymap.yaml'', pc_current_layer_hid = True, pc_visible_layers = Some [''Nav'']\<rparr>"

lemma visible_layers_by_name_witness:
  "\<exists>p. load_profile sample_files ''.'' sample_config = Inr p \<and>
    (overlay_is_enabled_for_current_layer (p\<lparr>kp_current_layer := 1\<rparr>) \<longleftrightarrow>
     (case pc_visible_layers sample_config of None \<Rightarrow> True | Some names \<Rightarrow> kl_name (kp_layers p ! 1) \<in> set names))"
proof -
  have "(case load_profile sample_files ''.'' sample_config of
      Inr p \<Rightarrow> map kl_name (kp_layers p) = [''Base'', ''Nav''] | Inl _ \<Rightarrow> False)"
    by code_simp
  then obtain p where p: "load_profile sample_files ''.'' sample_config = Inr p"
    and names: "map kl_name (kp_layers p) = [''Base'', ''Nav'']" by (auto split: sum.splits)
  from arg_cong [OF names, of length] have "length (kp_layers p) = 2" by simp
  with visible_layers_by_name [OF p, of 1] p names show ?thesis by simp
qed

end
