(* ===== verification/Viewer_Sockets.thy ===== *)
theory Viewer_Sockets
  imports Viewer_Config
begin

text \<open>
  The overlay's long-running parts of \<open>pkgs/keyboard-layer-viewer/source/src/main.rs\<close>: the
  control socket that makes one process the running instance, the clients that talk to it,
  the connection to Hyprland that is opened again when it is lost, and the loop that looks
  for input devices. Several processes that start at once are a step relation over the
  system calls of \<open>start_control_socket\<close>.
\<close>

section \<open>Paths\<close>

definition control_socket_path ::
  "(string \<Rightarrow> string option) \<Rightarrow> (string \<Rightarrow> string \<Rightarrow> string) \<Rightarrow> (string, string) res" where
  "control_socket_path var join_path =
     bind_res (ok_or ''XDG_RUNTIME_DIR is not set'' (var ''XDG_RUNTIME_DIR'')) (\<lambda>runtime.
     Inr (join_path runtime ''keyboard-layer-viewer.sock''))"

definition hyprland_socket2_path ::
  "(string \<Rightarrow> string option) \<Rightarrow> (string \<Rightarrow> string \<Rightarrow> string) \<Rightarrow> string option" where
  "hyprland_socket2_path var join_path =
     Option.bind (var ''XDG_RUNTIME_DIR'') (\<lambda>runtime.
     Option.bind (var ''HYPRLAND_INSTANCE_SIGNATURE'') (\<lambda>signature.
     Some (join_path (join_path (join_path runtime ''hypr'') signature) ''.socket2.sock'')))"

text \<open>
  The packaged files: an override from the environment, the share directory two levels above
  the program, or the system profile. \<open>exe\<close> is \<open>current_exe\<close>.
\<close>

definition packaged_file ::
  "(string \<Rightarrow> 'p option) \<Rightarrow> 'p option \<Rightarrow> ('p \<Rightarrow> 'p option) \<Rightarrow> ('p \<Rightarrow> string \<Rightarrow> 'p) \<Rightarrow> (string \<Rightarrow> 'p) \<Rightarrow>
   string \<Rightarrow> string \<Rightarrow> 'p" where
  "packaged_file var exe parent join_path path override share =
     (case var override of
        Some given \<Rightarrow> given
      | None \<Rightarrow>
         (case Option.bind (Option.bind exe parent) parent of
            Some prefix \<Rightarrow> join_path prefix share
          | None \<Rightarrow> path (''/run/current-system/sw/'' @ share)))"

definition packaged_keymap_path where
  "packaged_keymap_path var exe parent join_path path =
     packaged_file var exe parent join_path path ''KEYBOARD_LAYER_VIEWER_KEYMAP''
       ''share/keyboard-layer-viewer/keymap/keymap.yaml''"

definition packaged_info_path where
  "packaged_info_path var exe parent join_path path =
     packaged_file var exe parent join_path path ''KEYBOARD_LAYER_VIEWER_INFO_JSON''
       ''share/keyboard-layer-viewer/keymap/info.json''"

definition packaged_profiles_path where
  "packaged_profiles_path var exe parent join_path path =
     packaged_file var exe parent join_path path ''KEYBOARD_LAYER_VIEWER_PROFILES''
       ''share/keyboard-layer-viewer/keyboards.json''"

section \<open>Starting the control socket\<close>

datatype unlink_error = NoSuchFile | UnlinkFailed

datatype socket_error = InstanceRunning | CouldNotRemove string | CouldNotBind string

text \<open>The calls of the standard library on Unix sockets, for one process.\<close>

record 'w socket_calls =
  sc_connect :: "string \<Rightarrow> ('w, unit, unit) io"
  sc_unlink :: "string \<Rightarrow> ('w, unlink_error, unit) io"
  sc_bind :: "string \<Rightarrow> ('w, unit, unit) io"

text \<open>The guard it returns is the path that dropping the guard removes.\<close>

definition start_control_socket :: "'w socket_calls \<Rightarrow> string \<Rightarrow> ('w, socket_error, string) io" where
  "start_control_socket C path =
     io_bind (io_try (sc_connect C path)) (\<lambda>connected.
     if is_ok connected then io_fail InstanceRunning
     else
       io_bind (io_try (sc_unlink C path)) (\<lambda>removed.
       case removed of
         Inl UnlinkFailed \<Rightarrow> io_fail (CouldNotRemove path)
       | _ \<Rightarrow>
           io_bind (io_map_err (\<lambda>_. CouldNotBind path) (sc_bind C path)) (\<lambda>_.
           io_return path)))"

definition drop_guard :: "'w socket_calls \<Rightarrow> string \<Rightarrow> ('w, socket_error, unit) io" where
  "drop_guard C guard = io_bind (io_try (sc_unlink C guard)) (\<lambda>_. io_return ())"

section \<open>The sockets of a machine\<close>

text \<open>
  A name belongs to the socket bound by a process, to a plain file (a socket nobody has, for
  example of a process of an earlier boot) or to a directory. A process listens from its
  \<open>bind\<close> until it ends, whatever becomes of the name.
\<close>

datatype entry = Bound nat | Stale | Directory

record sockets =
  so_names :: "string \<Rightarrow> entry option"
  so_listening :: "nat set"

definition answering :: "string \<Rightarrow> sockets \<Rightarrow> nat option" where
  "answering path w =
     (case so_names w path of
        Some (Bound i) \<Rightarrow> if i \<in> so_listening w then Some i else None
      | _ \<Rightarrow> None)"

definition connect_call :: "string \<Rightarrow> (sockets, unit, unit) io" where
  "connect_call path = (\<lambda>w. Some (if answering path w = None then Inl () else Inr (), w))"

definition unlink_call :: "string \<Rightarrow> (sockets, unlink_error, unit) io" where
  "unlink_call path = (\<lambda>w. Some
     (case so_names w path of
        None \<Rightarrow> (Inl NoSuchFile, w)
      | Some Directory \<Rightarrow> (Inl UnlinkFailed, w)
      | Some _ \<Rightarrow> (Inr (), w\<lparr>so_names := (so_names w)(path := None)\<rparr>)))"

definition bind_call :: "nat \<Rightarrow> string \<Rightarrow> (sockets, unit, unit) io" where
  "bind_call i path = (\<lambda>w. Some
     (if so_names w path = None
      then (Inr (), \<lparr>so_names = (so_names w)(path \<mapsto> Bound i), so_listening = insert i (so_listening w)\<rparr>)
      else (Inl (), w)))"

definition process_calls :: "nat \<Rightarrow> sockets socket_calls" where
  "process_calls i = \<lparr>sc_connect = connect_call, sc_unlink = unlink_call, sc_bind = bind_call i\<rparr>"

section \<open>Several processes\<close>

text \<open>Where a process is: before its first call, between two calls, after the last one.\<close>

datatype progress =
    Begun
  | Checked
  | Removed
  | Serving
  | Failed socket_error
  | Closing
  | Gone

text \<open>The next system call of a process inside \<open>start_control_socket\<close>.\<close>

fun start_call :: "string \<Rightarrow> nat \<Rightarrow> progress \<times> sockets \<Rightarrow> progress \<times> sockets" where
  "start_call path i (Begun, w) =
     (if answering path w = None then Checked else Failed InstanceRunning, w)"
| "start_call path i (Checked, w) =
     (case so_names w path of
        Some Directory \<Rightarrow> (Failed (CouldNotRemove path), w)
      | Some _ \<Rightarrow> (Removed, w\<lparr>so_names := (so_names w)(path := None)\<rparr>)
      | None \<Rightarrow> (Removed, w))"
| "start_call path i (Removed, w) =
     (if so_names w path = None
      then (Serving, \<lparr>so_names = (so_names w)(path \<mapsto> Bound i), so_listening = insert i (so_listening w)\<rparr>)
      else (Failed (CouldNotBind path), w))"
| "start_call path i (p, w) = (p, w)"

record machine =
  mc_sockets :: sockets
  mc_procs :: "nat \<Rightarrow> progress"

definition set_proc :: "nat \<Rightarrow> progress \<times> sockets \<Rightarrow> machine \<Rightarrow> machine" where
  "set_proc i = (\<lambda>(p, w) m. \<lparr>mc_sockets = w, mc_procs = (mc_procs m)(i := p)\<rparr>)"

definition stop_listening :: "nat \<Rightarrow> sockets \<Rightarrow> sockets" where
  "stop_listening i w = w\<lparr>so_listening := so_listening w - {i}\<rparr>"

text \<open>
  Any process may make its next call, leave \<open>main\<close> (which drops the guard and later ends the
  process), or be killed, which drops nothing.
\<close>

inductive machine_step :: "string \<Rightarrow> machine \<Rightarrow> machine \<Rightarrow> bool" for path where
  Call: "mc_procs m i \<in> {Begun, Checked, Removed} \<Longrightarrow>
     machine_step path m (set_proc i (start_call path i (mc_procs m i, mc_sockets m)) m)"
| Leave: "mc_procs m i = Serving \<Longrightarrow> drop_guard (process_calls i) path (mc_sockets m) = Some (r, w) \<Longrightarrow>
     machine_step path m (set_proc i (Closing, w) m)"
| Exit: "mc_procs m i = Closing \<Longrightarrow> machine_step path m (set_proc i (Gone, stop_listening i (mc_sockets m)) m)"
| Kill: "mc_procs m i \<noteq> Gone \<Longrightarrow> machine_step path m (set_proc i (Gone, stop_listening i (mc_sockets m)) m)"

definition start_machine :: "(string \<Rightarrow> entry option) \<Rightarrow> machine" where
  "start_machine names = \<lparr>mc_sockets = \<lparr>so_names = names, so_listening = {}\<rparr>, mc_procs = (\<lambda>_. Begun)\<rparr>"

text \<open>A process between its check and its \<open>bind\<close>.\<close>

definition starting :: "machine \<Rightarrow> nat \<Rightarrow> bool" where
  "starting m i \<longleftrightarrow> mc_procs m i = Checked \<or> mc_procs m i = Removed"

definition lone_start :: "machine \<Rightarrow> bool" where
  "lone_start m \<longleftrightarrow> (\<forall>i j. starting m i \<longrightarrow> starting m j \<longrightarrow> i = j)"

text \<open>A run in which at most one process at a time is between its check and its \<open>bind\<close>.\<close>

definition lone_step :: "string \<Rightarrow> machine \<Rightarrow> machine \<Rightarrow> bool" where
  "lone_step path m m' \<longleftrightarrow> machine_step path m m' \<and> lone_start m'"

inductive_cases machine_stepE: "machine_step path m m'"

section \<open>Lemmas\<close>

text \<open>The three calls of \<open>start_call\<close>, made without a pause, are the function.\<close>

fun start_result :: "string \<Rightarrow> progress \<Rightarrow> (socket_error, string) res option" where
  "start_result path Serving = Some (Inr path)"
| "start_result path (Failed e) = Some (Inl e)"
| "start_result path p = None"

lemma start_calls_refine:
  assumes "start_control_socket (process_calls i) path w = Some (r, w')"
  shows "\<exists>p. (start_call path i ^^ 3) (Begun, w) = (p, w') \<and> start_result path p = Some r"
  using assms
  by (auto simp: start_control_socket_def process_calls_def connect_call_def unlink_call_def bind_call_def
      answering_def io_bind_def io_try_def io_map_err_def io_return_def io_fail_def numeral_3_eq_3
      split: if_splits option.splits entry.splits)

lemma answering_stop: "answering path (stop_listening i w) = (if answering path w = Some i then None else answering path w)"
  by (auto simp: answering_def stop_listening_def split: option.splits entry.splits)

lemma drop_guard_calls:
  assumes "drop_guard (process_calls i) path w = Some (r, w')"
  shows "answering path w' = None \<and> so_listening w' = so_listening w"
  using assms
  by (auto simp: drop_guard_def process_calls_def unlink_call_def io_bind_def io_try_def io_return_def answering_def
      split: option.splits entry.splits)

lemma set_proc_simps [simp]:
  "mc_sockets (set_proc i (p, w) m) = w"
  "mc_procs (set_proc i (p, w) m) j = (if j = i then p else mc_procs m j)"
  by (simp_all add: set_proc_def)

text \<open>
  The invariant of a run without overlapping starts: who serves is who answers at the path,
  nobody serves while a process is starting, and only processes that serve or close listen.
\<close>

definition one_instance :: "string \<Rightarrow> machine \<Rightarrow> bool" where
  "one_instance path m \<longleftrightarrow> lone_start m \<and>
     (\<forall>i. mc_procs m i = Serving \<longleftrightarrow> answering path (mc_sockets m) = Some i) \<and>
     (\<forall>i. starting m i \<longrightarrow> answering path (mc_sockets m) = None) \<and>
     (\<forall>i \<in> so_listening (mc_sockets m). mc_procs m i = Serving \<or> mc_procs m i = Closing)"

lemma one_instance_start: "one_instance path (start_machine names)"
  by (auto simp: one_instance_def start_machine_def lone_start_def starting_def answering_def
      split: option.splits entry.splits)

lemma call_one_instance:
  assumes inv: "one_instance path m" and p: "mc_procs m i \<in> {Begun, Checked, Removed}"
    and m': "m' = set_proc i (start_call path i (mc_procs m i, mc_sockets m)) m" and lone: "lone_start m'"
  shows "one_instance path m'"
proof -
  note defs = one_instance_def starting_def
  have idle: "answering path (mc_sockets m) \<noteq> Some i" "i \<notin> so_listening (mc_sockets m)"
    using inv p unfolding one_instance_def by (metis insertE progress.distinct singletonD)+
  consider (begun) "mc_procs m i = Begun" | (checked) "mc_procs m i = Checked" | (removed) "mc_procs m i = Removed"
    using p by auto
  then show ?thesis
  proof cases
    case begun
    then show ?thesis using inv lone idle unfolding m' defs by (auto split: if_splits)
  next
    case checked
    then have none: "answering path (mc_sockets m) = None" using inv by (simp add: defs)
    then show ?thesis using inv lone checked idle unfolding m' defs
      by (auto simp: answering_def split: option.splits entry.splits if_splits)
  next
    case removed
    then have none: "answering path (mc_sockets m) = None" using inv by (simp add: defs)
    have others: "\<not> starting m j" if "j \<noteq> i" for j
      using inv removed that unfolding one_instance_def lone_start_def starting_def by blast
    show ?thesis using inv lone removed none others idle unfolding m' defs
      by (auto simp: answering_def split: option.splits entry.splits if_splits)
  qed
qed

lemma end_one_instance:
  assumes inv: "one_instance path m" and lone: "lone_start (set_proc i (Gone, stop_listening i (mc_sockets m)) m)"
  shows "one_instance path (set_proc i (Gone, stop_listening i (mc_sockets m)) m)"
  using inv lone unfolding one_instance_def starting_def
  by (auto simp: answering_stop) (auto simp: stop_listening_def)

lemma leave_one_instance:
  assumes inv: "one_instance path m" and serving: "mc_procs m i = Serving"
    and drop: "drop_guard (process_calls i) path (mc_sockets m) = Some (r, w)"
    and lone: "lone_start (set_proc i (Closing, w) m)"
  shows "one_instance path (set_proc i (Closing, w) m)"
  using inv lone serving drop_guard_calls [OF drop] unfolding one_instance_def starting_def by auto

text \<open>A property that every step keeps holds in every state that can be reached.\<close>

locale step_invariant =
  fixes step :: "'s \<Rightarrow> 's \<Rightarrow> bool" and inv :: "'s \<Rightarrow> bool"
  assumes kept: "inv s \<Longrightarrow> step s s' \<Longrightarrow> inv s'"
begin

lemma reached: "step\<^sup>*\<^sup>* s s' \<Longrightarrow> inv s \<Longrightarrow> inv s'"
  by (induction rule: rtranclp_induct) (auto intro: kept)

end

interpretation lone: step_invariant "lone_step path" "one_instance path" for path
proof
  fix m m' assume inv: "one_instance path m" and step: "lone_step path m m'"
  then have "machine_step path m m'" and l: "lone_start m'" by (simp_all add: lone_step_def)
  then show "one_instance path m'"
    by (cases rule: machine_stepE) (use inv l in \<open>auto intro: call_one_instance end_one_instance leave_one_instance\<close>)
qed

section \<open>Clients\<close>

text \<open>
  \<open>exchange\<close> connects to a path, writes the bytes, closes the writing side and reads to the
  end.
\<close>

definition send_status_control ::
  "(string, string) res \<Rightarrow> (string \<Rightarrow> byte list \<Rightarrow> (string, byte list) res) \<Rightarrow> (string, string) res" where
  "send_status_control socket_path exchange =
     bind_res socket_path (\<lambda>path.
     bind_res (exchange path (as_bytes (''status'' @ [CHR 0x0A]))) (\<lambda>response.
     ok_or ''stream did not contain valid UTF-8'' (from_utf8 response)))"

text \<open>
  What a connection gets from a running overlay whose event loop answers in time: the events
  are handled in order, and each status request is answered on the stream. \<open>render\<close> is the
  printing of the status by \<open>serde_json\<close>.
\<close>

definition serve_connection ::
  "(ui_status \<Rightarrow> string) \<Rightarrow> surroundings \<Rightarrow> byte list \<Rightarrow> ui_state \<Rightarrow> (byte list \<times> ui_state) option" where
  "serve_connection render env bytes st =
     map_option (\<lambda>st'. (concat (map (as_bytes \<circ> render) (drop (length (ui_replies st)) (ui_replies st'))), st'))
       (foldl ui_step (Some st) (map (Event env) (handle_control_stream bytes)))"

section \<open>Hyprland's event socket\<close>

text \<open>A connection that was lost is opened again, with an empty buffer; a failed attempt waits.\<close>

datatype connection = NotConnected | Connected "read_result list"

datatype hyprland_action = SendEvent app_event | WaitOneSecond

fun hyprland_stream :: "string option \<Rightarrow> byte list \<Rightarrow> read_result list \<Rightarrow> app_event list" where
  "hyprland_stream focused pending [] = []"
| "hyprland_stream focused pending (Bytes chunk # rest) =
     (if chunk = [] then []
      else
        let (pending', events) = hyprland_read focused (pending, []) chunk
        in events @ hyprland_stream focused pending' rest)"
| "hyprland_stream focused pending (Interrupted # rest) = hyprland_stream focused pending rest"
| "hyprland_stream focused pending (ReadError # rest) = []"

fun hyprland_connection :: "string option \<Rightarrow> connection \<Rightarrow> hyprland_action list" where
  "hyprland_connection focused NotConnected = [WaitOneSecond]"
| "hyprland_connection focused (Connected reads) = map SendEvent (hyprland_stream focused [] reads)"

definition watch_hyprland_monitors ::
  "string option \<Rightarrow> string option \<Rightarrow> connection list \<Rightarrow> hyprland_action list" where
  "watch_hyprland_monitors path focused attempts =
     (case path of
        None \<Rightarrow> []
      | Some _ \<Rightarrow> concat (map (hyprland_connection focused) attempts))"

text \<open>The bytes of a connection: those of its chunks up to the end or an error.\<close>

fun received :: "read_result list \<Rightarrow> byte list" where
  "received [] = []"
| "received (Bytes chunk # rest) = (if chunk = [] then [] else chunk @ received rest)"
| "received (Interrupted # rest) = received rest"
| "received (ReadError # rest) = []"

lemma hyprland_read_one:
  "hyprland_read focused (pending, []) chunk =
     (let (ls, left) = drain_lines (pending @ chunk) in (left, List.map_filter (line_event focused) ls))"
  by (simp add: hyprland_read_def split: prod.splits)

lemma drain_left: "drain_lines b = (ls, left) \<Longrightarrow> drain_lines left = ([], left)"
  using drain_append [of b "[]"] by (auto simp: Let_def split: prod.splits)

lemma hyprland_stream_lines:
  assumes "drain_lines pending = ([], pending)"
  shows "hyprland_stream focused pending reads =
    List.map_filter (line_event focused) (fst (drain_lines (pending @ received reads)))"
  using assms
proof (induction focused pending reads rule: hyprland_stream.induct)
  case (1 focused pending)
  then show ?case by (simp add: map_filter_def)
next
  case (2 focused pending chunk rest)
  show ?case
  proof (cases "chunk = []")
    case True
    then show ?thesis using "2.prems" by (simp add: map_filter_def)
  next
    case False
    obtain ls left where d: "drain_lines (pending @ chunk) = (ls, left)" by fastforce
    have r: "hyprland_read focused (pending, []) chunk = (left, List.map_filter (line_event focused) ls)"
      by (simp add: hyprland_read_one d)
    from "2.IH" [OF False r [symmetric] refl drain_left [OF d]] show ?thesis
      using False drain_append [of "pending @ chunk" "received rest"]
      by (simp add: r d Let_def map_filter_def split: prod.splits)
  qed
next
  case (4 focused pending rest)
  then show ?case by (simp add: map_filter_def)
qed simp

section \<open>Input devices\<close>

text \<open>
  One round of \<open>watch_input_devices\<close>: the readers that ended since the last one have taken
  their keys out, and every keyboard found without a reader gets one.
\<close>

record input_round =
  ir_ended :: "(nat \<times> string) list"
  ir_read_dir :: "string \<Rightarrow> input_entry list option"
  ir_read :: "string \<Rightarrow> string option"

definition input_event_paths_here :: "input_round \<Rightarrow> keyboard_profile list \<Rightarrow> (nat \<times> string) list" where
  "input_event_paths_here world profiles =
     input_event_paths (ir_read_dir world ''/sys/class/input'')
       (\<lambda>name. ir_read world (''/run/udev/data/'' @ name)) profiles"

definition watch_input_round :: "keyboard_profile list \<Rightarrow> watcher \<Rightarrow> input_round \<Rightarrow> watcher" where
  "watch_input_round profiles w world =
     watcher_step (foldl watcher_step w (map ReaderEnded (ir_ended world)))
       (Round (input_event_paths_here world profiles))"

definition watch_input_devices :: "keyboard_profile list \<Rightarrow> input_round list \<Rightarrow> watcher" where
  "watch_input_devices profiles rounds =
     foldl (watch_input_round profiles) \<lparr>w_keys = {}, w_readers = []\<rparr> rounds"

interpretation input_watch: event_machine "watch_input_round profiles" watcher_ok for profiles
  by unfold_locales (simp add: watch_input_round_def readers.step_inv readers.run_inv del: watcher_step.simps)

lemma round_finds_all:
  "reader_key ` set found \<subseteq> w_keys (watcher_step w (Round found))"
  using spawn_readers_spec [of "w_keys w" found] by (cases "spawn_readers (w_keys w) found") auto

lemma watcher_covers:
  assumes "watcher_ok w" "reader_key ` set found \<subseteq> w_keys w"
  shows "distinct (map reader_key (w_readers w)) \<and>
    (\<forall>f \<in> set found. \<exists>reader \<in> set (w_readers w). reader_key reader = reader_key f)"
  using assms by (auto simp: watcher_ok_def) (metis image_iff image_eqI subsetD)

section \<open>Properties\<close>

text \<open>
  C24: The control socket lets one overlay run at a time. In every run in which no two
  processes are between their check and their \<open>bind\<close> together, whatever else interleaves and
  whoever is killed, at most one process serves, connections at the path reach it, and a
  start by any other process is refused. When nobody serves and the path is not a directory
  a start succeeds and is the one reached, so a socket left behind by a killed overlay
  never stands in the way.
\<close>
theorem single_instance:
  assumes "(lone_step path)\<^sup>*\<^sup>* (start_machine names) m"
  shows "(mc_procs m i = Serving \<longrightarrow> (mc_procs m j = Serving \<longleftrightarrow> j = i) \<and> answering path (mc_sockets m) = Some i \<and>
      start_control_socket (process_calls k) path (mc_sockets m) = Some (Inl InstanceRunning, mc_sockets m)) \<and>
    ((\<forall>j. mc_procs m j \<noteq> Serving) \<and> so_names (mc_sockets m) path \<noteq> Some Directory \<longrightarrow>
      (\<exists>w. start_control_socket (process_calls k) path (mc_sockets m) = Some (Inr path, w) \<and>
         answering path w = Some k))"
proof -
  let ?w = "mc_sockets m"
  have inv: "one_instance path m"
    using lone.reached [OF assms one_instance_start] .
  then have serving: "mc_procs m n = Serving \<longleftrightarrow> answering path ?w = Some n" for n
    by (simp add: one_instance_def)
  have refused: "start_control_socket (process_calls k) path ?w = Some (Inl InstanceRunning, ?w)"
    if "answering path ?w = Some i"
    using that by (simp add: start_control_socket_def process_calls_def connect_call_def io_simps)
  have started: "\<exists>w. start_control_socket (process_calls k) path ?w = Some (Inr path, w) \<and> answering path w = Some k"
    if "answering path ?w = None" "so_names ?w path \<noteq> Some Directory"
    using that by (cases "so_names ?w path"; cases "the (so_names ?w path)")
      (simp_all add: start_control_socket_def process_calls_def connect_call_def unlink_call_def bind_call_def
        answering_def io_simps)
  show ?thesis
    using serving refused started by (cases "answering path ?w") auto
qed

text \<open>
  Two overlays that are started at the same time can both run: the second one removes the
  first one's socket between the first one's \<open>bind\<close> and its own. When the first one then
  ends, its guard removes the name of the second, which keeps running but can no longer be
  reached.
\<close>
theorem concurrent_starts_race:
  "\<exists>m m'. (machine_step path)\<^sup>*\<^sup>* (start_machine (\<lambda>_. None)) m \<and>
     mc_procs m 0 = Serving \<and> mc_procs m 1 = Serving \<and> answering path (mc_sockets m) = Some 1 \<and>
     (machine_step path)\<^sup>*\<^sup>* m m' \<and> mc_procs m' 1 = Serving \<and> answering path (mc_sockets m') = None"
proof -
  have call: "(machine_step path)\<^sup>*\<^sup>* s (set_proc i q m)"
    if "(machine_step path)\<^sup>*\<^sup>* s m" "mc_procs m i = p" "p \<in> {Begun, Checked, Removed}"
      "start_call path i (p, mc_sockets m) = q" for s m i p q
    using that machine_step.Call [of m i path] by (auto intro: rtranclp.rtrancl_into_rtrancl)
  let ?s = "start_machine (\<lambda>_. None)" and ?none = "\<lparr>so_names = (\<lambda>_. None), so_listening = {}\<rparr> :: sockets"
  let ?m1 = "set_proc 0 (Checked, ?none) ?s" let ?m2 = "set_proc 1 (Checked, ?none) ?m1"
  let ?m3 = "set_proc 0 (Removed, ?none) ?m2"
  let ?w4 = "\<lparr>so_names = [path \<mapsto> Bound 0], so_listening = {0}\<rparr>" let ?m4 = "set_proc 0 (Serving, ?w4) ?m3"
  let ?w5 = "?w4\<lparr>so_names := (\<lambda>_. None)\<rparr>" let ?m5 = "set_proc 1 (Removed, ?w5) ?m4"
  let ?w6 = "\<lparr>so_names = [path \<mapsto> Bound 1], so_listening = {1, 0}\<rparr>" let ?m6 = "set_proc 1 (Serving, ?w6) ?m5"
  have "(machine_step path)\<^sup>*\<^sup>* ?s ?m1" by (rule call) (auto simp: start_machine_def answering_def)
  then have "(machine_step path)\<^sup>*\<^sup>* ?s ?m2" by (rule call) (auto simp: start_machine_def answering_def)
  then have "(machine_step path)\<^sup>*\<^sup>* ?s ?m3" by (rule call) auto
  then have "(machine_step path)\<^sup>*\<^sup>* ?s ?m4" by (rule call) auto
  then have "(machine_step path)\<^sup>*\<^sup>* ?s ?m5" by (rule call) (auto simp: fun_upd_idem)
  then have six: "(machine_step path)\<^sup>*\<^sup>* ?s ?m6" by (rule call) auto
  let ?m7 = "set_proc 0 (Closing, ?w6\<lparr>so_names := (\<lambda>_. None)\<rparr>) ?m6"
  have seven: "machine_step path ?m6 ?m7"
    by (rule machine_step.Leave [where r = "Inr ()"])
      (auto simp: drop_guard_def process_calls_def unlink_call_def io_simps)
  show ?thesis
    using six r_into_rtranclp [of "machine_step path", OF seven]
    by (intro exI [of _ ?m6] exI [of _ ?m7] conjI) (simp_all only:, simp_all add: answering_def)
qed

lemma single_instance_witness:
  "\<exists>m :: machine. mc_procs m 0 = Serving \<and> answering ''s'' (mc_sockets m) = Some 0 \<and>
     start_control_socket (process_calls 1) ''s'' (mc_sockets m) = Some (Inl InstanceRunning, mc_sockets m)"
proof -
  have call: "(lone_step path)\<^sup>*\<^sup>* s (set_proc i q m)"
    if "(lone_step path)\<^sup>*\<^sup>* s m" "mc_procs m i = p" "p \<in> {Begun, Checked, Removed}"
      "start_call path i (p, mc_sockets m) = q" "lone_start (set_proc i q m)" for path s m i p q
    using that machine_step.Call [of m i path] by (auto simp: lone_step_def intro: rtranclp.rtrancl_into_rtrancl)
  let ?s = "start_machine [''s'' \<mapsto> Stale]"
  let ?m1 = "set_proc 0 (Checked, mc_sockets ?s) ?s"
  let ?m2 = "set_proc 0 (Removed, \<lparr>so_names = (\<lambda>_. None), so_listening = {}\<rparr>) ?m1"
  let ?m3 = "set_proc 0 (Serving, \<lparr>so_names = [''s'' \<mapsto> Bound 0], so_listening = {0}\<rparr>) ?m2"
  have "(lone_step ''s'')\<^sup>*\<^sup>* ?s ?m1"
    by (rule call) (auto simp: start_machine_def answering_def lone_start_def starting_def)
  then have "(lone_step ''s'')\<^sup>*\<^sup>* ?s ?m2"
    by (rule call) (auto simp: start_machine_def lone_start_def starting_def)
  then have "(lone_step ''s'')\<^sup>*\<^sup>* ?s ?m3"
    by (rule call) (auto simp: start_machine_def lone_start_def starting_def)
  moreover have "mc_procs ?m3 0 = Serving" by simp
  ultimately obtain m where "(lone_step ''s'')\<^sup>*\<^sup>* ?s m" "mc_procs m 0 = Serving" by blast
  with single_instance [OF this(1), of 0 0 1] show ?thesis by blast
qed

text \<open>
  C31: Over all the connections to Hyprland, the events sent are those of the complete lines
  that each connection delivered, in order, however its reads cut them; the incomplete last
  line of a connection that was lost is dropped, never joined to the first line of the next
  one, and every failed attempt waits before the next.
\<close>
theorem hyprland_reconnects:
  assumes "list_all2 (\<lambda>attempt content. case content of
       None \<Rightarrow> attempt = NotConnected
     | Some (ls, partial) \<Rightarrow> list_all (\<lambda>l. 0x0a \<notin> set l) ls \<and> 0x0a \<notin> set partial \<and>
         (\<exists>reads. attempt = Connected reads \<and> received reads = concat (map (\<lambda>l. l @ [0x0a]) ls) @ partial)) attempts contents"
  shows "watch_hyprland_monitors (Some socket) focused attempts =
    concat (map (\<lambda>content. case content of
       None \<Rightarrow> [WaitOneSecond]
     | Some (ls, partial) \<Rightarrow>
         map SendEvent (List.map_filter (line_event focused) (map (\<lambda>l. l @ [0x0a]) ls))) contents)"
  unfolding watch_hyprland_monitors_def option.case using assms
proof (induction rule: list_all2_induct)
  case (Cons attempt attempts content contents)
  have "drain_lines ([] :: byte list) = ([], [])" by (simp add: drain_none)
  from hyprland_stream_lines [OF this] Cons show ?case
    by (auto simp: drain_terminated split: option.splits)
qed simp

lemma hyprland_reconnects_witness:
  "watch_hyprland_monitors (Some ''socket'') None
     [Connected [Bytes (as_bytes ''submap>>ga''), Interrupted, Bytes (as_bytes ''me'' @ [0x0a, 0x78]), ReadError],
      NotConnected, Connected [Bytes []]] =
   concat (map (\<lambda>content. case content of
       None \<Rightarrow> [WaitOneSecond]
     | Some (ls, partial) \<Rightarrow>
         map SendEvent (List.map_filter (line_event None) (map (\<lambda>l. l @ [0x0a]) ls)))
     [Some ([as_bytes ''submap>>game''], [0x78 :: byte]), None, Some ([], [])])"
  by (rule hyprland_reconnects) (simp_all add: as_bytes_def byte_of_def)

text \<open>
  Looking for input devices, whatever appears, vanishes and comes back: after every round a
  device of a profile has at most one reader, and every keyboard found in the last round
  has one.
\<close>
theorem input_devices_watched:
  "let w = watch_input_devices profiles (rounds @ [world])
   in distinct (map reader_key (w_readers w)) \<and>
      (\<forall>found \<in> set (input_event_paths_here world profiles). \<exists>reader \<in> set (w_readers w). reader_key reader = reader_key found)"
proof -
  let ?w = "watch_input_devices profiles (rounds @ [world])"
  have ok: "watcher_ok ?w"
    unfolding watch_input_devices_def by (rule input_watch.run_inv) (simp add: watcher_ok_def)
  have "reader_key ` set (input_event_paths_here world profiles) \<subseteq> w_keys ?w"
    unfolding watch_input_devices_def foldl_append foldl_Cons foldl_Nil watch_input_round_def by (rule round_finds_all)
  from watcher_covers [OF ok this] show ?thesis unfolding Let_def .
qed

lemma input_devices_watched_witness:
  "\<exists>w. w = watch_input_devices [] [\<lparr>ir_ended = [], ir_read_dir = (\<lambda>_. None), ir_read = (\<lambda>_. None)\<rparr>] \<and>
     distinct (map reader_key (w_readers w))"
  using input_devices_watched [of "[]" "[]" "\<lparr>ir_ended = [], ir_read_dir = (\<lambda>_. None), ir_read = (\<lambda>_. None)\<rparr>"]
  by (simp add: Let_def)

text \<open>
  The status command prints the state of the overlay that answers: whenever the overlay is
  in a well-formed state, the client gets the rendering of its status, and asking changes
  nothing that is shown.
\<close>
theorem status_command_reports:
  assumes "ui_ok st" "state_status st = Some status" "from_utf8 (as_bytes (render status)) = Some (render status)"
    and "\<And>bytes. exchange path bytes = (case serve_connection render env bytes st of
           Some (reply, _) \<Rightarrow> Inr reply | None \<Rightarrow> Inl ''reset'')"
  shows "send_status_control (Inr path) exchange = Inr (render status)"
proof -
  have "handle_control_stream (send_control (message CmdStatus)) = [Status]"
    using control_round_trip [of CmdStatus] by simp
  then have events: "handle_control_stream (as_bytes (''status'' @ [CHR 0x0A])) = [Status]"
    by (simp add: send_control_def)
  have "handle_event env Status st = Some (st\<lparr>ui_replies := ui_replies st @ [status]\<rparr>)"
    using assms(2) by (simp add: handle_event_def)
  then have "serve_connection render env (as_bytes (''status'' @ [CHR 0x0A])) st =
      Some (as_bytes (render status), st\<lparr>ui_replies := ui_replies st @ [status]\<rparr>)"
    by (simp only: serve_connection_def events) simp
  then show ?thesis
    using assms(3) by (simp only: send_status_control_def bind_res_simps assms(4)) simp
qed

end
