(* ===== verification/Viewer_Placement.thy ===== *)
theory Viewer_Placement
  imports Viewer_Config
begin

text \<open>
  Where the overlay appears: the answers of Hyprland and \<open>compute_layer_placement\<close> of
  \<open>pkgs/keyboard-layer-viewer/source/src/main.rs\<close>. Coordinates, which the program keeps as
  \<open>f64\<close>, are exact rationals, so the rounding of a division by the monitor's scale is not
  modelled. \<open>serde_json\<close> and the parser of floating-point numbers are parameters.
\<close>

section \<open>What Hyprland tells\<close>

datatype monitor_ref = RefId int | RefName string

text \<open>The workspaces are the optional \<open>id\<close> of \<open>HyprWorkspace\<close>.\<close>

record hypr_monitor =
  hm_name :: string
  hm_id :: "int option"
  hm_focused :: bool
  hm_x :: rat
  hm_y :: rat
  hm_width :: rat
  hm_height :: rat
  hm_scale :: rat
  hm_active_workspace :: "int option"
  hm_special_workspace :: "int option"

record hypr_client =
  hc_address :: string
  hc_mapped :: "bool option"
  hc_hidden :: "bool option"
  hc_monitor :: "monitor_ref option"
  hc_workspace :: "int option"
  hc_at :: "(rat \<times> rat) option"
  hc_size :: "(rat \<times> rat) option"

definition default_client :: hypr_client where
  "default_client = \<lparr>hc_address = [], hc_mapped = None, hc_hidden = None, hc_monitor = None,
     hc_workspace = None, hc_at = None, hc_size = None\<rparr>"

text \<open>
  \<open>hyprctl\<close> runs the program with its arguments: whether it succeeded and its output, when it
  could be run. \<open>instance_set\<close> tells whether \<open>HYPRLAND_INSTANCE_SIGNATURE\<close> is set;
  \<open>parse_gaps\<close> reads the \<open>css\<close> of \<open>HyprGapsOption\<close>.
\<close>

record 'w hyprland =
  instance_set :: bool
  hyprctl :: "string list \<Rightarrow> 'w \<Rightarrow> (bool \<times> byte list) option \<times> 'w"
  parse_monitors :: "byte list \<Rightarrow> hypr_monitor list option"
  parse_clients :: "byte list \<Rightarrow> hypr_client list option"
  parse_client :: "byte list \<Rightarrow> hypr_client option"
  parse_gaps :: "byte list \<Rightarrow> string option"
  parse_f64 :: "string \<Rightarrow> rat option"

definition hyprctl_json ::
  "'w hyprland \<Rightarrow> (byte list \<Rightarrow> 'a option) \<Rightarrow> string list \<Rightarrow> 'w \<Rightarrow> 'a option \<times> 'w" where
  "hyprctl_json H parse args w =
     (case hyprctl H args w of
        (Some (success, stdout), w') \<Rightarrow> (if \<not> success \<or> stdout = [] then None else parse stdout, w')
      | (None, w') \<Rightarrow> (None, w'))"

definition current_hyprland_submap :: "'w hyprland \<Rightarrow> 'w \<Rightarrow> string option \<times> 'w" where
  "current_hyprland_submap H w =
     (if \<not> instance_set H then (None, w)
      else
        (case hyprctl H [''submap''] w of
           (Some (success, stdout), w') \<Rightarrow>
             (if success then map_option trim (from_utf8 stdout) else None, w')
         | (None, w') \<Rightarrow> (None, w')))"

definition focused_hyprland_monitor :: "'w hyprland \<Rightarrow> 'w \<Rightarrow> string option \<times> 'w" where
  "focused_hyprland_monitor H w =
     (if \<not> instance_set H then (None, w)
      else
        (case hyprctl H [''monitors'', ''-j''] w of
           (Some (success, stdout), w') \<Rightarrow>
             (if success then Option.bind (parse_monitors H stdout) (\<lambda>monitors. map_option hm_name (find hm_focused monitors))
              else None, w')
         | (None, w') \<Rightarrow> (None, w')))"

section \<open>Choosing the place\<close>

definition WINDOW_WIDTH :: rat where "WINDOW_WIDTH = 659"
definition WINDOW_HEIGHT :: rat where "WINDOW_HEIGHT = 284"
definition BOTTOM_MARGIN :: rat where "BOTTOM_MARGIN = 12"

definition clamp :: "rat \<Rightarrow> rat \<Rightarrow> rat \<Rightarrow> rat" where
  "clamp x lower upper = min (max x lower) upper"

definition mapped_visible :: "hypr_client \<Rightarrow> bool" where
  "mapped_visible client \<longleftrightarrow>
     (case hc_mapped client of Some m \<Rightarrow> m | None \<Rightarrow> True) \<and> \<not> (case hc_hidden client of Some h \<Rightarrow> h | None \<Rightarrow> False)"

definition on_monitor :: "hypr_client \<Rightarrow> hypr_monitor \<Rightarrow> bool" where
  "on_monitor client monitor \<longleftrightarrow>
     (case (hc_monitor client, hm_id monitor) of
        (Some (RefId i), Some j) \<Rightarrow> i = j
      | (Some (RefName name), _) \<Rightarrow> name = hm_name monitor
      | _ \<Rightarrow> False)"

definition on_workspace :: "hypr_client \<Rightarrow> int \<Rightarrow> bool" where
  "on_workspace client workspace \<longleftrightarrow> hc_workspace client = Some workspace"

definition placement_workspace_id :: "hypr_monitor \<Rightarrow> hypr_client \<Rightarrow> int option" where
  "placement_workspace_id monitor focus =
     (if (case hm_special_workspace monitor of Some i \<Rightarrow> i \<noteq> 0 | None \<Rightarrow> False) then hm_special_workspace monitor
      else if mapped_visible focus \<and> on_monitor focus monitor then
        (case hc_workspace focus of Some i \<Rightarrow> Some i | None \<Rightarrow> hm_active_workspace monitor)
      else hm_active_workspace monitor)"

definition configured_gap_margin :: "(string \<Rightarrow> rat option) \<Rightarrow> string \<Rightarrow> rat" where
  "configured_gap_margin parse css =
     of_int \<lceil>(case split_whitespace css of
         gap # _ \<Rightarrow> (case parse gap of Some g \<Rightarrow> g | None \<Rightarrow> 0)
       | [] \<Rightarrow> 0) * (7 / 10)\<rceil>"

text \<open>\<open>min_by\<close> on the distance from a centre.\<close>

definition nearest :: "rat \<Rightarrow> rat list \<Rightarrow> rat option" where
  "nearest centre lefts = min_by_key (\<lambda>left. \<bar>left + WINDOW_WIDTH / 2 - centre\<bar>) lefts"

definition place_near_window :: "hypr_client \<Rightarrow> rat \<Rightarrow> rat \<Rightarrow> rat \<Rightarrow> rat \<Rightarrow> rat \<Rightarrow> rat" where
  "place_near_window client monitor_x monitor_width band_top band_bottom gap_margin =
     (let (window_x, window_y) = (case hc_at client of Some p \<Rightarrow> p | None \<Rightarrow> (0, 0));
          (window_width, window_height) = (case hc_size client of Some p \<Rightarrow> p | None \<Rightarrow> (0, 0));
          min_x = monitor_x;
          max_x = monitor_x + monitor_width - WINDOW_WIDTH;
          centered_x = window_x + window_width / 2 - WINDOW_WIDTH / 2;
          overlaps_band = band_top < window_y + window_height \<and> window_y < band_bottom
      in if max_x < min_x then min_x
         else if \<not> overlaps_band then clamp centered_x min_x max_x
         else
           (case nearest (window_x + window_width / 2)
               (filter (\<lambda>left. min_x \<le> left \<and> left \<le> max_x)
                 [window_x - gap_margin - WINDOW_WIDTH, window_x + window_width + gap_margin]) of
              Some left \<Rightarrow> left
            | None \<Rightarrow> clamp centered_x min_x max_x))"

text \<open>The place over a window that is not focused.\<close>

definition place_over_client :: "rat \<Rightarrow> rat \<Rightarrow> rat \<Rightarrow> rat \<Rightarrow> hypr_client \<Rightarrow> rat option" where
  "place_over_client monitor_x monitor_width band_top band_bottom client =
     (case (hc_at client, hc_size client) of
        (Some (window_x, window_y), Some (window_width, window_height)) \<Rightarrow>
          (if window_width < WINDOW_WIDTH \<or> window_y + window_height \<le> band_top \<or> band_bottom \<le> window_y then None
           else
             (let left_bound = max window_x monitor_x;
                  right_bound = min (window_x + window_width - WINDOW_WIDTH) (monitor_x + monitor_width - WINDOW_WIDTH)
              in if right_bound < left_bound then None
                 else Some (clamp (monitor_x + monitor_width / 2 - WINDOW_WIDTH / 2) left_bound right_bound)))
      | _ \<Rightarrow> None)"

text \<open>\<open>as i32\<close> of an integral value.\<close>

definition to_i32 :: "int \<Rightarrow> int" where
  "to_i32 n = max (- (2 ^ 31)) (min (2 ^ 31 - 1) n)"

text \<open>The monitor and its size in logical pixels.\<close>

definition placement_monitor :: "hypr_monitor list \<Rightarrow> hypr_monitor option" where
  "placement_monitor monitors =
     (case find hm_focused monitors of Some monitor \<Rightarrow> Some monitor | None \<Rightarrow> list_get monitors 0)"

definition monitor_scale :: "hypr_monitor \<Rightarrow> rat" where
  "monitor_scale monitor = (if hm_scale monitor = 0 then 1 else hm_scale monitor)"

definition logical_width :: "hypr_monitor \<Rightarrow> rat" where
  "logical_width monitor = hm_width monitor / monitor_scale monitor"

definition band :: "hypr_monitor \<Rightarrow> rat \<times> rat" where
  "band monitor =
     (let height = hm_height monitor / monitor_scale monitor
      in (hm_y monitor + height - WINDOW_HEIGHT - BOTTOM_MARGIN, hm_y monitor + height))"

definition focused_choice :: "hypr_monitor \<Rightarrow> hypr_client \<Rightarrow> int \<Rightarrow> rat \<Rightarrow> rat option" where
  "focused_choice monitor focus workspace gap_margin =
     (if mapped_visible focus \<and> on_monitor focus monitor \<and> on_workspace focus workspace then
        (case band monitor of (band_top, band_bottom) \<Rightarrow>
           Some (place_near_window focus (hm_x monitor) (logical_width monitor) band_top band_bottom gap_margin))
      else None)"

definition client_choice :: "hypr_monitor \<Rightarrow> hypr_client list \<Rightarrow> hypr_client \<Rightarrow> int \<Rightarrow> rat option" where
  "client_choice monitor clients focus workspace =
     (case band monitor of (band_top, band_bottom) \<Rightarrow>
        nearest (hm_x monitor + logical_width monitor / 2)
          (List.map_filter (place_over_client (hm_x monitor) (logical_width monitor) band_top band_bottom)
            (filter (\<lambda>client. mapped_visible client \<and> on_monitor client monitor \<and> on_workspace client workspace \<and>
               hc_address client \<noteq> hc_address focus) clients)))"

definition fallback_x :: "hypr_monitor \<Rightarrow> rat" where
  "fallback_x monitor =
     hm_x monitor + (if WINDOW_WIDTH < logical_width monitor then (logical_width monitor - WINDOW_WIDTH) / 2 else 0)"

definition compute_layer_placement ::
  "(string \<Rightarrow> rat option) \<Rightarrow> hypr_monitor list \<Rightarrow> hypr_client list \<Rightarrow> hypr_client \<Rightarrow> string \<Rightarrow> (string \<times> int) option" where
  "compute_layer_placement parse monitors clients focus css =
     Option.bind (placement_monitor monitors) (\<lambda>monitor.
     Option.bind (placement_workspace_id monitor focus) (\<lambda>workspace.
     let left = (case focused_choice monitor focus workspace (configured_gap_margin parse css) of
           Some left \<Rightarrow> left
         | None \<Rightarrow> (case client_choice monitor clients focus workspace of
             Some left \<Rightarrow> left
           | None \<Rightarrow> fallback_x monitor))
     in Some (hm_name monitor, to_i32 (max \<lfloor>left - hm_x monitor\<rfloor> 0))))"

definition current_layer_placement :: "'w hyprland \<Rightarrow> 'w \<Rightarrow> (string \<times> int) option \<times> 'w" where
  "current_layer_placement H w =
     (if \<not> instance_set H then (None, w)
      else
        (case hyprctl_json H (parse_monitors H) [''monitors'', ''-j''] w of
           (None, w1) \<Rightarrow> (None, w1)
         | (Some monitors, w1) \<Rightarrow>
             (case hyprctl_json H (parse_clients H) [''clients'', ''-j''] w1 of
                (None, w2) \<Rightarrow> (None, w2)
              | (Some clients, w2) \<Rightarrow>
                  (let (focus, w3) = hyprctl_json H (parse_client H) [''activewindow'', ''-j''] w2;
                       (gaps, w4) = hyprctl_json H (parse_gaps H) [''getoption'', ''general:gaps_in'', ''-j''] w3
                   in (compute_layer_placement (parse_f64 H) monitors clients
                         (case focus of Some client \<Rightarrow> client | None \<Rightarrow> default_client)
                         (case gaps of Some css \<Rightarrow> css | None \<Rightarrow> []), w4)))))"

section \<open>Moving the window\<close>

text \<open>
  \<open>refresh_layer_placement\<close> and the request at start-up. \<open>connectors\<close> are the connectors of the
  monitors that GDK knows, in order; a request for a monitor that it does not know leaves the
  window on its monitor, but still sets the margin.
\<close>

record placed_window =
  pw_monitor :: "nat option"
  pw_left :: "int option"

definition find_gdk_monitor :: "string option list \<Rightarrow> string \<Rightarrow> nat option" where
  "find_gdk_monitor connectors name =
     find (\<lambda>i. connectors ! i = Some name) [0..<length connectors]"

definition set_layer_monitor :: "string option list \<Rightarrow> string \<Rightarrow> placed_window \<Rightarrow> placed_window" where
  "set_layer_monitor connectors name window =
     (case find_gdk_monitor connectors name of
        Some i \<Rightarrow> window\<lparr>pw_monitor := Some i\<rparr>
      | None \<Rightarrow> window)"

definition set_layer_placement :: "string option list \<Rightarrow> string \<Rightarrow> int \<Rightarrow> placed_window \<Rightarrow> placed_window" where
  "set_layer_placement connectors monitor_name left_margin window =
     (set_layer_monitor connectors monitor_name window)\<lparr>pw_left := Some (max left_margin 0)\<rparr>"

definition set_first_monitor :: "string option list \<Rightarrow> placed_window \<Rightarrow> placed_window" where
  "set_first_monitor connectors window =
     (if connectors = [] then window else window\<lparr>pw_monitor := Some 0\<rparr>)"

definition refresh_layer_placement ::
  "'w hyprland \<Rightarrow> string option list \<Rightarrow> placed_window \<Rightarrow> 'w \<Rightarrow> placed_window \<times> 'w" where
  "refresh_layer_placement H connectors window w =
     (case current_layer_placement H w of
        (Some (monitor, left_margin), w1) \<Rightarrow> (set_layer_placement connectors monitor left_margin window, w1)
      | (None, w1) \<Rightarrow>
          (case focused_hyprland_monitor H w1 of
             (Some name, w2) \<Rightarrow> (set_layer_monitor connectors name window, w2)
           | (None, w2) \<Rightarrow> (window, w2)))"

definition initial_placement ::
  "'w hyprland \<Rightarrow> string option list \<Rightarrow> placed_window \<Rightarrow> 'w \<Rightarrow> placed_window \<times> 'w" where
  "initial_placement H connectors window w =
     (case current_layer_placement H w of
        (Some (monitor, left_margin), w1) \<Rightarrow> (set_layer_placement connectors monitor left_margin window, w1)
      | (None, w1) \<Rightarrow>
          (case focused_hyprland_monitor H w1 of
             (Some name, w2) \<Rightarrow> (set_layer_monitor connectors name window, w2)
           | (None, w2) \<Rightarrow> (set_first_monitor connectors window, w2)))"

section \<open>The overlay stays on its monitor\<close>

lemma clamp_range: "lower \<le> upper \<Longrightarrow> lower \<le> clamp x lower upper \<and> clamp x lower upper \<le> upper"
  by (simp add: clamp_def)

lemma nearest_in: "nearest centre lefts = Some left \<Longrightarrow> left \<in> set lefts"
  by (simp add: nearest_def min_by_key_in)

lemma place_near_range:
  "if width < WINDOW_WIDTH then place_near_window client x width band_top band_bottom gap = x
   else x \<le> place_near_window client x width band_top band_bottom gap \<and>
     place_near_window client x width band_top band_bottom gap \<le> x + width - WINDOW_WIDTH"
  by (auto simp: place_near_window_def Let_def clamp_range split: prod.split option.splits dest!: nearest_in)

lemma place_over_range:
  "place_over_client x width band_top band_bottom client = Some left \<Longrightarrow> x \<le> left \<and> left \<le> x + width - WINDOW_WIDTH"
  by (auto simp: place_over_client_def Let_def clamp_def min_le_iff_disj split: option.splits if_splits prod.splits)

lemma map_filter_in: "y \<in> set (List.map_filter f xs) \<Longrightarrow> \<exists>x \<in> set xs. f x = Some y"
  by (auto simp: map_filter_def)

lemma client_choice_range:
  "client_choice monitor clients focus workspace = Some left \<Longrightarrow>
   hm_x monitor \<le> left \<and> left \<le> hm_x monitor + logical_width monitor - WINDOW_WIDTH"
  by (auto simp: client_choice_def split: prod.splits dest!: nearest_in map_filter_in place_over_range)

text \<open>
  C16: The overlay is placed on the monitor in focus, or the first one, and stays on it: its left
  margin is not negative, and on a monitor at least as wide as the window the window ends
  within the monitor; on a narrower one it starts at the left edge.
\<close>
theorem placement_on_monitor:
  assumes "compute_layer_placement parse monitors clients focus css = Some (name, margin)"
  shows "\<exists>monitor \<in> set monitors. name = hm_name monitor \<and>
    ((\<exists>m \<in> set monitors. hm_focused m) \<longrightarrow> hm_focused monitor) \<and> 0 \<le> margin \<and>
    (if WINDOW_WIDTH \<le> logical_width monitor then of_int margin + WINDOW_WIDTH \<le> logical_width monitor else margin = 0)"
proof -
  obtain monitor workspace left where m: "placement_monitor monitors = Some monitor" "name = hm_name monitor"
    and left: "left = (case focused_choice monitor focus workspace (configured_gap_margin parse css) of
           Some left \<Rightarrow> left
         | None \<Rightarrow> (case client_choice monitor clients focus workspace of Some left \<Rightarrow> left | None \<Rightarrow> fallback_x monitor))"
    and margin: "margin = to_i32 (max \<lfloor>left - hm_x monitor\<rfloor> 0)"
    using assms by (auto simp: compute_layer_placement_def Let_def bind_eq_Some_conv)
  have range: "if logical_width monitor < WINDOW_WIDTH then left = hm_x monitor
    else hm_x monitor \<le> left \<and> left \<le> hm_x monitor + logical_width monitor - WINDOW_WIDTH"
  proof (cases "focused_choice monitor focus workspace (configured_gap_margin parse css)")
    case (Some l)
    then show ?thesis
      using left place_near_range by (auto simp: focused_choice_def split: prod.splits if_splits)
  next
    case None
    show ?thesis
    proof (cases "client_choice monitor clients focus workspace")
      case (Some l)
      then show ?thesis using left None client_choice_range [OF Some] by auto
    next
      case None': None
      then show ?thesis using left None by (auto simp: fallback_x_def field_simps)
    qed
  qed
  have "0 \<le> margin" "margin \<le> max \<lfloor>left - hm_x monitor\<rfloor> 0"
    unfolding margin to_i32_def by auto
  moreover have "of_int (max \<lfloor>left - hm_x monitor\<rfloor> 0) \<le> max (left - hm_x monitor) 0"
    by (simp add: max_def)
  ultimately have bound: "0 \<le> margin" "rat_of_int margin \<le> max (left - hm_x monitor) 0"
    by (auto intro: order_trans)
  have "monitor \<in> set monitors" "(\<exists>m \<in> set monitors. hm_focused m) \<longrightarrow> hm_focused monitor"
    using m(1) by (auto simp: placement_monitor_def find_Some_iff find_None_iff list_get_Some split: option.splits)
  moreover have "if WINDOW_WIDTH \<le> logical_width monitor then of_int margin + WINDOW_WIDTH \<le> logical_width monitor else margin = 0"
    using bound range by (auto simp: max_def split: if_splits)
  ultimately show ?thesis using bound(1) m(2) by blast
qed

text \<open>The laptop of the example: a window of 1200 by 900 pixels at the left of a scaled screen.\<close>

definition demo_monitor :: hypr_monitor where
  "demo_monitor = \<lparr>hm_name = ''eDP-1'', hm_id = Some 0, hm_focused = True, hm_x = 0, hm_y = 0, hm_width = 2880,
     hm_height = 1920, hm_scale = 3 / 2, hm_active_workspace = Some 1, hm_special_workspace = Some 0\<rparr>"

definition demo_window :: hypr_client where
  "demo_window = \<lparr>hc_address = ''0x1'', hc_mapped = Some True, hc_hidden = Some False, hc_monitor = Some (RefId 0),
     hc_workspace = Some 1, hc_at = Some (10, 40), hc_size = Some (1200, 1200)\<rparr>"

definition demo_parse :: "string \<Rightarrow> rat option" where
  "demo_parse text = (if text = ''10'' then Some 10 else None)"

lemma demo_facts:
  "split_whitespace ''10 10'' = [''10'', ''10'']" "logical_width demo_monitor = 1920" "band demo_monitor = (984, 1280)"
  "placement_monitor [demo_monitor] = Some demo_monitor" "placement_workspace_id demo_monitor demo_window = Some 1"
  "configured_gap_margin demo_parse ''10 10'' = 7"
proof -
  show w: "split_whitespace ''10 10'' = [''10'', ''10'']" by code_simp
  show "logical_width demo_monitor = 1920" "band demo_monitor = (984, 1280)"
    by (simp_all add: logical_width_def band_def monitor_scale_def demo_monitor_def WINDOW_HEIGHT_def BOTTOM_MARGIN_def)
  show "placement_monitor [demo_monitor] = Some demo_monitor"
    by (simp add: placement_monitor_def demo_monitor_def)
  show "placement_workspace_id demo_monitor demo_window = Some 1"
    by (simp add: placement_workspace_id_def demo_monitor_def demo_window_def mapped_visible_def on_monitor_def)
  show "configured_gap_margin demo_parse ''10 10'' = 7"
    by (simp add: configured_gap_margin_def w demo_parse_def)
qed

lemma demo_placement:
  "compute_layer_placement demo_parse [demo_monitor] [demo_window] demo_window ''10 10'' = Some (''eDP-1'', 1217)"
proof -
  have "focused_choice demo_monitor demo_window 1 7 = Some 1217"
    by (simp add: focused_choice_def demo_facts)
      (simp add: demo_monitor_def demo_window_def mapped_visible_def on_monitor_def on_workspace_def
        place_near_window_def WINDOW_WIDTH_def nearest_def)
  then show ?thesis
    by (simp add: compute_layer_placement_def demo_facts) (simp add: demo_monitor_def to_i32_def)
qed

theorem placement_on_monitor_witness:
  "compute_layer_placement demo_parse [demo_monitor] [demo_window] demo_window ''10 10'' = Some (''eDP-1'', 1217) \<and>
   of_int 1217 + WINDOW_WIDTH \<le> logical_width demo_monitor"
  using placement_on_monitor [OF demo_placement] demo_placement by (simp add: demo_facts WINDOW_WIDTH_def)

section \<open>The overlay makes room for the focused window\<close>

text \<open>
  C15: The overlay does not cover the focused window when there is room beside it. When the
  focused window is shown on the placed monitor's workspace and reaches into the band of the
  overlay, and left or right of it the overlay fits on the monitor, gap included, then the
  window that is placed there ends left of the gap or starts right of it; starting in whole
  pixels, it may take a part of a pixel of the gap.
\<close>
theorem placement_beside_window:
  assumes "compute_layer_placement parse monitors clients focus css = Some (name, margin)"
    and "placement_monitor monitors = Some monitor" "placement_workspace_id monitor focus = Some workspace"
    and "mapped_visible focus" "on_monitor focus monitor" "on_workspace focus workspace"
    and "hc_at focus = Some (x, y)" "hc_size focus = Some (width, height)"
    and "band monitor = (band_top, band_bottom)" "band_top < y + height" "y < band_bottom"
    and "gap = configured_gap_margin parse css" "logical_width monitor \<le> 2 ^ 31"
    and "hm_x monitor \<le> x - gap - WINDOW_WIDTH \<and> x - gap \<le> hm_x monitor + logical_width monitor \<or>
      hm_x monitor \<le> x + width + gap \<and> x + width + gap + WINDOW_WIDTH \<le> hm_x monitor + logical_width monitor"
  shows "hm_x monitor + of_int margin + WINDOW_WIDTH \<le> x - gap \<or> x + width + gap - 1 < hm_x monitor + of_int margin"
proof -
  let ?min = "hm_x monitor" and ?max = "hm_x monitor + logical_width monitor - WINDOW_WIDTH"
  let ?lefts = "filter (\<lambda>left. ?min \<le> left \<and> left \<le> ?max) [x - gap - WINDOW_WIDTH, x + width + gap]"
  have "?lefts \<noteq> []" using assms(14) by (auto simp: filter_empty_conv)
  then obtain left where n: "nearest (x + width / 2) ?lefts = Some left"
    by (cases "nearest (x + width / 2) ?lefts") (auto simp: nearest_def)
  have left: "left \<in> {x - gap - WINDOW_WIDTH, x + width + gap}" "?min \<le> left" "left \<le> ?max"
    using nearest_in [OF n] unfolding set_filter by auto
  then have "\<not> ?max < ?min" by simp
  then have "place_near_window focus ?min (logical_width monitor) band_top band_bottom gap = left"
    using n assms(7,8,10,11) by (simp add: place_near_window_def)
  then have "focused_choice monitor focus workspace gap = Some left"
    using assms(4-6,9) by (simp add: focused_choice_def)
  then have margin: "margin = to_i32 (max \<lfloor>left - ?min\<rfloor> 0)"
    using assms(1-3,12) by (simp add: compute_layer_placement_def)
  have "0 \<le> \<lfloor>left - ?min\<rfloor>" using left(2) by simp
  moreover have "\<lfloor>left - ?min\<rfloor> < 2 ^ 31"
    using left(3) assms(13) by (simp add: floor_less_iff WINDOW_WIDTH_def)
  ultimately have "margin = \<lfloor>left - ?min\<rfloor>" by (simp add: margin to_i32_def)
  then have "of_int margin \<le> left - ?min" "left - ?min < of_int margin + 1" by linarith+
  then show ?thesis using left(1) by auto
qed

theorem placement_beside_window_witness:
  "compute_layer_placement demo_parse [demo_monitor] [demo_window] demo_window ''10 10'' = Some (''eDP-1'', 1217) \<and>
   (0 + of_int 1217 + WINDOW_WIDTH \<le> 10 - (7 :: rat) \<or> 10 + 1200 + 7 - 1 < (0 :: rat) + of_int 1217)"
proof -
  have "mapped_visible demo_window" "on_monitor demo_window demo_monitor" "on_workspace demo_window 1"
    "hc_at demo_window = Some (10, 40)" "hc_size demo_window = Some (1200, 1200)" "hm_x demo_monitor = 0"
    by (simp_all add: demo_window_def demo_monitor_def mapped_visible_def on_monitor_def on_workspace_def)
  with placement_beside_window [OF demo_placement demo_facts(4,5) this(1-5) demo_facts(3) _ _ demo_facts(6) [symmetric]]
  show ?thesis using demo_placement demo_facts(2) by (simp add: WINDOW_WIDTH_def)
qed

end
