(* ===== verification/Viewer_Window.thy ===== *)
theory Viewer_Window
  imports Viewer_Placement
begin

text \<open>
  The window of the overlay (\<open>pkgs/keyboard-layer-viewer/source/src/main.rs\<close>): what \<open>build_ui\<close>
  asks of GTK and of the compositor, the state it starts with, and the timer that drains the
  event queue. The style sheet and the widgets themselves are left to GTK.
\<close>

section \<open>The window\<close>

text \<open>Whether the window takes the keyboard or the pointer is part of what is asked for.\<close>

record overlay_window =
  ow_title :: string
  ow_size :: "rat \<times> rat"
  ow_decorated :: bool
  ow_resizable :: bool
  ow_focusable :: bool
  ow_namespace :: string
  ow_layer :: string
  ow_keyboard_mode :: string
  ow_exclusive_zone :: int
  ow_anchor_bottom :: bool
  ow_margin_bottom :: rat
  ow_can_focus :: bool
  ow_can_target :: bool
  ow_placed :: placed_window
  ow_presented :: bool

definition overlay_request :: "placed_window \<Rightarrow> bool \<Rightarrow> overlay_window" where
  "overlay_request placed presented =
     \<lparr>ow_title = ''Keyboard Layer Viewer'', ow_size = (WINDOW_WIDTH, WINDOW_HEIGHT), ow_decorated = False,
      ow_resizable = False, ow_focusable = False, ow_namespace = ''keyboard-layer-viewer'', ow_layer = ''Overlay'',
      ow_keyboard_mode = ''None'', ow_exclusive_zone = 0, ow_anchor_bottom = True, ow_margin_bottom = BOTTOM_MARGIN,
      ow_can_focus = False, ow_can_target = False, ow_placed = placed, ow_presented = presented\<rparr>"

definition build_ui ::
  "'w hyprland \<Rightarrow> string option list \<Rightarrow> keyboard_profile list \<Rightarrow> bool \<Rightarrow> 'w \<Rightarrow> (ui_state \<times> overlay_window) \<times> 'w" where
  "build_ui H connectors profiles visible w =
     (let (submap, w1) = current_hyprland_submap H w;
          ui = initial_ui profiles visible submap;
          (placed, w2) = initial_placement H connectors \<lparr>pw_monitor = None, pw_left = None\<rparr> w1
      in ((ui, overlay_request placed (ui_visible ui)), w2))"

text \<open>
  A tick of the 25 ms timer: the events in the queue, each handled in the surroundings of its
  moment, and then the deadline.
\<close>

definition timer_round ::
  "ui_state option \<Rightarrow> (surroundings \<times> app_event) list \<times> surroundings \<Rightarrow> ui_state option" where
  "timer_round st = (\<lambda>(events, env).
     ui_step (foldl ui_step st (map (\<lambda>(env, event). Event env event) events)) (Timer env))"

section \<open>Lemmas\<close>

definition round_inputs :: "(surroundings \<times> app_event) list \<times> surroundings \<Rightarrow> ui_input list" where
  "round_inputs = (\<lambda>(events, env). map (\<lambda>(env, event). Event env event) events @ [Timer env])"

lemma timer_rounds: "foldl timer_round st rounds = foldl ui_step st (concat (map round_inputs rounds))"
  by (induction rounds arbitrary: st) (auto simp: timer_round_def round_inputs_def)

lemma build_ui_parts:
  assumes "build_ui H connectors profiles visible w = ((ui, window), w')"
  obtains submap placed where "ui = initial_ui profiles visible submap" "window = overlay_request placed (ui_visible ui)"
  using assms by (auto simp: build_ui_def Let_def split: prod.splits)

section \<open>Properties\<close>


definition no_hyprland :: "unit hyprland" where
  "no_hyprland = \<lparr>instance_set = False, hyprctl = (\<lambda>args w. (None, w)), parse_monitors = (\<lambda>_. None),
     parse_clients = (\<lambda>_. None), parse_client = (\<lambda>_. None), parse_gaps = (\<lambda>_. None), parse_f64 = (\<lambda>_. None)\<rparr>"


text \<open>
  The first window ignores the submap: it is presented although the submap suppresses
  activity, while the state knows of the suppression.
\<close>
theorem first_window_ignores_submap:
  assumes "current_hyprland_submap H w = (Some SUPPRESSED_SUBMAP, w1)" "overlay_is_enabled_for_current_layer p"
  shows "ow_presented (snd (fst (build_ui H connectors [p] True w))) \<and>
    ui_suppressed_by_submap (fst (fst (build_ui H connectors [p] True w)))"
  using assms by (simp add: build_ui_def Let_def overlay_request_def initial_ui_def submap_suppresses_activity_def
      split: prod.splits)

end
