(* ===== verification/Rust_Utf8.thy ===== *)
theory Rust_Utf8
  imports Rust_Text
begin

text \<open>
  UTF-8 decoding as in the Rust standard library: \<open>String::from_utf8_lossy\<close>, which replaces
  every maximal ill-formed piece by U+FFFD, \<open>chars\<close> and \<open>char::is_control\<close>. A character is
  the string of its encoding, as everywhere in this development.
\<close>

section \<open>Decoding\<close>

text \<open>The ranges of the bytes that may follow a lead byte.\<close>

definition trail_ranges :: "nat \<Rightarrow> (nat \<times> nat) list option" where
  "trail_ranges b =
     (if b < 0x80 then Some []
      else if b < 0xC2 then None
      else if b < 0xE0 then Some [(0x80, 0xBF)]
      else if b = 0xE0 then Some [(0xA0, 0xBF), (0x80, 0xBF)]
      else if b = 0xED then Some [(0x80, 0x9F), (0x80, 0xBF)]
      else if b < 0xF0 then Some [(0x80, 0xBF), (0x80, 0xBF)]
      else if b = 0xF0 then Some [(0x90, 0xBF), (0x80, 0xBF), (0x80, 0xBF)]
      else if b < 0xF4 then Some [(0x80, 0xBF), (0x80, 0xBF), (0x80, 0xBF)]
      else if b = 0xF4 then Some [(0x80, 0x8F), (0x80, 0xBF), (0x80, 0xBF)]
      else None)"

text \<open>How many of the bytes are as the ranges ask, in order.\<close>

fun matched :: "(nat \<times> nat) list \<Rightarrow> string \<Rightarrow> nat" where
  "matched ((lo, hi) # rs) (c # s) = (if lo \<le> code c \<and> code c \<le> hi then Suc (matched rs s) else 0)"
| "matched _ _ = 0"

definition REPLACEMENT :: string where
  "REPLACEMENT = [CHR 0xEF, CHR 0xBF, CHR 0xBD]"

function lossy_chars :: "string \<Rightarrow> string list" where
  "lossy_chars [] = []"
| "lossy_chars (c # s) =
     (case trail_ranges (code c) of
        None \<Rightarrow> REPLACEMENT # lossy_chars s
      | Some rs \<Rightarrow>
          (let n = matched rs s in
           (if n = length rs then c # take n s else REPLACEMENT) # lossy_chars (drop n s)))"
  by pat_completeness auto
termination
  by (relation "measure length") (auto simp: Let_def)

definition from_utf8_lossy :: "string \<Rightarrow> string" where
  "from_utf8_lossy s = concat (lossy_chars s)"

definition is_control :: "string \<Rightarrow> bool" where
  "is_control c =
     (case c of
        [a] \<Rightarrow> code a < 0x20 \<or> code a = 0x7F
      | [a, b] \<Rightarrow> code a = 0xC2 \<and> code b < 0xA0
      | _ \<Rightarrow> False)"

section \<open>Well-formed characters\<close>

definition utf8_char :: "string \<Rightarrow> bool" where
  "utf8_char c \<longleftrightarrow> lossy_chars c = [c]"

lemma matched_append: "matched rs t = length t \<Longrightarrow> length t = length rs \<Longrightarrow> matched rs (t @ s) = length t"
  by (induction rs t rule: matched.induct) (auto split: if_splits)

lemma matched_le: "matched rs s \<le> length rs" "matched rs s \<le> length s"
  by (induction rs s rule: matched.induct) auto

lemma matched_take: "matched rs (take (matched rs s) s) = matched rs s"
  by (induction rs s rule: matched.induct) auto

lemma utf8_char_iff:
  "utf8_char c \<longleftrightarrow> (\<exists>a t rs. c = a # t \<and> trail_ranges (code a) = Some rs \<and> length t = length rs \<and> matched rs t = length rs) \<or>
     c = REPLACEMENT"
proof (cases c)
  case Nil
  then show ?thesis by (simp add: utf8_char_def REPLACEMENT_def)
next
  case (Cons a t)
  show ?thesis
  proof
    assume c: "utf8_char c"
    show "(\<exists>a t rs. c = a # t \<and> trail_ranges (code a) = Some rs \<and> length t = length rs \<and> matched rs t = length rs) \<or>
        c = REPLACEMENT"
    proof (cases "trail_ranges (code a)")
      case None
      then show ?thesis using c Cons by (auto simp: utf8_char_def)
    next
      case (Some rs)
      let ?n = "matched rs t"
      have eq: "(if ?n = length rs then a # take ?n t else REPLACEMENT) = c"
        using c Cons Some by (simp add: utf8_char_def Let_def)
      show ?thesis
      proof (cases "?n = length rs")
        case True
        then have "take ?n t = t" using eq Cons by simp
        then have "length t = length rs" using True matched_le(2) [of rs t] by (metis length_take min.absorb2)
        then show ?thesis using Some True Cons by blast
      next
        case False
        then show ?thesis using eq by simp
      qed
    qed
  next
    have "lossy_chars REPLACEMENT = [REPLACEMENT]" by code_simp
    moreover assume "(\<exists>a t rs. c = a # t \<and> trail_ranges (code a) = Some rs \<and> length t = length rs \<and> matched rs t = length rs) \<or>
        c = REPLACEMENT"
    ultimately show "utf8_char c" by (auto simp: utf8_char_def)
  qed
qed

lemma utf8_char_lead:
  assumes "utf8_char c"
  obtains a t rs where "c = a # t" "trail_ranges (code a) = Some rs" "length t = length rs" "matched rs t = length rs"
proof -
  have "\<exists>rs. trail_ranges (code (CHR 0xEF)) = Some rs \<and> length [CHR 0xBF, CHR 0xBD] = length rs \<and>
      matched rs [CHR 0xBF, CHR 0xBD] = length rs"
    by (simp add: trail_ranges_def code_def)
  with assms that show thesis unfolding utf8_char_iff REPLACEMENT_def by blast
qed

lemma lossy_chars_append: "utf8_char c \<Longrightarrow> lossy_chars (c @ s) = c # lossy_chars s"
  by (erule utf8_char_lead) (simp add: matched_append)

lemma lossy_chars_concat: "list_all utf8_char cs \<Longrightarrow> lossy_chars (concat cs) = cs"
  by (induction cs) (simp_all add: lossy_chars_append)

lemma lossy_chars_wf: "list_all utf8_char (lossy_chars s)"
proof (induction s rule: lossy_chars.induct)
  case (2 c s)
  have rep: "utf8_char REPLACEMENT" by (simp add: utf8_char_iff)
  show ?case
  proof (cases "trail_ranges (code c)")
    case None
    then show ?thesis using 2(1) rep by simp
  next
    case (Some rs)
    let ?n = "matched rs s"
    have "utf8_char (c # take ?n s)" if "?n = length rs"
      using Some that matched_le(2) [of rs s] matched_take [of rs s]
      by (auto simp: utf8_char_iff)
    then show ?thesis using Some 2(2) [OF Some refl] rep by (simp add: Let_def)
  qed
qed simp

text \<open>ASCII text is its own characters.\<close>

lemma lossy_chars_ascii: "list_all is_ascii s \<Longrightarrow> lossy_chars s = map (\<lambda>c. [c]) s"
  by (induction s) (simp_all add: trail_ranges_def is_ascii_def)

end
