(* ===== verification/Text_Fit.thy ===== *)
theory Text_Fit
  imports Rust_Utf8
begin

text \<open>
  Centred labels: \<open>draw_centered_text\<close>, which the overlay
  (\<open>pkgs/keyboard-layer-viewer/source/src/main.rs\<close>) and the editor (\<open>pkgs/keymap-editor/main.rs\<close>)
  have with different limits. A label that is too wide is cut once and then set smaller, in
  steps of 8%, down to 62% of its size. What cairo measures is a parameter.
\<close>

record text_extents =
  te_width :: rat
  te_height :: rat
  te_x_bearing :: rat

definition chars_count :: "string \<Rightarrow> nat" where
  "chars_count s = length (lossy_chars s)"

definition cut_label :: "nat \<Rightarrow> string \<Rightarrow> string" where
  "cut_label limit display = concat (take (limit - 1) (lossy_chars display)) @ ''.''"

text \<open>The size after \<open>shrinks\<close> steps of \<open>size *= 0.92\<close>.\<close>

definition shrunk :: "rat \<Rightarrow> nat \<Rightarrow> rat" where
  "shrunk font_size shrinks = font_size * (92 / 100) ^ shrinks"

lemma chars_count_cut:
  assumes "0 < limit" "limit < chars_count display"
  shows "chars_count (cut_label limit display) = limit"
proof -
  let ?cs = "take (limit - 1) (lossy_chars display) @ [''.'']"
  have "utf8_char ''.''" by (simp add: utf8_char_iff trail_ranges_def code_def)
  then have "list_all utf8_char ?cs"
    using lossy_chars_wf [of display] by (auto simp: list_all_iff dest: in_set_takeD)
  from lossy_chars_concat [OF this] have "lossy_chars (cut_label limit display) = ?cs"
    by (simp add: cut_label_def)
  then show ?thesis using assms by (simp add: chars_count_def)
qed

text \<open>
  \<open>size <= font_size * 0.62\<close>. A font size that is not positive satisfies this before the first
  step, so that it ends the loop.
\<close>

definition small_enough :: "rat \<Rightarrow> nat \<Rightarrow> bool" where
  "small_enough font_size shrinks \<longleftrightarrow> font_size \<le> 0 \<or> shrunk font_size shrinks \<le> font_size * (62 / 100)"

lemma small_enough_start: "small_enough font_size 0 \<longleftrightarrow> shrunk font_size 0 \<le> font_size * (62 / 100)"
  by (auto simp: small_enough_def shrunk_def)

lemma small_enough_six:
  assumes "6 \<le> shrinks"
  shows "small_enough font_size shrinks"
proof -
  have "(92 / 100 :: rat) ^ shrinks \<le> (92 / 100) ^ 6" using assms by (rule power_decreasing) simp_all
  also have "\<dots> \<le> 62 / 100" by (simp add: power_numeral_reduce)
  finally have "font_size * (92 / 100) ^ shrinks \<le> font_size * (62 / 100)" if "0 \<le> font_size"
    using that by (rule mult_left_mono)
  then show ?thesis unfolding small_enough_def shrunk_def by (cases "font_size \<le> 0") simp_all
qed

function fit_loop ::
  "(rat \<Rightarrow> string \<Rightarrow> text_extents option) \<Rightarrow> nat \<Rightarrow> rat \<Rightarrow> rat \<Rightarrow> nat \<Rightarrow> string \<Rightarrow> (string \<times> rat \<times> text_extents) option" where
  "fit_loop extents limit max_width font_size shrinks display =
     (case extents (shrunk font_size shrinks) display of
        None \<Rightarrow> None
      | Some e \<Rightarrow>
          if te_width e \<le> max_width \<or> small_enough font_size shrinks then Some (display, shrunk font_size shrinks, e)
          else if 0 < limit \<and> limit < chars_count display then
            fit_loop extents limit max_width font_size shrinks (cut_label limit display)
          else fit_loop extents limit max_width font_size (shrinks + 1) display)"
  by pat_completeness auto
termination
proof (relation "measures [\<lambda>(_, limit, _, _, _, display). if limit < chars_count display then 1 else 0,
    \<lambda>(_, _, _, _, shrinks, _). 6 - shrinks]", goal_cases)
  case (2 extents limit max_width font_size shrinks display e)
  then show ?case by (simp add: chars_count_cut)
next
  case (3 extents limit max_width font_size shrinks display e)
  then show ?case using small_enough_six [of shrinks font_size] by (cases "6 \<le> shrinks") auto
qed simp

declare fit_loop.simps [simp del]

text \<open>A label where it is shown: its reference point, its size and its text.\<close>

record shown_text =
  st_x :: rat
  st_y :: rat
  st_size :: rat
  st_label :: string

definition place_text :: "bool \<Rightarrow> rat \<Rightarrow> rat \<Rightarrow> string \<times> rat \<times> text_extents \<Rightarrow> shown_text" where
  "place_text below center_x center_y = (\<lambda>(display, size, e).
     \<lparr>st_x = center_x - te_width e / 2 - te_x_bearing e,
      st_y = (if below then center_y + te_height e / 2 else center_y - te_height e / 2),
      st_size = size, st_label = display\<rparr>)"

definition viewer_centered_text ::
  "(rat \<Rightarrow> string \<Rightarrow> text_extents option) \<Rightarrow> string \<Rightarrow> rat \<Rightarrow> rat \<Rightarrow> rat \<Rightarrow> rat \<Rightarrow> shown_text option" where
  "viewer_centered_text extents label center_x center_y font_size max_width =
     map_option (place_text True center_x center_y) (fit_loop extents 12 max_width font_size 0 label)"

text \<open>The editor's measurement does not fail.\<close>

definition editor_centered_text ::
  "(rat \<Rightarrow> string \<Rightarrow> text_extents) \<Rightarrow> string \<Rightarrow> rat \<Rightarrow> rat \<Rightarrow> rat \<Rightarrow> rat \<Rightarrow> shown_text option" where
  "editor_centered_text extents label center_x baseline_y font_size max_width =
     map_option (place_text False center_x baseline_y)
       (fit_loop (\<lambda>size display. Some (extents size display)) 8 max_width font_size 0 label)"

section \<open>Labels stay readable\<close>

lemma shrunk_range:
  assumes "0 < font_size" "shrinks = 0 \<or> \<not> small_enough font_size (shrinks - 1)"
  shows "font_size * (57 / 100) \<le> shrunk font_size shrinks" "shrunk font_size shrinks \<le> font_size"
proof -
  have "(92 / 100 :: rat) ^ shrinks \<le> 1" by (rule power_le_one) simp_all
  from mult_left_mono [OF this, of font_size] show "shrunk font_size shrinks \<le> font_size"
    using assms(1) by (simp add: shrunk_def)
  show "font_size * (57 / 100) \<le> shrunk font_size shrinks"
  proof (cases shrinks)
    case 0
    then show ?thesis using assms(1) by (simp add: shrunk_def)
  next
    case (Suc k)
    then have "font_size * (62 / 100) < font_size * (92 / 100) ^ k"
      using assms by (auto simp: small_enough_def shrunk_def)
    moreover have "shrunk font_size shrinks = 92 / 100 * (font_size * (92 / 100) ^ k)"
      by (simp add: shrunk_def Suc)
    ultimately show ?thesis using assms(1) by linarith
  qed
qed

lemma fit_loop_result:
  assumes "\<And>size display. extents size display \<noteq> None" "0 < limit" "0 < font_size"
    and "shrinks = 0 \<or> \<not> small_enough font_size (shrinks - 1)"
  shows "\<exists>shown size e. fit_loop extents limit max_width font_size shrinks display = Some (shown, size, e) \<and>
    extents size shown = Some e \<and> (shown = display \<or> limit < chars_count display \<and> shown = cut_label limit display) \<and>
    (te_width e \<le> max_width \<or> size \<le> font_size * (62 / 100)) \<and> font_size * (57 / 100) \<le> size \<and> size \<le> font_size"
  using assms
proof (induction extents limit max_width font_size shrinks display rule: fit_loop.induct)
  case (1 extents limit max_width font_size shrinks display)
  obtain e where e: "extents (shrunk font_size shrinks) display = Some e" using "1.prems"(1) by blast
  note range = shrunk_range [OF "1.prems"(3,4)]
  show ?case
  proof (cases "te_width e \<le> max_width \<or> small_enough font_size shrinks")
    case True
    then show ?thesis
      using e range "1.prems"(3) by (auto simp: fit_loop.simps [of _ _ _ _ shrinks] small_enough_def)
  next
    case False
    show ?thesis
    proof (cases "limit < chars_count display")
      case cut: True
      from "1.IH"(1) [OF e False _ "1.prems"] cut "1.prems"(2) show ?thesis
        by (subst fit_loop.simps) (auto simp: e False [simplified] chars_count_cut)
    next
      case whole: False
      from "1.IH"(2) [OF e False _ "1.prems"(1-3)] whole False show ?thesis
        by (subst fit_loop.simps) (auto simp: e)
    qed
  qed
qed

text \<open>
  Labels stay readable. However cairo measures texts, the loop that fits a label ends: it
  shows the label, or its first 11 characters and a dot when it has more than 12, at no less
  than 57 and no more than 100 percent of its size; what is shown fits the width, or is at
  most 62 percent large.
\<close>
theorem label_fitted:
  assumes "\<And>size display. extents size display \<noteq> None" "0 < font_size"
  shows "\<exists>shown e. viewer_centered_text extents label x y font_size max_width = Some shown \<and>
    extents (st_size shown) (st_label shown) = Some e \<and>
    (st_label shown = label \<or>
     12 < chars_count label \<and> st_label shown = concat (take 11 (lossy_chars label)) @ ''.'') \<and>
    (te_width e \<le> max_width \<or> st_size shown \<le> font_size * (62 / 100)) \<and>
    font_size * (57 / 100) \<le> st_size shown \<and> st_size shown \<le> font_size"
proof -
  obtain shown size e where "fit_loop extents 12 max_width font_size 0 label = Some (shown, size, e)"
    "extents size shown = Some e" "shown = label \<or> 12 < chars_count label \<and> shown = cut_label 12 label"
    "te_width e \<le> max_width \<or> size \<le> font_size * (62 / 100)" "font_size * (57 / 100) \<le> size" "size \<le> font_size"
    using fit_loop_result [where extents = extents and limit = 12 and font_size = font_size and shrinks = 0 and
      max_width = max_width and display = label] assms by auto
  then show ?thesis
    by (simp add: viewer_centered_text_def place_text_def cut_label_def)
qed

text \<open>A font in which a character is 60% as wide as the size.\<close>

definition fixed_width :: "rat \<Rightarrow> string \<Rightarrow> text_extents option" where
  "fixed_width points display = Some \<lparr>te_width = points * (60 / 100) * of_nat (length display), te_height = points, te_x_bearing = 0\<rparr>"

theorem label_fitted_witness:
  "\<exists>shown. viewer_centered_text fixed_width ''Leader'' 0 0 10 30 = Some shown \<and> st_label shown = ''Leader'' \<and>
     5 < st_size shown \<and> st_size shown \<le> 10"
proof -
  have "lossy_chars ''Leader'' = map (\<lambda>c. [c]) ''Leader''" by (rule lossy_chars_ascii) (simp add: is_ascii_def code_def)
  then have "chars_count ''Leader'' = 6" by (simp add: chars_count_def)
  with label_fitted [of fixed_width 10 "''Leader''" 0 0 30] show ?thesis
    by (force simp: fixed_width_def)
qed

end
