(* ===== verification/Viewer_Geometry.thy ===== *)
theory Viewer_Geometry
  imports Viewer_Config Text_Fit
begin

text \<open>
  Where the keys are drawn: the key geometry of a QMK layout, its bounds, and what
  \<open>draw_keyboard\<close> and \<open>draw_key\<close> of \<open>pkgs/keyboard-layer-viewer/source/src/main.rs\<close> ask of
  cairo. Coordinates, \<open>f64\<close> in the program, are exact rationals; the trigonometric functions
  of the standard library are a parameter of which nothing is assumed.
\<close>

section \<open>Keys and their bounds\<close>

record trig =
  to_radians :: "rat \<Rightarrow> rat"
  cosine :: "rat \<Rightarrow> rat"
  sine :: "rat \<Rightarrow> rat"

record qmk_key =
  qk_x :: rat
  qk_y :: rat
  qk_w :: rat
  qk_h :: rat
  qk_r :: rat
  qk_rx :: "rat option"
  qk_ry :: "rat option"

record key_geometry =
  kg_x :: rat
  kg_y :: rat
  kg_width :: rat
  kg_height :: rat
  kg_rotation :: rat

definition from_qmk_key :: "trig \<Rightarrow> qmk_key \<Rightarrow> key_geometry" where
  "from_qmk_key T key =
     (let x = qk_x key + qk_w key / 2;
          y = qk_y key + qk_h key / 2;
          (x, y) =
            (if qk_r key \<noteq> 0 then
               (case (qk_rx key, qk_ry key) of
                  (Some rx, Some ry) \<Rightarrow>
                    (let rotation = to_radians T (qk_r key); dx = x - rx; dy = y - ry
                     in (rx + dx * cosine T rotation - dy * sine T rotation,
                         ry + dx * sine T rotation + dy * cosine T rotation))
                | _ \<Rightarrow> (x, y))
             else (x, y))
      in \<lparr>kg_x = x, kg_y = y, kg_width = qk_w key, kg_height = qk_h key, kg_rotation = qk_r key\<rparr>)"

definition x_axis_half_extent :: "trig \<Rightarrow> key_geometry \<Rightarrow> rat" where
  "x_axis_half_extent T key =
     (let rotation = to_radians T (kg_rotation key)
      in (kg_width key * \<bar>cosine T rotation\<bar> + kg_height key * \<bar>sine T rotation\<bar>) / 2)"

definition y_axis_half_extent :: "trig \<Rightarrow> key_geometry \<Rightarrow> rat" where
  "y_axis_half_extent T key =
     (let rotation = to_radians T (kg_rotation key)
      in (kg_width key * \<bar>sine T rotation\<bar> + kg_height key * \<bar>cosine T rotation\<bar>) / 2)"

record layout_bounds =
  lb_min_x :: rat
  lb_min_y :: rat
  lb_width :: rat
  lb_height :: rat

text \<open>The least and the greatest coordinate on each axis, from the infinities on: none without a key.\<close>

type_synonym extremes = "(rat \<times> rat) \<times> (rat \<times> rat)"

definition key_extremes :: "trig \<Rightarrow> key_geometry \<Rightarrow> extremes" where
  "key_extremes T key =
     ((kg_x key - x_axis_half_extent T key, kg_x key + x_axis_half_extent T key),
      (kg_y key - y_axis_half_extent T key, kg_y key + y_axis_half_extent T key))"

fun widen :: "extremes option \<Rightarrow> extremes \<Rightarrow> extremes option" where
  "widen None e = Some e"
| "widen (Some ((l, r), (t, b))) ((l', r'), (t', b')) = Some ((min l l', max r r'), (min t t', max b b'))"

definition layout_bounds_of :: "trig \<Rightarrow> key_geometry list \<Rightarrow> layout_bounds option" where
  "layout_bounds_of T keys =
     map_option (\<lambda>((l, r), (t, b)). \<lparr>lb_min_x = l, lb_min_y = t, lb_width = r - l, lb_height = b - t\<rparr>)
       (foldl widen None (map (key_extremes T) keys))"

record keyboard_layout =
  lay_keys :: "key_geometry list"
  lay_bounds :: layout_bounds

text \<open>
  \<open>parse_layout_json\<close>, the JSON read by \<open>vf_info\<close>: \<open>load_layout\<close> refuses a layout without keys,
  so that the bounds exist.
\<close>

definition parse_layout :: "trig \<Rightarrow> ('p, qmk_key) viewer_files \<Rightarrow> 'p \<Rightarrow> ('p load_error, keyboard_layout) res" where
  "parse_layout T fs path =
     bind_res (load_layout fs path) (\<lambda>layout.
     let keys = map (from_qmk_key T) layout
     in ok_or (EmptyLayout path)
          (map_option (\<lambda>bounds. \<lparr>lay_keys = keys, lay_bounds = bounds\<rparr>) (layout_bounds_of T keys)))"

section \<open>Drawing\<close>

record layout_metrics =
  lm_origin_x :: rat
  lm_origin_y :: rat
  lm_scale :: rat

text \<open>
  A quotient by zero is an infinity, or no number for \<open>0 / 0\<close>; \<open>min\<close> gives the other value in
  either case. \<open>None\<close> is an infinite scale.
\<close>

definition layout_scale :: "rat \<Rightarrow> rat \<Rightarrow> layout_bounds \<Rightarrow> rat option" where
  "layout_scale width height bounds =
     (if lb_width bounds \<noteq> 0 \<and> lb_height bounds \<noteq> 0 then
        Some (max (min (width / lb_width bounds) (height / lb_height bounds)) (5 / 100))
      else if lb_width bounds \<noteq> 0 then Some (max (width / lb_width bounds) (5 / 100))
      else if lb_height bounds \<noteq> 0 then Some (max (height / lb_height bounds) (5 / 100))
      else if width = 0 \<and> height = 0 then Some (5 / 100)
      else None)"

definition layout_metrics_of :: "rat \<Rightarrow> rat \<Rightarrow> layout_bounds \<Rightarrow> layout_metrics option" where
  "layout_metrics_of width height bounds =
     map_option (\<lambda>scale.
       \<lparr>lm_origin_x = (width - lb_width bounds * scale) / 2 - lb_min_x bounds * scale,
        lm_origin_y = (height - lb_height bounds * scale) / 2 - lb_min_y bounds * scale,
        lm_scale = scale\<rparr>)
       (layout_scale width height bounds)"

definition OVERLAY_OPACITY :: rat where "OVERLAY_OPACITY = 60 / 100"
definition KEY_FILL_OPACITY :: rat where "KEY_FILL_OPACITY = 72 / 100"

text \<open>The entries of the palette a key uses; their colours come from the widget's style.\<close>

datatype palette_role = UnassignedKey | OverlayKey | BaseKey | InverseText | MutedText | PlainText

text \<open>A centred text: what, at which height, how large, how wide at most, and how opaque.\<close>

record key_text =
  kt_label :: string
  kt_y :: rat
  kt_size :: rat
  kt_max_width :: rat
  kt_alpha :: rat

text \<open>
  What is drawn for a key: a rounded rectangle about \<open>dk_centre\<close>, turned by \<open>dk_angle\<close>, filled
  and outlined, and its texts in the turned coordinates.
\<close>

record drawn_key =
  dk_centre :: "rat \<times> rat"
  dk_angle :: rat
  dk_width :: rat
  dk_height :: rat
  dk_radius :: rat
  dk_fill :: "palette_role \<times> rat"
  dk_outline :: "rat \<times> rat"
  dk_text_color :: palette_role
  dk_texts :: "key_text list"

definition draw_key :: "trig \<Rightarrow> layout_metrics \<Rightarrow> key_geometry \<Rightarrow> display_binding \<Rightarrow> drawn_key" where
  "draw_key T metrics geometry binding =
     (let key_width = kg_width geometry * lm_scale metrics;
          key_height = kg_height geometry * lm_scale metrics;
          key_size = min key_width key_height;
          (fill, fill_alpha) =
            (if binding_is_empty binding then (UnassignedKey, 78 / 100)
             else if uses_overlay_color binding then (OverlayKey, 96 / 100)
             else (BaseKey, 90 / 100))
      in \<lparr>dk_centre = (lm_origin_x metrics + kg_x geometry * lm_scale metrics,
                       lm_origin_y metrics + kg_y geometry * lm_scale metrics),
          dk_angle = to_radians T (kg_rotation geometry),
          dk_width = key_width, dk_height = key_height, dk_radius = key_size * (13 / 100),
          dk_fill = (fill, fill_alpha * KEY_FILL_OPACITY),
          dk_outline = (62 / 100 * OVERLAY_OPACITY, key_size * (20 / 1000)),
          dk_text_color =
            (if uses_overlay_color binding \<and> \<not> binding_is_empty binding then InverseText
             else if binding_is_empty binding then MutedText else PlainText),
          dk_texts =
            (case db_tap binding of
               Some tap \<Rightarrow> [\<lparr>kt_label = tap, kt_y = - key_height * (14 / 100), kt_size = key_size * (25 / 100),
                  kt_max_width = key_width * (76 / 100), kt_alpha = 92 / 100 * OVERLAY_OPACITY\<rparr>]
             | None \<Rightarrow> []) @
            (case db_hold binding of
               Some hold \<Rightarrow> [\<lparr>kt_label = hold,
                  kt_y = key_height * (if db_tap binding \<noteq> None then 24 / 100 else 10 / 100),
                  kt_size = key_size * (if db_tap binding \<noteq> None then 16 / 100 else 20 / 100),
                  kt_max_width = key_width * (84 / 100), kt_alpha = 84 / 100 * OVERLAY_OPACITY\<rparr>]
             | None \<Rightarrow> [])\<rparr>)"

text \<open>\<open>draw_keyboard\<close> with the legends of \<open>drawn_bindings\<close>, one per key.\<close>

definition draw_keyboard ::
  "trig \<Rightarrow> keyboard_layout \<Rightarrow> display_binding list \<Rightarrow> rat \<Rightarrow> rat \<Rightarrow> drawn_key list option" where
  "draw_keyboard T layout bindings width height =
     map_option (\<lambda>metrics. map2 (draw_key T metrics) (lay_keys layout) bindings)
       (layout_metrics_of width height (lay_bounds layout))"

text \<open>The texts of a key as they are shown, about its centre.\<close>

definition show_texts :: "(rat \<Rightarrow> string \<Rightarrow> text_extents option) \<Rightarrow> drawn_key \<Rightarrow> shown_text list" where
  "show_texts extents key =
     List.map_filter (\<lambda>t. viewer_centered_text extents (kt_label t) 0 (kt_y t) (kt_size t) (kt_max_width t)) (dk_texts key)"

section \<open>The drawing fits the window\<close>

lemma widen_contains:
  assumes "foldl widen acc es = Some ((l, r), (t, b))"
  shows "(\<forall>((l', r'), (t', b')) \<in> set es \<union> set_option acc. l \<le> l' \<and> r' \<le> r \<and> t \<le> t' \<and> b' \<le> b)"
  using assms
proof (induction es arbitrary: acc)
  case (Cons e es)
  obtain l1 r1 t1 b1 where e: "e = ((l1, r1), (t1, b1))" by (metis surj_pair)
  from Cons.IH Cons.prems show ?case
    by (cases acc) (fastforce simp: e)+
qed auto

lemma bounds_contain:
  assumes "layout_bounds_of T keys = Some bounds" "key \<in> set keys"
  shows "lb_min_x bounds \<le> kg_x key - x_axis_half_extent T key"
    "kg_x key + x_axis_half_extent T key \<le> lb_min_x bounds + lb_width bounds"
    "lb_min_y bounds \<le> kg_y key - y_axis_half_extent T key"
    "kg_y key + y_axis_half_extent T key \<le> lb_min_y bounds + lb_height bounds"
proof -
  obtain l r t b where f: "foldl widen None (map (key_extremes T) keys) = Some ((l, r), (t, b))"
    "bounds = \<lparr>lb_min_x = l, lb_min_y = t, lb_width = r - l, lb_height = b - t\<rparr>"
    using assms(1) by (auto simp: layout_bounds_of_def)
  from widen_contains [OF f(1)] assms(2)
  show "lb_min_x bounds \<le> kg_x key - x_axis_half_extent T key"
    "kg_x key + x_axis_half_extent T key \<le> lb_min_x bounds + lb_width bounds"
    "lb_min_y bounds \<le> kg_y key - y_axis_half_extent T key"
    "kg_y key + y_axis_half_extent T key \<le> lb_min_y bounds + lb_height bounds"
    by (auto simp: f(2) key_extremes_def)
qed

text \<open>A corner of a drawn key on the window, \<open>sx\<close> and \<open>sy\<close> being 1 or -1.\<close>

definition drawn_corner :: "trig \<Rightarrow> drawn_key \<Rightarrow> rat \<Rightarrow> rat \<Rightarrow> rat \<times> rat" where
  "drawn_corner T k sx sy =
     (let x = sx * dk_width k / 2; y = sy * dk_height k / 2
      in (fst (dk_centre k) + (x * cosine T (dk_angle k) - y * sine T (dk_angle k)),
          snd (dk_centre k) + (x * sine T (dk_angle k) + y * cosine T (dk_angle k))))"

lemma half_turn:
  fixes w h c s :: rat
  assumes "0 \<le> w" "0 \<le> h" "sx = 1 \<or> sx = -1" "sy = 1 \<or> sy = -1"
  shows "\<bar>sx * w / 2 * c + sy * h / 2 * s\<bar> \<le> (w * \<bar>c\<bar> + h * \<bar>s\<bar>) / 2"
proof -
  have "\<bar>sx * w / 2 * c + sy * h / 2 * s\<bar> \<le> \<bar>sx * w / 2 * c\<bar> + \<bar>sy * h / 2 * s\<bar>" by (rule abs_triangle_ineq)
  moreover have "\<bar>sx * w / 2 * c\<bar> = w * \<bar>c\<bar> / 2" "\<bar>sy * h / 2 * s\<bar> = h * \<bar>s\<bar> / 2"
    using assms by (auto simp: abs_mult)
  ultimately show ?thesis by (simp add: add_divide_distrib)
qed

lemma axis_fits:
  fixes origin :: rat
  assumes "origin = (total_size - extent * scale) / 2 - low * scale" "0 \<le> scale" "extent * scale \<le> total_size"
    and "low \<le> centre - reach" "centre + reach \<le> low + extent" "\<bar>d\<bar> \<le> reach"
  shows "0 \<le> origin + centre * scale + d * scale \<and> origin + centre * scale + d * scale \<le> total_size"
proof -
  have "0 \<le> centre + d - low" "centre + d - low \<le> extent" using assms(4-6) by linarith+
  then have "0 \<le> (centre + d - low) * scale" "(centre + d - low) * scale \<le> extent * scale"
    using assms(2) by (simp_all add: mult_right_mono)
  moreover have "origin + centre * scale + d * scale = (total_size - extent * scale) / 2 + (centre + d - low) * scale"
    by (simp add: assms(1) algebra_simps)
  moreover have "0 \<le> (total_size - extent * scale) / 2" using assms(3) by simp
  moreover have "total_size = (total_size - extent * scale) / 2 + (total_size - extent * scale) / 2 + extent * scale"
    by (simp add: field_simps)
  ultimately show ?thesis by linarith
qed

lemma drawn_corner_fits:
  assumes bounds: "layout_bounds_of T keys = Some bounds" and key: "key \<in> set keys" "0 \<le> kg_width key" "0 \<le> kg_height key"
    and metrics: "layout_metrics_of width height bounds = Some metrics"
    and big: "0 < lb_width bounds" "0 < lb_height bounds" "lb_width bounds * (5 / 100) \<le> width" "lb_height bounds * (5 / 100) \<le> height"
    and s: "sx = 1 \<or> sx = -1" "sy = 1 \<or> sy = -1"
  shows "case drawn_corner T (draw_key T metrics key binding) sx sy of (x, y) \<Rightarrow> 0 \<le> x \<and> x \<le> width \<and> 0 \<le> y \<and> y \<le> height"
proof -
  let ?s = "lm_scale metrics" and ?a = "to_radians T (kg_rotation key)"
  have m: "lm_origin_x metrics = (width - lb_width bounds * ?s) / 2 - lb_min_x bounds * ?s"
    "lm_origin_y metrics = (height - lb_height bounds * ?s) / 2 - lb_min_y bounds * ?s"
    "?s = max (min (width / lb_width bounds) (height / lb_height bounds)) (5 / 100)"
    using metrics big(1,2) by (auto simp: layout_metrics_of_def layout_scale_def)
  have "5 / 100 \<le> width / lb_width bounds" "5 / 100 \<le> height / lb_height bounds"
    using big by (simp_all add: field_simps)
  then have "0 \<le> ?s" "?s \<le> width / lb_width bounds" "?s \<le> height / lb_height bounds"
    unfolding m(3) by (auto intro: max.coboundedI2 simp: max_def min_def)
  then have scale: "0 \<le> ?s" "lb_width bounds * ?s \<le> width" "lb_height bounds * ?s \<le> height"
    using big(1,2) by (simp_all add: field_simps)
  define dx where "dx = sx * kg_width key / 2 * cosine T ?a + - sy * kg_height key / 2 * sine T ?a"
  define dy where "dy = sx * kg_width key / 2 * sine T ?a + sy * kg_height key / 2 * cosine T ?a"
  have d: "\<bar>dx\<bar> \<le> x_axis_half_extent T key" "\<bar>dy\<bar> \<le> y_axis_half_extent T key"
    unfolding dx_def dy_def x_axis_half_extent_def y_axis_half_extent_def Let_def
    by (rule half_turn; use key s in auto)+
  have x: "fst (drawn_corner T (draw_key T metrics key binding) sx sy) = lm_origin_x metrics + kg_x key * ?s + dx * ?s"
    and y: "snd (drawn_corner T (draw_key T metrics key binding) sx sy) = lm_origin_y metrics + kg_y key * ?s + dy * ?s"
    by (simp_all add: drawn_corner_def draw_key_def Let_def dx_def dy_def algebra_simps split: prod.split)
  note contained = bounds_contain [OF bounds key(1)]
  from axis_fits [OF m(1) scale(1,2) contained(1,2) d(1)] axis_fits [OF m(2) scale(1,3) contained(3,4) d(2)]
  show ?thesis by (simp add: x y split_beta)
qed

text \<open>
  C33: Every key is drawn, and within the window. For a layout that was loaded, whose keys have
  no negative size, and a window that is not so small that the least scale applies, each key
  gets its legend, and all four corners of its rectangle lie in the window, however the key is
  turned; this needs nothing of the sine and cosine.
\<close>
theorem drawing_fits_window:
  assumes "parse_layout T fs path = Inr layout" "\<forall>key \<in> set (lay_keys layout). 0 \<le> kg_width key \<and> 0 \<le> kg_height key"
    and "length bindings = length (lay_keys layout)" "draw_keyboard T layout bindings width height = Some drawn"
    and "0 < lb_width (lay_bounds layout)" "0 < lb_height (lay_bounds layout)"
    and "lb_width (lay_bounds layout) * (5 / 100) \<le> width" "lb_height (lay_bounds layout) * (5 / 100) \<le> height"
  shows "drawn \<noteq> [] \<and> length drawn = length (lay_keys layout) \<and>
    (\<forall>k \<in> set drawn. \<forall>sx \<in> {1, -1}. \<forall>sy \<in> {1, -1}.
       case drawn_corner T k sx sy of (x, y) \<Rightarrow> 0 \<le> x \<and> x \<le> width \<and> 0 \<le> y \<and> y \<le> height)"
proof -
  have layout: "layout_bounds_of T (lay_keys layout) = Some (lay_bounds layout)" "lay_keys layout \<noteq> []"
    using assms(1) by (auto simp: parse_layout_def bind_res_eq_Inr load_layout_def Let_def split: if_splits)
  obtain metrics where m: "layout_metrics_of width height (lay_bounds layout) = Some metrics"
      "drawn = map2 (draw_key T metrics) (lay_keys layout) bindings"
    using assms(4) by (auto simp: draw_keyboard_def)
  have corners: "case drawn_corner T k sx sy of (x, y) \<Rightarrow> 0 \<le> x \<and> x \<le> width \<and> 0 \<le> y \<and> y \<le> height"
    if drawn_key: "k \<in> set drawn" and s: "sx \<in> {1, -1}" "sy \<in> {1, -1}" for k sx sy
  proof -
    obtain key binding where k: "key \<in> set (lay_keys layout)" "k = draw_key T metrics key binding"
      using drawn_key by (auto simp: m(2) elim!: in_set_zipE)
    then show ?thesis
      using drawn_corner_fits [OF layout(1) k(1) _ _ m(1) assms(5-8), of sx sy binding] assms(2) s by auto
  qed
  have len: "length drawn = length (lay_keys layout)" using assms(3) by (simp add: m(2))
  then have "drawn \<noteq> []" using layout(2) by (metis length_0_conv)
  with len show ?thesis by (intro conjI ballI corners)
qed

text \<open>Two keys of one unit and a thumb key of two, turned by a quarter about its own corner.\<close>

definition quarter_turns :: trig where
  "quarter_turns = \<lparr>to_radians = (\<lambda>d. d), cosine = (\<lambda>a. if a = 90 then 0 else 1), sine = (\<lambda>a. if a = 90 then 1 else 0)\<rparr>"

definition sample_keys :: "qmk_key list" where
  "sample_keys =
     [\<lparr>qk_x = 0, qk_y = 0, qk_w = 1, qk_h = 1, qk_r = 0, qk_rx = None, qk_ry = None\<rparr>,
      \<lparr>qk_x = 1, qk_y = 0, qk_w = 1, qk_h = 1, qk_r = 0, qk_rx = None, qk_ry = None\<rparr>,
      \<lparr>qk_x = 3, qk_y = 0, qk_w = 2, qk_h = 1, qk_r = 90, qk_rx = Some 3, qk_ry = Some 0\<rparr>]"

definition layout_files :: "(string, qmk_key) viewer_files" where
  "layout_files = \<lparr>vf_exists = (\<lambda>_. False), vf_yaml = (\<lambda>_. Inl ''none''), vf_info = (\<lambda>_. Inr [(''LAYOUT'', sample_keys)]),
     vf_profiles = (\<lambda>_. Inl []), vf_absolute = (\<lambda>_. True), vf_join = (\<lambda>a b. a @ ''/'' @ b), vf_parent = (\<lambda>_. None), vf_dot = ''.''\<rparr>"

definition sample_layout :: keyboard_layout where
  "sample_layout =
     \<lparr>lay_keys =
        [\<lparr>kg_x = 1 / 2, kg_y = 1 / 2, kg_width = 1, kg_height = 1, kg_rotation = 0\<rparr>,
         \<lparr>kg_x = 3 / 2, kg_y = 1 / 2, kg_width = 1, kg_height = 1, kg_rotation = 0\<rparr>,
         \<lparr>kg_x = 5 / 2, kg_y = 1, kg_width = 2, kg_height = 1, kg_rotation = 90\<rparr>],
      lay_bounds = \<lparr>lb_min_x = 0, lb_min_y = 0, lb_width = 3, lb_height = 2\<rparr>\<rparr>"

lemma sample_layout_parsed: "parse_layout quarter_turns layout_files ''info.json'' = Inr sample_layout"
  by (simp add: parse_layout_def load_layout_def layout_files_def sample_keys_def layout_bounds_of_def key_extremes_def
      x_axis_half_extent_def y_axis_half_extent_def from_qmk_key_def quarter_turns_def Let_def sample_layout_def)

theorem drawing_fits_window_witness:
  "\<exists>drawn. draw_keyboard quarter_turns sample_layout (replicate 3 \<lparr>db_tap = Some ''A'', db_hold = None, db_source = Overlay\<rparr>) 659 284
      = Some drawn \<and> length drawn = 3 \<and>
    (case drawn_corner quarter_turns (drawn ! 2) 1 (-1) of (x, y) \<Rightarrow> 0 \<le> x \<and> x \<le> 659 \<and> 0 \<le> y \<and> y \<le> 284)"
proof -
  let ?bs = "replicate 3 \<lparr>db_tap = Some ''A'', db_hold = None, db_source = Overlay\<rparr>"
  obtain drawn where d: "draw_keyboard quarter_turns sample_layout ?bs 659 284 = Some drawn"
    by (simp add: draw_keyboard_def layout_metrics_of_def layout_scale_def sample_layout_def)
  have "lay_keys sample_layout \<noteq> []" "length ?bs = length (lay_keys sample_layout)"
    "\<forall>key \<in> set (lay_keys sample_layout). 0 \<le> kg_width key \<and> 0 \<le> kg_height key"
    "lay_bounds sample_layout = \<lparr>lb_min_x = 0, lb_min_y = 0, lb_width = 3, lb_height = 2\<rparr>"
    by (simp_all add: sample_layout_def)
  from drawing_fits_window [OF sample_layout_parsed this(3,2) d] this
  have f: "length drawn = 3" "\<forall>k \<in> set drawn. \<forall>sx \<in> {1, -1}. \<forall>sy \<in> {1, -1}.
       case drawn_corner quarter_turns k sx sy of (x, y) \<Rightarrow> 0 \<le> x \<and> x \<le> 659 \<and> 0 \<le> y \<and> y \<le> 284"
    by (simp_all add: sample_layout_def)
  have "drawn ! 2 \<in> set drawn" using f(1) by simp
  then have "case drawn_corner quarter_turns (drawn ! 2) 1 (-1) of (x, y) \<Rightarrow> 0 \<le> x \<and> x \<le> 659 \<and> 0 \<le> y \<and> y \<le> 284"
    using f(2) by simp
  with d f(1) show ?thesis by (intro exI [of _ drawn] conjI)
qed

end
