(* ===== verification/Viewer_Theme.thy ===== *)
theory Viewer_Theme
  imports Viewer_Geometry
begin

text \<open>
  The colours of the overlay (\<open>ThemePalette\<close> of
  \<open>pkgs/keyboard-layer-viewer/source/src/main.rs\<close>): which colour of the GTK theme stands for
  which part of a key, and what replaces a colour that the theme does not define. Colour
  components are exact rationals; the theme is a parameter.
\<close>

section \<open>Colours\<close>

record color =
  red :: rat
  green :: rat
  blue :: rat

definition channel :: "u32 \<Rightarrow> rat" where
  "channel v = of_nat (unat (v AND 0xFF)) / 255"

definition color_hex :: "u32 \<Rightarrow> color" where
  "color_hex v = \<lparr>red = channel (drop_bit 16 v), green = channel (drop_bit 8 v), blue = channel v\<rparr>"

definition mix :: "color \<Rightarrow> color \<Rightarrow> rat \<Rightarrow> color" where
  "mix a b amount =
     (let t = min (max amount 0) 1
      in \<lparr>red = red a + (red b - red a) * t, green = green a + (green b - green a) * t,
          blue = blue a + (blue b - blue a) * t\<rparr>)"

definition luminance :: "color \<Rightarrow> rat" where
  "luminance c = 2126 / 10000 * red c + 7152 / 10000 * green c + 722 / 10000 * blue c"

section \<open>The palette\<close>

record theme_palette =
  pal_text :: color
  pal_muted :: color
  pal_base_key :: color
  pal_overlay_key :: color
  pal_unassigned_key :: color
  pal_outline :: color
  pal_inverse_text :: color

text \<open>A style: the colour of the widget's text, and the named colours of the theme.\<close>

record style =
  style_color :: color
  lookup_color :: "string \<Rightarrow> color option"

fun lookup_theme_color :: "style \<Rightarrow> string list \<Rightarrow> color option" where
  "lookup_theme_color s [] = None"
| "lookup_theme_color s (name # names) =
     (case lookup_color s name of Some c \<Rightarrow> Some c | None \<Rightarrow> lookup_theme_color s names)"

definition color_or :: "color \<Rightarrow> color option \<Rightarrow> color" where
  "color_or fallback found = (case found of Some c \<Rightarrow> c | None \<Rightarrow> fallback)"

definition palette_of :: "style \<Rightarrow> theme_palette" where
  "palette_of s =
     (let text = color_or (style_color s)
            (lookup_theme_color s [''window_fg_color'', ''view_fg_color'', ''card_fg_color'', ''theme_fg_color'', ''theme_text_color'']);
          bg = color_or (if 5 / 10 < luminance text then color_hex 0x101010 else color_hex 0xf5f5f5)
            (lookup_theme_color s [''window_bg_color'', ''view_bg_color'', ''theme_bg_color'', ''theme_base_color'']);
          accent = color_or (mix bg text (52 / 100))
            (lookup_theme_color s [''accent_bg_color'', ''accent_color'', ''blue_3'', ''theme_selected_bg_color'',
               ''theme_unfocused_selected_bg_color'']);
          base_key = color_or (mix bg text (34 / 100))
            (lookup_theme_color s [''card_bg_color'', ''popover_bg_color'', ''headerbar_bg_color'']);
          unassigned_key = color_or (mix bg text (18 / 100))
            (lookup_theme_color s [''sidebar_bg_color'', ''headerbar_bg_color'', ''scrollbar_outline_color'']);
          outline = color_or accent
            (lookup_theme_color s [''scrollbar_outline_color'', ''headerbar_border_color'', ''borders'']);
          muted = color_or (mix text bg (48 / 100))
            (map_option (\<lambda>c. mix c bg (38 / 100))
              (lookup_theme_color s [''headerbar_fg_color'', ''sidebar_fg_color'', ''insensitive_fg_color'']));
          inverse_text = color_or (if 55 / 100 < luminance accent then color_hex 0x080808 else color_hex 0xf7f7f7)
            (lookup_theme_color s [''accent_fg_color'', ''success_fg_color'', ''theme_selected_fg_color''])
      in \<lparr>pal_text = text, pal_muted = muted, pal_base_key = base_key, pal_overlay_key = accent,
          pal_unassigned_key = unassigned_key, pal_outline = outline, pal_inverse_text = inverse_text\<rparr>)"

text \<open>The colour of a role, as \<open>draw_key\<close> takes it from the palette.\<close>

fun role_color :: "theme_palette \<Rightarrow> palette_role \<Rightarrow> color" where
  "role_color p UnassignedKey = pal_unassigned_key p"
| "role_color p OverlayKey = pal_overlay_key p"
| "role_color p BaseKey = pal_base_key p"
| "role_color p InverseText = pal_inverse_text p"
| "role_color p MutedText = pal_muted p"
| "role_color p PlainText = pal_text p"

section \<open>Labels stand out\<close>

definition in_gamut :: "color \<Rightarrow> bool" where
  "in_gamut c \<longleftrightarrow> 0 \<le> red c \<and> red c \<le> 1 \<and> 0 \<le> green c \<and> green c \<le> 1 \<and> 0 \<le> blue c \<and> blue c \<le> 1"

lemma between:
  fixes a b t :: rat
  assumes "0 \<le> a" "a \<le> 1" "0 \<le> b" "b \<le> 1" "0 \<le> t" "t \<le> 1"
  shows "0 \<le> a + (b - a) * t \<and> a + (b - a) * t \<le> 1"
proof -
  have "a + (b - a) * t = a * (1 - t) + b * t" by (simp add: algebra_simps)
  moreover have "a * (1 - t) \<le> 1 * (1 - t)" "b * t \<le> 1 * t" using assms by (intro mult_right_mono; simp)+
  ultimately show ?thesis using assms by simp
qed

lemma in_gamut_mix: "in_gamut a \<Longrightarrow> in_gamut b \<Longrightarrow> in_gamut (mix a b amount)"
  by (simp add: in_gamut_def mix_def Let_def between)

lemma in_gamut_hex: "in_gamut (color_hex v)"
proof -
  have "0 \<le> channel w \<and> channel w \<le> 1" for w
  proof -
    have "w AND 0xFF \<le> 0xFF" by (rule word_and_le1)
    then have "unat (w AND 0xFF) \<le> 255" by (simp add: word_le_nat_alt)
    then have "rat_of_nat (unat (w AND 0xFF)) \<le> rat_of_nat 255" by (simp only: of_nat_le_iff)
    moreover have "0 \<le> rat_of_nat (unat (w AND 0xFF))" by (rule of_nat_0_le_iff)
    ultimately show ?thesis unfolding channel_def by linarith
  qed
  then show ?thesis by (simp add: in_gamut_def color_hex_def)
qed

lemma in_gamut_lookup:
  "(\<And>name c. lookup_color s name = Some c \<Longrightarrow> in_gamut c) \<Longrightarrow> lookup_theme_color s names = Some c \<Longrightarrow> in_gamut c"
  by (induction names) (auto split: option.splits)

lemma luminance_mix: "0 \<le> t \<Longrightarrow> t \<le> 1 \<Longrightarrow> luminance (mix a b t) = luminance a + (luminance b - luminance a) * t"
  by (simp add: luminance_def mix_def Let_def field_simps)

lemma luminance_gamut: "in_gamut c \<Longrightarrow> 0 \<le> luminance c \<and> luminance c \<le> 1"
  by (simp add: in_gamut_def luminance_def)

text \<open>
  The palette is made of colours, and its labels can be told from their keys. When the
  theme's colours are in range, so are all of the palette's; and when the theme defines no
  colour at all, every key gets a label whose luminance differs from the key's by more than an
  eighth, before both are blended with what is behind the window.
\<close>
theorem palette_legible:
  assumes "in_gamut (style_color s)" "\<And>name c. lookup_color s name = Some c \<Longrightarrow> in_gamut c"
  shows "in_gamut (role_color (palette_of s) role) \<and> in_gamut (pal_outline (palette_of s)) \<and>
    ((\<forall>name. lookup_color s name = None) \<longrightarrow>
       1 / 8 < \<bar>luminance (role_color (palette_of s) (dk_text_color (draw_key T metrics geometry binding))) -
         luminance (role_color (palette_of s) (fst (dk_fill (draw_key T metrics geometry binding))))\<bar>)"
proof -
  have or: "in_gamut (color_or d (lookup_theme_color s names))" if "in_gamut d" for d names
    using that in_gamut_lookup [OF assms(2)] by (cases "lookup_theme_color s names") (auto simp: color_or_def)
  have muted: "in_gamut (color_or d (map_option (\<lambda>c. mix c bg t) (lookup_theme_color s names)))"
    if "in_gamut d" "in_gamut bg" for d bg t names
    using that in_gamut_lookup [OF assms(2)] in_gamut_mix by (cases "lookup_theme_color s names") (auto simp: color_or_def)
  have bg: "in_gamut (if c then color_hex a else color_hex b)" for a b c by (simp add: in_gamut_hex)
  have gamut: "in_gamut (role_color (palette_of s) role)" "in_gamut (pal_outline (palette_of s))"
    by (cases role; simp add: palette_of_def Let_def or muted bg in_gamut_mix assms(1) del: lookup_theme_color.simps)
      (simp add: palette_of_def Let_def or bg in_gamut_mix assms(1) del: lookup_theme_color.simps)
  have "1 / 8 < \<bar>luminance (role_color (palette_of s) (dk_text_color (draw_key T metrics geometry binding))) -
         luminance (role_color (palette_of s) (fst (dk_fill (draw_key T metrics geometry binding))))\<bar>"
    if none: "\<forall>name. lookup_color s name = None"
  proof -
    have found: "lookup_theme_color s names = None" for names by (induction names) (auto simp: none)
    define fg where "fg = style_color s"
    define bg where "bg = (if 5 / 10 < luminance fg then color_hex 0x101010 else color_hex 0xf5f5f5)"
    define accent where "accent = mix bg fg (52 / 100)"
    define inverse where "inverse = (if 55 / 100 < luminance accent then color_hex 0x080808 else color_hex 0xf7f7f7)"
    have p: "palette_of s = \<lparr>pal_text = fg, pal_muted = mix fg bg (48 / 100), pal_base_key = mix bg fg (34 / 100),
        pal_overlay_key = accent, pal_unassigned_key = mix bg fg (18 / 100), pal_outline = accent, pal_inverse_text = inverse\<rparr>"
      by (simp add: palette_of_def found color_or_def fg_def bg_def accent_def inverse_def Let_def
          del: lookup_theme_color.simps)
    have lums: "luminance (color_hex 0x101010) = 16 / 255" "luminance (color_hex 0xf5f5f5) = 245 / 255"
      "luminance (color_hex 0x080808) = 8 / 255" "luminance (color_hex 0xf7f7f7) = 247 / 255"
      by (simp_all add: luminance_def color_hex_def channel_def)
    have "0 \<le> luminance fg" "luminance fg \<le> 1" using luminance_gamut assms(1) by (simp_all add: fg_def)
    then have bg_fg: "5 / 10 < luminance fg \<and> luminance bg = 16 / 255 \<or> luminance fg \<le> 5 / 10 \<and> luminance bg = 245 / 255"
      by (auto simp: bg_def lums)
    have inv: "55 / 100 < luminance accent \<and> luminance inverse = 8 / 255 \<or> luminance accent \<le> 55 / 100 \<and> luminance inverse = 247 / 255"
      by (auto simp: inverse_def lums)
    have "1 / 8 < \<bar>luminance (mix fg bg (48 / 100)) - luminance (mix bg fg (18 / 100))\<bar>"
      "1 / 8 < \<bar>luminance fg - luminance (mix bg fg (34 / 100))\<bar>" "1 / 8 < \<bar>luminance inverse - luminance accent\<bar>"
    proof -
      have "4 / 10 < \<bar>luminance fg - luminance bg\<bar>" using bg_fg by (auto simp: abs_if)
      moreover have "luminance (mix fg bg (48 / 100)) - luminance (mix bg fg (18 / 100)) = 34 / 100 * (luminance fg - luminance bg)"
        "luminance fg - luminance (mix bg fg (34 / 100)) = 66 / 100 * (luminance fg - luminance bg)"
        by (simp_all add: luminance_mix field_simps)
      ultimately show "1 / 8 < \<bar>luminance (mix fg bg (48 / 100)) - luminance (mix bg fg (18 / 100))\<bar>"
        "1 / 8 < \<bar>luminance fg - luminance (mix bg fg (34 / 100))\<bar>"
        by (simp_all only: abs_mult) simp_all
      show "1 / 8 < \<bar>luminance inverse - luminance accent\<bar>" using inv by (auto simp: abs_if)
    qed
    then show ?thesis
      by (auto simp: p draw_key_def Let_def split: if_splits)
  qed
  with gamut show ?thesis by blast
qed

theorem palette_legible_witness:
  "1 / 8 < \<bar>luminance (role_color (palette_of \<lparr>style_color = color_hex 0, lookup_color = Map.empty\<rparr>) MutedText) -
     luminance (role_color (palette_of \<lparr>style_color = color_hex 0, lookup_color = Map.empty\<rparr>) UnassignedKey)\<bar>"
  using palette_legible [of "\<lparr>style_color = color_hex 0, lookup_color = Map.empty\<rparr>" UnassignedKey quarter_turns
      "\<lparr>lm_origin_x = 0, lm_origin_y = 0, lm_scale = 1\<rparr>" "lay_keys sample_layout ! 0" "\<lparr>db_tap = None, db_hold = None, db_source = Overlay\<rparr>"]
  by (simp add: in_gamut_hex draw_key_def binding_is_empty_def Let_def)

end
