(* ===== verification/Editor_Drawing.thy ===== *)
theory Editor_Drawing
  imports Editor_App Viewer_Geometry
begin

text \<open>
  The drawing of the editor (\<open>pkgs/keymap-editor/main.rs\<close>): the geometry of the 54 keys, how
  they are scaled to the widget, which key a click hits, and how a key is painted. As in the
  overlay, coordinates are exact rationals and the trigonometric functions a parameter.
\<close>

section \<open>The keys\<close>

definition REF_WIDTH :: rat where "REF_WIDTH = 1209"
definition REF_HEIGHT :: rat where "REF_HEIGHT = 529"

definition key_rotated :: "rat \<Rightarrow> rat \<Rightarrow> rat \<Rightarrow> rat \<Rightarrow> rat \<Rightarrow> key_geometry" where
  "key_rotated x y width height rotation =
     \<lparr>kg_x = x, kg_y = y, kg_width = width, kg_height = height, kg_rotation = rotation\<rparr>"

definition key_square :: "rat \<Rightarrow> rat \<Rightarrow> key_geometry" where
  "key_square x y = key_rotated x y 73 73 0"

definition KEY_GEOMETRY :: "key_geometry list" where
  "KEY_GEOMETRY =
     [key_square (535 / 10) (825 / 10), key_square (1325 / 10) (825 / 10), key_square (2115 / 10) (725 / 10),
      key_square 290 (625 / 10), key_square (3685 / 10) (725 / 10), key_square (4475 / 10) (825 / 10),
      key_square (7545 / 10) (825 / 10), key_square 833 (725 / 10), key_square (9115 / 10) (625 / 10),
      key_square (9905 / 10) (725 / 10), key_square (10695 / 10) (825 / 10),
      key_square (11485 / 10) (825 / 10), key_square (535 / 10) (1615 / 10),
      key_square (1325 / 10) (1615 / 10), key_square (2115 / 10) (1515 / 10), key_square 290 (1415 / 10),
      key_square (3685 / 10) (1515 / 10), key_square (4475 / 10) (1615 / 10),
      key_square (7545 / 10) (1615 / 10), key_square 833 (1515 / 10), key_square (9125 / 10) (1415 / 10),
      key_square (9905 / 10) (1515 / 10), key_square (10695 / 10) (1615 / 10),
      key_square (11485 / 10) (1615 / 10), key_square (535 / 10) (2405 / 10),
      key_square (1325 / 10) (2405 / 10), key_square (2115 / 10) (2305 / 10), key_square 290 (2205 / 10),
      key_square (3685 / 10) (2305 / 10), key_square (4475 / 10) (2405 / 10),
      key_square (7545 / 10) (2405 / 10), key_square 833 (2305 / 10), key_square (9125 / 10) (2205 / 10),
      key_square (9905 / 10) (2305 / 10), key_square (10695 / 10) (2405 / 10),
      key_square (11485 / 10) (2405 / 10), key_square (535 / 10) 319, key_square (1325 / 10) 319,
      key_square (2115 / 10) (3095 / 10), key_square 290 (2985 / 10), key_square (3685 / 10) (3095 / 10),
      key_square (4475 / 10) 319, key_square (7545 / 10) 319, key_square 833 (3095 / 10),
      key_square (9125 / 10) (2985 / 10), key_square (9905 / 10) (3095 / 10), key_square (10695 / 10) 319,
      key_square (11485 / 10) 319, key_square (3035 / 10) (3965 / 10), key_rotated (3983 / 10) 414 74 74 10,
      key_rotated (4927 / 10) 443 (745 / 10) (1095 / 10) 20,
      key_rotated 709 443 (745 / 10) (1095 / 10) (-20), key_rotated (8034 / 10) (4137 / 10) 74 74 (-10),
      key_square (8975 / 10) (3965 / 10)]"

definition editor_layout_metrics :: "rat \<Rightarrow> rat \<Rightarrow> layout_metrics" where
  "editor_layout_metrics width height =
     (let scale = max (min (width / REF_WIDTH) (height / REF_HEIGHT)) (5 / 100)
      in \<lparr>lm_origin_x = (width - REF_WIDTH * scale) / 2, lm_origin_y = (height - REF_HEIGHT * scale) / 2,
          lm_scale = scale\<rparr>)"

section \<open>Clicks\<close>

definition key_hit :: "trig \<Rightarrow> rat \<Rightarrow> rat \<Rightarrow> layout_metrics \<Rightarrow> key_geometry \<Rightarrow> bool" where
  "key_hit T x y metrics geometry =
     (let cx = lm_origin_x metrics + kg_x geometry * lm_scale metrics;
          cy = lm_origin_y metrics + kg_y geometry * lm_scale metrics;
          dx = x - cx;
          dy = y - cy;
          angle = - to_radians T (kg_rotation geometry);
          local_x = dx * cosine T angle - dy * sine T angle;
          local_y = dx * sine T angle + dy * cosine T angle;
          half_width = kg_width geometry * lm_scale metrics / 2;
          half_height = kg_height geometry * lm_scale metrics / 2
      in \<bar>local_x\<bar> \<le> half_width \<and> \<bar>local_y\<bar> \<le> half_height)"

definition hit_test :: "trig \<Rightarrow> rat \<Rightarrow> rat \<Rightarrow> layout_metrics \<Rightarrow> nat option" where
  "hit_test T x y metrics =
     find (\<lambda>index. key_hit T x y metrics (KEY_GEOMETRY ! index)) [0..<length KEY_GEOMETRY]"

text \<open>A click on a widget of the given allocation; \<open>None\<close> when the event has no coordinates.\<close>

definition click :: "trig \<Rightarrow> int \<Rightarrow> int \<Rightarrow> (rat \<times> rat) option \<Rightarrow> editor \<Rightarrow> editor option" where
  "click T allocated_width allocated_height coords ed =
     (case coords of
        None \<Rightarrow> Some ed
      | Some (x, y) \<Rightarrow>
          on_button_press
            (hit_test T x y (editor_layout_metrics (of_int (max allocated_width 1)) (of_int (max allocated_height 1)))) ed)"

section \<open>Painting\<close>

datatype mocha = Text | Overlay0 | Surface0 | Surface1 | Base | Crust | Red | Yellow | Green | Teal

definition is_layer_label :: "string \<Rightarrow> bool" where
  "is_layer_label label \<longleftrightarrow> label \<in> {''Num'', ''Nav'', ''Sym'', ''Base''}"

text \<open>
  A painted key: its shadow's offset, its fill, outline and text colours, and its labels with
  their colour's opacity, in the turned coordinates about its centre.
\<close>

record painted_key =
  pk_centre :: "rat \<times> rat"
  pk_angle :: rat
  pk_size :: "rat \<times> rat"
  pk_radius :: rat
  pk_shadow :: "rat \<times> rat"
  pk_fill :: mocha
  pk_outline :: "mocha \<times> rat"
  pk_text_color :: mocha
  pk_texts :: "key_text list"

definition paint_key :: "trig \<Rightarrow> layout_metrics \<Rightarrow> key_geometry \<Rightarrow> nat \<Rightarrow> string \<Rightarrow> bool \<Rightarrow> painted_key" where
  "paint_key T metrics geometry index label selected =
     (let scale = lm_scale metrics;
          key_width = kg_width geometry * scale;
          key_height = kg_height geometry * scale;
          key_size = min key_width key_height;
          text = (\<lambda>s y part wide alpha. \<lparr>kt_label = s, kt_y = y, kt_size = key_size * part, kt_max_width = key_width * wide,
                    kt_alpha = alpha\<rparr>)
      in \<lparr>pk_centre = (lm_origin_x metrics + kg_x geometry * scale, lm_origin_y metrics + kg_y geometry * scale),
          pk_angle = to_radians T (kg_rotation geometry),
          pk_size = (key_width, key_height), pk_radius = 18 * scale, pk_shadow = (2 * scale, 3 * scale),
          pk_fill =
            (if selected then Teal
             else if parse_tap_hold label \<noteq> None then Green
             else if is_layer_label label then Yellow
             else if label = ''___'' then Surface0
             else Surface1),
          pk_outline = (if selected then (Green, 36 / 10 * scale) else (Red, 24 / 10 * scale)),
          pk_text_color =
            (if selected \<or> is_layer_label label \<or> parse_tap_hold label \<noteq> None then Crust
             else if label = ''___'' then Overlay0 else Text),
          pk_texts =
            (case parse_tap_hold label of
               Some (hold, tap) \<Rightarrow>
                 [text tap (- key_height * (16 / 100)) (23 / 100) (76 / 100) 1,
                  text (hold_action_label hold) (key_height * (10 / 100)) (15 / 100) (76 / 100) 1]
             | None \<Rightarrow> [text (editor_qmk_tap_to_label label) (- key_height * (4 / 100)) (25 / 100) (76 / 100) 1]) @
            [text (show_nat (index + 1)) (key_height * (31 / 100)) (11 / 100) (70 / 100) (62 / 100)]\<rparr>)"

text \<open>\<open>draw_keyboard\<close>: \<open>None\<close> is the panic of an index out of range.\<close>

definition paint_keyboard :: "trig \<Rightarrow> editor \<Rightarrow> rat \<Rightarrow> rat \<Rightarrow> painted_key list option" where
  "paint_keyboard T ed width height =
     Option.bind (list_get (ed_layers ed) (ed_current ed)) (\<lambda>layer.
     those (map (\<lambda>index. map_option
         (\<lambda>label. paint_key T (editor_layout_metrics width height) (KEY_GEOMETRY ! index) index label (ed_selected ed = Some index))
         (list_get (el_keys layer) index))
       [0..<length KEY_GEOMETRY]))"

section \<open>Every key can be clicked\<close>

lemma KEY_GEOMETRY_length: "length KEY_GEOMETRY = KEY_COUNT"
  by (simp add: KEY_GEOMETRY_def KEY_COUNT_def)

text \<open>
  The centres lie so far apart that no other key reaches within 25 units of a centre. This is
  computed with the tenths of the table, a key being its centre and size.
\<close>

definition key_tenths :: "(int \<times> int \<times> int \<times> int) list" where
  "key_tenths =
     [(535, 825, 730, 730), (1325, 825, 730, 730), (2115, 725, 730, 730), (2900, 625, 730, 730),
      (3685, 725, 730, 730), (4475, 825, 730, 730), (7545, 825, 730, 730), (8330, 725, 730, 730),
      (9115, 625, 730, 730), (9905, 725, 730, 730), (10695, 825, 730, 730), (11485, 825, 730, 730),
      (535, 1615, 730, 730), (1325, 1615, 730, 730), (2115, 1515, 730, 730), (2900, 1415, 730, 730),
      (3685, 1515, 730, 730), (4475, 1615, 730, 730), (7545, 1615, 730, 730), (8330, 1515, 730, 730),
      (9125, 1415, 730, 730), (9905, 1515, 730, 730), (10695, 1615, 730, 730), (11485, 1615, 730, 730),
      (535, 2405, 730, 730), (1325, 2405, 730, 730), (2115, 2305, 730, 730), (2900, 2205, 730, 730),
      (3685, 2305, 730, 730), (4475, 2405, 730, 730), (7545, 2405, 730, 730), (8330, 2305, 730, 730),
      (9125, 2205, 730, 730), (9905, 2305, 730, 730), (10695, 2405, 730, 730), (11485, 2405, 730, 730),
      (535, 3190, 730, 730), (1325, 3190, 730, 730), (2115, 3095, 730, 730), (2900, 2985, 730, 730),
      (3685, 3095, 730, 730), (4475, 3190, 730, 730), (7545, 3190, 730, 730), (8330, 3095, 730, 730),
      (9125, 2985, 730, 730), (9905, 3095, 730, 730), (10695, 3190, 730, 730), (11485, 3190, 730, 730),
      (3035, 3965, 730, 730), (3983, 4140, 740, 740), (4927, 4430, 745, 1095), (7090, 4430, 745, 1095),
      (8034, 4137, 740, 740), (8975, 3965, 730, 730)]"

fun tenths_clear :: "int \<times> int \<times> int \<times> int \<Rightarrow> int \<times> int \<times> int \<times> int \<Rightarrow> bool" where
  "tenths_clear (x, y, w, h) (x', y', w', h') \<longleftrightarrow>
     1500000 + 3 * (w' * w' + h' * h') < 8 * ((x - x') * (x - x') + (y - y') * (y - y'))"

fun all_clear :: "(int \<times> int \<times> int \<times> int) list \<Rightarrow> bool" where
  "all_clear [] = True"
| "all_clear (k # ks) \<longleftrightarrow> list_all (\<lambda>k'. tenths_clear k' k) ks \<and> all_clear ks"

lemma key_tenths_clear: "all_clear key_tenths"
  by code_simp

lemma key_tenths_large: "list_all (\<lambda>(x, y, w, h). 500 \<le> w \<and> 500 \<le> h) key_tenths"
  by code_simp

lemma all_clear_nth: "all_clear ks \<Longrightarrow> j < i \<Longrightarrow> i < length ks \<Longrightarrow> tenths_clear (ks ! i) (ks ! j)"
proof (induction ks arbitrary: i j)
  case (Cons k ks)
  then show ?case by (cases i; cases j) (auto simp: list_all_length)
qed simp

lemma key_tenths_exact:
  "map (\<lambda>k. (10 * kg_x k, 10 * kg_y k, 10 * kg_width k, 10 * kg_height k)) KEY_GEOMETRY =
   map (\<lambda>(x, y, w, h). (of_int x, of_int y, of_int w, of_int h)) key_tenths"
  by (simp add: KEY_GEOMETRY_def key_tenths_def key_square_def key_rotated_def)

lemma key_tenths_nth:
  assumes "i < KEY_COUNT" "key_tenths ! i = (x, y, w, h)"
  shows "kg_x (KEY_GEOMETRY ! i) = of_int x / 10" "kg_y (KEY_GEOMETRY ! i) = of_int y / 10"
    "kg_width (KEY_GEOMETRY ! i) = of_int w / 10" "kg_height (KEY_GEOMETRY ! i) = of_int h / 10" "i < length key_tenths"
proof -
  have len: "length key_tenths = KEY_COUNT"
    using arg_cong [OF key_tenths_exact, of length] by (simp add: KEY_GEOMETRY_length)
  then show "i < length key_tenths" using assms(1) by simp
  have "map (\<lambda>k. (10 * kg_x k, 10 * kg_y k, 10 * kg_width k, 10 * kg_height k)) KEY_GEOMETRY ! i =
      map (\<lambda>(x, y, w, h). (of_int x, of_int y, of_int w, of_int h)) key_tenths ! i"
    by (simp only: key_tenths_exact)
  then show "kg_x (KEY_GEOMETRY ! i) = of_int x / 10" "kg_y (KEY_GEOMETRY ! i) = of_int y / 10"
    "kg_width (KEY_GEOMETRY ! i) = of_int w / 10" "kg_height (KEY_GEOMETRY ! i) = of_int h / 10"
    using assms by (simp_all add: KEY_GEOMETRY_length len field_simps)
qed

lemma key_far:
  assumes "j < i" "i < KEY_COUNT"
  shows "1875 + 3 / 8 * ((kg_width (KEY_GEOMETRY ! j))\<^sup>2 + (kg_height (KEY_GEOMETRY ! j))\<^sup>2) <
    (kg_x (KEY_GEOMETRY ! i) - kg_x (KEY_GEOMETRY ! j))\<^sup>2 + (kg_y (KEY_GEOMETRY ! i) - kg_y (KEY_GEOMETRY ! j))\<^sup>2"
proof -
  obtain x y w h x' y' w' h' where k: "key_tenths ! i = (x, y, w, h)" "key_tenths ! j = (x', y', w', h')"
    by (metis surj_pair)
  have j: "j < KEY_COUNT" using assms by simp
  have "tenths_clear (x, y, w, h) (x', y', w', h')"
    using all_clear_nth [OF key_tenths_clear assms(1) key_tenths_nth(5) [OF assms(2) k(1)]] by (simp add: k)
  then have "rat_of_int (1500000 + 3 * (w' * w' + h' * h')) < rat_of_int (8 * ((x - x') * (x - x') + (y - y') * (y - y')))"
    by (simp only: of_int_less_iff tenths_clear.simps)
  then show ?thesis
    by (simp add: key_tenths_nth [OF assms(2) k(1)] key_tenths_nth [OF j k(2)] power2_eq_square field_simps)
qed

lemma key_large:
  assumes "i < KEY_COUNT"
  shows "50 \<le> kg_width (KEY_GEOMETRY ! i)" "50 \<le> kg_height (KEY_GEOMETRY ! i)"
proof -
  obtain x y w h where k: "key_tenths ! i = (x, y, w, h)" by (metis surj_pair)
  note n = key_tenths_nth [OF assms k]
  have "500 \<le> w" "500 \<le> h" using key_tenths_large n(5) k by (fastforce simp: list_all_length)+
  then have "rat_of_int 500 \<le> rat_of_int w" "rat_of_int 500 \<le> rat_of_int h" by (simp_all only: of_int_le_iff)
  then show "50 \<le> kg_width (KEY_GEOMETRY ! i)" "50 \<le> kg_height (KEY_GEOMETRY ! i)" by (simp_all add: n)
qed

text \<open>Turning a vector keeps its length.\<close>

lemma turned_length:
  fixes c s :: rat
  assumes "c\<^sup>2 + s\<^sup>2 = 1"
  shows "(dx * c - dy * s)\<^sup>2 + (dx * s + dy * c)\<^sup>2 = dx\<^sup>2 + dy\<^sup>2"
proof -
  have "(dx * c - dy * s)\<^sup>2 + (dx * s + dy * c)\<^sup>2 = (dx\<^sup>2 + dy\<^sup>2) * (c\<^sup>2 + s\<^sup>2)"
    by (simp add: power2_eq_square algebra_simps)
  then show ?thesis by (simp add: assms)
qed

lemma abs_le_of_square:
  fixes a b :: rat
  assumes "a\<^sup>2 + b\<^sup>2 \<le> r\<^sup>2" "0 \<le> r"
  shows "\<bar>a\<bar> \<le> r" "\<bar>b\<bar> \<le> r"
proof -
  have "a\<^sup>2 \<le> r\<^sup>2" "b\<^sup>2 \<le> r\<^sup>2" using assms(1) zero_le_power2 [of a] zero_le_power2 [of b] by linarith+
  then show "\<bar>a\<bar> \<le> r" "\<bar>b\<bar> \<le> r" using assms(2) by (simp_all add: abs_le_square_iff [symmetric])
qed

lemma triangle_squares:
  fixes ux uy vx vy :: rat
  shows "(vx - ux)\<^sup>2 + (vy - uy)\<^sup>2 \<le> 3 * (ux\<^sup>2 + uy\<^sup>2) + 3 / 2 * (vx\<^sup>2 + vy\<^sup>2)"
proof -
  have "0 \<le> (2 * ux + vx)\<^sup>2 / 2 + (2 * uy + vy)\<^sup>2 / 2" by simp
  then show ?thesis by (simp add: power2_eq_square field_simps)
qed

definition key_centre :: "layout_metrics \<Rightarrow> nat \<Rightarrow> rat \<times> rat" where
  "key_centre metrics i =
     (lm_origin_x metrics + kg_x (KEY_GEOMETRY ! i) * lm_scale metrics,
      lm_origin_y metrics + kg_y (KEY_GEOMETRY ! i) * lm_scale metrics)"

lemma key_hit_near:
  assumes law: "\<And>a. (cosine T a)\<^sup>2 + (sine T a)\<^sup>2 = 1" and s: "0 < lm_scale metrics"
    and "i < KEY_COUNT" "key_centre metrics i = (cx, cy)" "(x - cx)\<^sup>2 + (y - cy)\<^sup>2 \<le> (25 * lm_scale metrics)\<^sup>2"
  shows "key_hit T x y metrics (KEY_GEOMETRY ! i)"
proof -
  let ?a = "- to_radians T (kg_rotation (KEY_GEOMETRY ! i))"
  have "((x - cx) * cosine T ?a - (y - cy) * sine T ?a)\<^sup>2 + ((x - cx) * sine T ?a + (y - cy) * cosine T ?a)\<^sup>2
      \<le> (25 * lm_scale metrics)\<^sup>2"
    using assms(5) by (simp only: turned_length [OF law])
  note abs_le_of_square [OF this]
  then have "\<bar>(x - cx) * cosine T ?a - (y - cy) * sine T ?a\<bar> \<le> 25 * lm_scale metrics"
    "\<bar>(x - cx) * sine T ?a + (y - cy) * cosine T ?a\<bar> \<le> 25 * lm_scale metrics"
    using s by simp_all
  moreover have "25 * lm_scale metrics \<le> kg_width (KEY_GEOMETRY ! i) * lm_scale metrics / 2"
    "25 * lm_scale metrics \<le> kg_height (KEY_GEOMETRY ! i) * lm_scale metrics / 2"
    using mult_right_mono [OF key_large(1) [OF assms(3)], of "lm_scale metrics"]
      mult_right_mono [OF key_large(2) [OF assms(3)], of "lm_scale metrics"] s by simp_all
  ultimately show ?thesis
    using assms(4) by (auto simp: key_hit_def key_centre_def Let_def)
qed

lemma key_not_hit:
  assumes law: "\<And>a. (cosine T a)\<^sup>2 + (sine T a)\<^sup>2 = 1" and s: "0 < lm_scale metrics"
    and ij: "j < i" "i < KEY_COUNT" and c: "key_centre metrics i = (cx, cy)"
    and near: "(x - cx)\<^sup>2 + (y - cy)\<^sup>2 \<le> (25 * lm_scale metrics)\<^sup>2"
  shows "\<not> key_hit T x y metrics (KEY_GEOMETRY ! j)"
proof
  assume hit: "key_hit T x y metrics (KEY_GEOMETRY ! j)"
  let ?a = "- to_radians T (kg_rotation (KEY_GEOMETRY ! j))" and ?s = "lm_scale metrics"
    and ?w = "kg_width (KEY_GEOMETRY ! j)" and ?h = "kg_height (KEY_GEOMETRY ! j)"
  obtain cx' cy' where c': "key_centre metrics j = (cx', cy')" by fastforce
  have "\<bar>(x - cx') * cosine T ?a - (y - cy') * sine T ?a\<bar> \<le> ?w * ?s / 2"
    "\<bar>(x - cx') * sine T ?a + (y - cy') * cosine T ?a\<bar> \<le> ?h * ?s / 2"
    using hit c' by (auto simp: key_hit_def key_centre_def Let_def)
  then have "((x - cx') * cosine T ?a - (y - cy') * sine T ?a)\<^sup>2 \<le> (?w * ?s / 2)\<^sup>2"
    "((x - cx') * sine T ?a + (y - cy') * cosine T ?a)\<^sup>2 \<le> (?h * ?s / 2)\<^sup>2"
    by (simp_all add: abs_le_square_iff [symmetric])
  then have far: "(x - cx')\<^sup>2 + (y - cy')\<^sup>2 \<le> (?w\<^sup>2 + ?h\<^sup>2) * ?s\<^sup>2 / 4"
    using turned_length [OF law [of ?a], of "x - cx'" "y - cy'"]
    by (simp add: power_mult_distrib power_divide distrib_right add_divide_distrib)
  have "(cx - cx')\<^sup>2 + (cy - cy')\<^sup>2 = ((x - cx') - (x - cx))\<^sup>2 + ((y - cy') - (y - cy))\<^sup>2" by simp
  also have "\<dots> \<le> 3 * ((x - cx)\<^sup>2 + (y - cy)\<^sup>2) + 3 / 2 * ((x - cx')\<^sup>2 + (y - cy')\<^sup>2)" by (rule triangle_squares)
  also have "\<dots> \<le> 3 * (25 * ?s)\<^sup>2 + 3 / 2 * ((?w\<^sup>2 + ?h\<^sup>2) * ?s\<^sup>2 / 4)"
    using near far by (intro add_mono mult_left_mono) simp_all
  also have "\<dots> = (1875 + 3 / 8 * (?w\<^sup>2 + ?h\<^sup>2)) * ?s\<^sup>2" by (simp add: power_mult_distrib algebra_simps)
  also have "\<dots> < ((kg_x (KEY_GEOMETRY ! i) - kg_x (KEY_GEOMETRY ! j))\<^sup>2 +
      (kg_y (KEY_GEOMETRY ! i) - kg_y (KEY_GEOMETRY ! j))\<^sup>2) * ?s\<^sup>2"
    using key_far [OF ij] s by (intro mult_strict_right_mono) simp_all
  also have "\<dots> = (cx - cx')\<^sup>2 + (cy - cy')\<^sup>2"
    using c c' by (auto simp: key_centre_def power2_eq_square algebra_simps)
  finally show False by simp
qed

text \<open>
  C34: Every key can be clicked. Whatever the size of the widget, a click within 25 units of the
  reference drawing of the centre of a key, two thirds of the way to its edge, selects that
  key and no other, also among the turned keys; of the sine and cosine only that their
  squares add up to one is used.
\<close>
theorem click_selects_key:
  assumes "\<And>a. (cosine T a)\<^sup>2 + (sine T a)\<^sup>2 = 1" "i < KEY_COUNT"
    and "metrics = editor_layout_metrics (of_int (max width 1)) (of_int (max height 1))"
    and "key_centre metrics i = (cx, cy)" "(x - cx)\<^sup>2 + (y - cy)\<^sup>2 \<le> (25 * lm_scale metrics)\<^sup>2"
  shows "click T width height (Some (x, y)) ed = select_key i ed"
proof -
  have s: "0 < lm_scale metrics" unfolding assms(3) editor_layout_metrics_def Let_def by (simp add: less_max_iff_disj)
  have "hit_test T x y metrics = Some i"
    unfolding hit_test_def find_Some_iff
    using key_hit_near [OF assms(1) s assms(2,4,5)] key_not_hit [OF assms(1) s _ assms(2,4,5)] assms(2)
    by (intro exI [of _ i]) (auto simp: KEY_GEOMETRY_length)
  then show ?thesis using assms(3) by (simp add: click_def on_button_press_def)
qed

theorem click_selects_key_witness:
  "\<forall>ed. click \<lparr>to_radians = (\<lambda>d. d), cosine = (\<lambda>a. 3 / 5), sine = (\<lambda>a. 4 / 5)\<rparr> 1209 529 (Some (500, 450)) ed = select_key 50 ed"
proof
  fix ed
  let ?T = "\<lparr>to_radians = (\<lambda>d. d), cosine = (\<lambda>a. 3 / 5), sine = (\<lambda>a. 4 / 5 :: rat)\<rparr>"
  have m: "editor_layout_metrics (of_int (max 1209 1)) (of_int (max 529 1)) =
      \<lparr>lm_origin_x = 0, lm_origin_y = 0, lm_scale = 1\<rparr>"
    by (simp add: editor_layout_metrics_def REF_WIDTH_def REF_HEIGHT_def)
  have "key_centre \<lparr>lm_origin_x = 0, lm_origin_y = 0, lm_scale = 1\<rparr> 50 = (4927 / 10, 443)"
    by (simp add: key_centre_def KEY_GEOMETRY_def key_square_def key_rotated_def)
  from click_selects_key [of ?T 50 _ 1209 529, OF _ _ m [symmetric] this, of 500 450 ed]
  show "click ?T 1209 529 (Some (500, 450)) ed = select_key 50 ed"
    by (simp add: KEY_COUNT_def power2_eq_square)
qed

end
