(* ===== verification/Editor_Window.thy ===== *)
theory Editor_Window
  imports Editor_Drawing Editor_Main
begin

text \<open>
  The window of \<open>pkgs/keymap-editor/main.rs\<close>: the widgets \<open>run_gui\<close> packs, the callbacks it
  connects to their signals, and the preview that \<open>--render-png\<close> writes. A gesture of the
  user reaches the handlers through the table of connections, as GTK delivers a signal; the
  text of an entry and the row of a selector are kept by GTK itself. The theme, the
  alignment of labels and the size of entries have no effect on the handlers.
\<close>

section \<open>Widgets\<close>

datatype control =
    LayerSelector
  | SaveButton
  | ApplyLiveButton
  | ReloadButton
  | ValidateButton
  | KeyboardArea
  | SelectedLabel
  | LabelEntry
  | ApplyButton
  | QuickButton string
  | Caption string
  | TapEntry
  | HoldSelector
  | ApplyTapHoldButton
  | SettingName nat string
  | SettingEntry nat
  | StatusLine

datatype orientation = Vertical | Horizontal

text \<open>A box has an orientation, a spacing, and children that may expand; a cell has its column and row.\<close>

datatype widget =
    Control control
  | Box orientation nat "(widget \<times> bool) list"
  | Grid "(widget \<times> nat \<times> nat) list"
  | Expander string widget

definition QUICK_LABELS :: "string list" where
  "QUICK_LABELS =
     [''___'', ''Esc'', ''Tab'', ''Bspc'', ''Space'', ''Enter'', ''Shift'', ''Ctrl'', ''GUI'', ''Num'', ''Nav'', ''Sym'',
      ''Boot'']"

definition packed :: "control list \<Rightarrow> (widget \<times> bool) list" where
  "packed controls = map (\<lambda>c. (Control c, False)) controls"

definition setting_cells :: "nat \<times> string \<Rightarrow> (widget \<times> nat \<times> nat) list" where
  "setting_cells = (\<lambda>(index, name).
     [(Control (SettingName index name), index mod 2 * 2, index div 2),
      (Control (SettingEntry index), index mod 2 * 2 + 1, index div 2)])"

definition window_tree :: "string list \<Rightarrow> widget" where
  "window_tree settings =
     Box Vertical 12
       [(Box Horizontal 8 (packed [LayerSelector, SaveButton, ApplyLiveButton, ReloadButton, ValidateButton]), False),
        (Control KeyboardArea, True),
        (Box Horizontal 8 (packed ([SelectedLabel, LabelEntry, ApplyButton] @ map QuickButton QUICK_LABELS)), False),
        (Box Horizontal 8 (packed [Caption ''Tap / hold:'', Caption ''Tap'', TapEntry, Caption ''Hold'', HoldSelector,
           ApplyTapHoldButton]), False),
        (Expander ''QMK firmware settings (rebuild + flash required)''
           (Grid (concat (map setting_cells (enumerate 0 settings)))), False),
        (Control StatusLine, False)]"

fun controls_of :: "widget \<Rightarrow> control list" where
  "controls_of (Control c) = [c]"
| "controls_of (Box orientation spacing children) = concat (map (\<lambda>(w, _). controls_of w) children)"
| "controls_of (Grid cells) = concat (map (\<lambda>(w, _). controls_of w) cells)"
| "controls_of (Expander title w) = controls_of w"

section \<open>Signals\<close>

datatype signal = Draw | ButtonPressEvent | KeyPressEvent | Changed | Clicked | Activate

datatype callback =
    OnDraw
  | OnButtonPress
  | OnKeyPress
  | OnLayerChanged
  | OnSave
  | OnApplyLive
  | OnReload
  | OnValidate
  | OnApply
  | OnApplyTapHold
  | OnQuickLabel string

definition connections :: "(control \<times> signal \<times> callback) list" where
  "connections =
     [(KeyboardArea, Draw, OnDraw),
      (KeyboardArea, ButtonPressEvent, OnButtonPress),
      (KeyboardArea, KeyPressEvent, OnKeyPress),
      (LayerSelector, Changed, OnLayerChanged),
      (SaveButton, Clicked, OnSave),
      (ApplyLiveButton, Clicked, OnApplyLive),
      (ReloadButton, Clicked, OnReload),
      (ValidateButton, Clicked, OnValidate),
      (ApplyButton, Clicked, OnApply),
      (LabelEntry, Activate, OnApply),
      (ApplyTapHoldButton, Clicked, OnApplyTapHold),
      (TapEntry, Activate, OnApplyTapHold)] @
     map (\<lambda>label. (QuickButton label, Clicked, OnQuickLabel (cstring label))) QUICK_LABELS"

text \<open>What the user does: with the allocation of the drawing area where the coordinates matter.\<close>

datatype gesture =
    Click control
  | Confirm control
  | PressAt int int "(rat \<times> rat) option"
  | PressKey int
  | PickLayer int
  | EditLabel string
  | EditTap string
  | PickHold int
  | EditSetting nat string

fun gesture_signal :: "gesture \<Rightarrow> (control \<times> signal) option" where
  "gesture_signal (Click c) = Some (c, Clicked)"
| "gesture_signal (Confirm c) = Some (c, Activate)"
| "gesture_signal (PressAt w h coords) = Some (KeyboardArea, ButtonPressEvent)"
| "gesture_signal (PressKey keyval) = Some (KeyboardArea, KeyPressEvent)"
| "gesture_signal (PickLayer row) = Some (LayerSelector, Changed)"
| "gesture_signal _ = None"

fun callback_event :: "trig \<Rightarrow> gesture \<Rightarrow> callback \<Rightarrow> editor_event option" where
  "callback_event T (PressAt w h (Some (x, y))) OnButtonPress =
     Some (ButtonPress (hit_test T x y (editor_layout_metrics (of_int (max w 1)) (of_int (max h 1)))))"
| "callback_event T (PressKey keyval) OnKeyPress = Some (KeyPress keyval)"
| "callback_event T (PickLayer row) OnLayerChanged = Some (LayerChanged row)"
| "callback_event T g OnSave = Some Save"
| "callback_event T g OnApplyLive = Some ApplyLive"
| "callback_event T g OnReload = Some Reload"
| "callback_event T g OnValidate = Some Validate"
| "callback_event T g OnApply = Some Apply"
| "callback_event T g OnApplyTapHold = Some ApplyTapHold"
| "callback_event T g (OnQuickLabel label) = Some (QuickLabel label)"
| "callback_event T g _ = None"

fun kept_by_gtk :: "gesture \<Rightarrow> editor_event option" where
  "kept_by_gtk (EditLabel text) = Some (TypeEntry text)"
| "kept_by_gtk (EditTap text) = Some (TypeTap text)"
| "kept_by_gtk (PickHold row) = Some (ChooseHold row)"
| "kept_by_gtk (EditSetting index text) = Some (TypeField index text)"
| "kept_by_gtk _ = None"

definition window_events :: "trig \<Rightarrow> gesture \<Rightarrow> editor_event list" where
  "window_events T g =
     (case gesture_signal g of
        Some (c, s) \<Rightarrow>
          List.map_filter (\<lambda>(_, _, callback). callback_event T g callback)
            (filter (\<lambda>(c', s', _). c' = c \<and> s' = s) connections)
      | None \<Rightarrow> (case kept_by_gtk g of Some e \<Rightarrow> [e] | None \<Rightarrow> []))"

text \<open>The rows that \<open>populate_combo\<close> and \<open>populate_hold_combo\<close> put into the two selectors.\<close>

definition populate_combo :: "editor_layer list \<Rightarrow> string list" where
  "populate_combo ls = map (\<lambda>layer. cstring (el_name layer)) ls"

definition populate_hold_combo :: "editor_layer list \<Rightarrow> string list" where
  "populate_hold_combo ls =
     [cstring ''None (tap only)''] @ map (\<lambda>modifier. cstring (hold_label modifier)) HOLD_MODIFIERS @
     map (\<lambda>layer. cstring (''Layer: '' @ el_name layer)) (take 16 ls)"

text \<open>The state after \<open>run_gui\<close> has shown the window and the user has done some gestures.\<close>

definition run_gui ::
  "trig \<Rightarrow> editor_env \<Rightarrow> editor_layer list \<Rightarrow> qmk_setting list \<Rightarrow> editor_disk \<Rightarrow> (editor_env \<times> gesture) list \<Rightarrow>
   (editor \<times> editor_disk) option" where
  "run_gui T env ls settings disk gestures =
     foldl editor_step (Some (initial_editor env ls settings, disk))
       (concat (map (\<lambda>(env, g). map (\<lambda>e. (env, e)) (window_events T g)) gestures))"

definition on_draw :: "trig \<Rightarrow> int \<Rightarrow> int \<Rightarrow> editor \<Rightarrow> painted_key list option" where
  "on_draw T allocated_width allocated_height ed =
     paint_keyboard T ed (of_int (max allocated_width 1)) (of_int (max allocated_height 1))"

section \<open>The preview\<close>

text \<open>
  \<open>surface\<close> and \<open>context\<close> tell whether cairo could create them, \<open>write_png\<close> whether the
  drawing was written. The outer \<open>None\<close> is a panic while drawing.
\<close>

definition preview_editor :: "editor_layer list \<Rightarrow> editor" where
  "preview_editor ls =
     \<lparr>ed_layers = ls, ed_current = 0, ed_selected = Some 0, ed_selector = 0, ed_status = Loaded, ed_title = [],
      ed_entry = [], ed_tap = [], ed_hold = 0, ed_fields = []\<rparr>"

definition render_preview_png ::
  "trig \<Rightarrow> bool \<Rightarrow> bool \<Rightarrow> (string \<Rightarrow> painted_key list \<Rightarrow> bool) \<Rightarrow> string \<Rightarrow> editor_layer list \<Rightarrow> (string, unit) res option" where
  "render_preview_png T surface context write_png path ls =
     (if \<not> surface then Some (Inl ''Could not create Cairo image surface'')
      else if \<not> context then Some (Inl ''Could not create Cairo context'')
      else
        map_option (\<lambda>drawn. if write_png (cstring path) drawn then Inr () else Inl (''Could not write '' @ path))
          (paint_keyboard T (preview_editor ls) REF_WIDTH REF_HEIGHT))"

section \<open>Lemmas\<close>

lemma paint_shape:
  assumes "ed_current ed < length (ed_layers ed)" "length (el_keys (ed_layers ed ! ed_current ed)) = KEY_COUNT"
  shows "paint_keyboard T ed w h = Some (map (\<lambda>i. paint_key T (editor_layout_metrics w h) (KEY_GEOMETRY ! i) i
      (el_keys (ed_layers ed ! ed_current ed) ! i) (ed_selected ed = Some i)) [0..<KEY_COUNT])"
proof -
  have layer: "list_get (ed_layers ed) (ed_current ed) = Some (ed_layers ed ! ed_current ed)" using assms(1) by simp
  show ?thesis
    unfolding paint_keyboard_def KEY_GEOMETRY_length layer Option.bind.bind_lunit
    by (rule those_map_Some) (simp add: list_get_def assms(2))
qed

lemma quick_connection:
  "distinct ls \<Longrightarrow> l \<in> set ls \<Longrightarrow>
   filter (\<lambda>(c', s', _). c' = QuickButton l \<and> s' = Clicked) (map (\<lambda>label. (QuickButton label, Clicked, OnQuickLabel (cstring label))) ls) =
   [(QuickButton l, Clicked, OnQuickLabel (cstring l))]"
proof (induction ls)
  case (Cons k ls)
  have "filter (\<lambda>(c', s', _). c' = QuickButton l \<and> s' = Clicked) (map (\<lambda>label. (QuickButton label, Clicked, OnQuickLabel (cstring label))) ls) = []"
    if "l \<notin> set ls" using that by (auto simp: filter_empty_conv)
  with Cons show ?case by auto
qed simp

lemma quick_events:
  assumes "l \<in> set QUICK_LABELS"
  shows "window_events T (Click (QuickButton l)) = [QuickLabel l]"
proof -
  have "list_all (\<lambda>l. cstring l = l) QUICK_LABELS" "distinct QUICK_LABELS" by code_simp+
  then have "cstring l = l" and "distinct QUICK_LABELS" using assms by (auto simp: list_all_iff)
  then have found: "filter (\<lambda>(c', s', _). c' = QuickButton l \<and> s' = Clicked) connections =
      [(QuickButton l, Clicked, OnQuickLabel (cstring l))]"
    unfolding connections_def filter_append quick_connection [OF \<open>distinct QUICK_LABELS\<close> assms] by simp
  show ?thesis
    unfolding window_events_def gesture_signal.simps option.case prod.case found
    by (simp add: map_filter_def \<open>cstring l = l\<close>)
qed

lemma session_ok:
  assumes "parse_layers doc = Inr ls" "distinct (map setting_path settings)"
  shows "editor_running (run_gui T env ls settings disk gestures)"
  unfolding run_gui_def
  by (rule editor_window.run_inv) (simp add: initial_editor_ok [OF assms])

lemma setting_controls:
  "concat (map (\<lambda>(w, _). controls_of w) (concat (map setting_cells settings))) =
   concat (map (\<lambda>(i, name). [SettingName i name, SettingEntry i]) settings)"
  by (induction settings) (auto simp: setting_cells_def)

lemma setting_controls_distinct:
  "distinct (concat (map (\<lambda>(i, name). [SettingName i name, SettingEntry i]) (enumerate n names)))"
proof (induction names arbitrary: n)
  case (Cons name names)
  have "(i, m) \<in> set (enumerate (Suc n) names) \<Longrightarrow> i \<noteq> n" for i m
    using in_set_enumerate_eq [of "(i, m)" "Suc n" names] by auto
  then show ?case using Cons.IH [of "Suc n"] by auto
qed simp

text \<open>
  What a row of the hold selector says is what choosing it means: the row's text is that of the
  modifier or of the layer that \<open>on_apply_tap_hold\<close> takes for the row, and such a layer exists.
\<close>
theorem hold_rows_say_what_they_do:
  assumes "row < length (populate_hold_combo ls)"
  shows "populate_hold_combo ls ! row = cstring (case hold_of_row (int row) of
      None \<Rightarrow> ''None (tap only)'' | Some (Inl modifier) \<Rightarrow> hold_label modifier
    | Some (Inr i) \<Rightarrow> ''Layer: '' @ el_name (ls ! i))" (is ?text)
    and "hold_of_row (int row) = Some (Inr i) \<Longrightarrow> i < length ls"
proof -
  consider "row < 5" | i where "row = 5 + i" "i < length ls" "i < 16"
    using assms by (cases "row < 5") (auto simp: populate_hold_combo_def HOLD_MODIFIERS_def dest: le_Suc_ex [OF leI])
  then have "?text \<and> (\<forall>i. hold_of_row (int row) = Some (Inr i) \<longrightarrow> i < length ls)"
  proof cases
    case 1
    then have "row = 0 \<or> row = 1 \<or> row = 2 \<or> row = 3 \<or> row = 4" by linarith
    then show ?thesis
      by (auto simp: populate_hold_combo_def HOLD_MODIFIERS_def hold_of_row_def hold_modifier_for_combo_def
          hold_layer_for_combo_def list_get_def)
  next
    case (2 i)
    have "hold_of_row (int row) = Some (Inr i)"
      using hold_layer_row [of i] 2 by (simp add: hold_of_row_def hold_layer_combo_index_def HOLD_MODIFIERS_def)
    then show ?thesis
      using 2 by (auto simp: populate_hold_combo_def HOLD_MODIFIERS_def nth_append)
  qed
  then show ?text and "hold_of_row (int row) = Some (Inr i) \<Longrightarrow> i < length ls" by blast+
qed

section \<open>Properties\<close>

text \<open>
  C32: Whatever the user does in the window, it keeps showing the keyboard. Once \<open>main\<close> opens
  it on a file, after any sequence of clicks, keys, typed texts and choices, in any
  surroundings, no handler has panicked, and drawing at any allocation, even an empty one,
  paints all 54 keys with the labels of the layer being edited, the selected one marked.
\<close>
theorem window_session_draws:
  assumes "editor_main read_json args = RunGui path ls settings" "distinct (map setting_path settings)"
  shows "\<exists>ed disk'. run_gui T env ls settings disk gestures = Some (ed, disk') \<and>
    on_draw T width height ed = Some (map (\<lambda>i.
        paint_key T (editor_layout_metrics (of_int (max width 1)) (of_int (max height 1))) (KEY_GEOMETRY ! i) i
          (el_keys (ed_layers ed ! ed_current ed) ! i) (ed_selected ed = Some i)) [0..<KEY_COUNT])"
proof -
  obtain doc where "parse_layers doc = Inr ls"
    using assms(1) by (auto simp: editor_main_def Let_def split: if_splits sum.splits option.splits)
  from session_ok [OF this assms(2)] obtain ed disk' where run: "run_gui T env ls settings disk gestures = Some (ed, disk')"
      and ok: "editor_ok ed"
    unfolding editor_running_def by blast
  have "ed_current ed < length (ed_layers ed)" using ok by (simp add: editor_ok_def)
  from paint_shape [OF this current_layer_ok(2) [OF ok]] run show ?thesis by (auto simp: on_draw_def)
qed

lemma window_session_draws_witness:
  "\<exists>ed disk'. run_gui quarter_turns sample_env sample_layers sample_settings sample_disk
      [(sample_env, PressKey 97), (sample_env, EditLabel ''KC_B''), (sample_env, Click ApplyButton), (sample_env, Click SaveButton)] =
      Some (ed, disk') \<and>
    on_draw quarter_turns 0 0 ed = Some (map (\<lambda>i.
        paint_key quarter_turns (editor_layout_metrics (of_int (max 0 1)) (of_int (max 0 1))) (KEY_GEOMETRY ! i) i
          (el_keys (ed_layers ed ! ed_current ed) ! i) (ed_selected ed = Some i)) [0..<KEY_COUNT])"
proof (rule window_session_draws [of "\<lambda>_. Inr sample_doc"])
  show "editor_main (\<lambda>_. Inr sample_doc)
      \<lparr>ea_keymap_path = ''configuration.json'', ea_print_path = False, ea_validate_only = False, ea_render_png = None\<rparr> =
      RunGui ''configuration.json'' sample_layers sample_settings"
    by (simp add: editor_main_def sample_loads)
qed (rule sample_distinct)

text \<open>
  The window is wired as it looks: every control stands in the window once, every connected
  control is in the window and has one callback per signal, and each button does what its
  label says.
\<close>
theorem controls_wired:
  "distinct (controls_of (window_tree settings)) \<and>
   set (map fst connections) \<subseteq> set (controls_of (window_tree settings)) \<and>
   distinct (map (\<lambda>(c, s, _). (c, s)) connections) \<and>
   map (window_events T \<circ> Click) [SaveButton, ApplyLiveButton, ReloadButton, ValidateButton, ApplyButton, ApplyTapHoldButton] =
     [[Save], [ApplyLive], [Reload], [Validate], [Apply], [ApplyTapHold]] \<and>
   map (window_events T \<circ> Click \<circ> QuickButton) QUICK_LABELS = map (\<lambda>label. [QuickLabel label]) QUICK_LABELS"
proof (intro conjI)
  have tree: "controls_of (window_tree settings) =
      [LayerSelector, SaveButton, ApplyLiveButton, ReloadButton, ValidateButton, KeyboardArea, SelectedLabel, LabelEntry,
       ApplyButton] @ map QuickButton QUICK_LABELS @
      [Caption ''Tap / hold:'', Caption ''Tap'', TapEntry, Caption ''Hold'', HoldSelector, ApplyTapHoldButton] @
      concat (map (\<lambda>(i, name). [SettingName i name, SettingEntry i]) (enumerate 0 settings)) @ [StatusLine]"
    by (simp add: window_tree_def packed_def setting_controls QUICK_LABELS_def)
  show "distinct (controls_of (window_tree settings))"
    unfolding tree using setting_controls_distinct [of 0 settings] by (auto simp: QUICK_LABELS_def)
  show "set (map fst connections) \<subseteq> set (controls_of (window_tree settings))"
    unfolding tree by (auto simp: connections_def)
  show "distinct (map (\<lambda>(c, s, _). (c, s)) connections)" by code_simp
  show "map (window_events T \<circ> Click) [SaveButton, ApplyLiveButton, ReloadButton, ValidateButton, ApplyButton, ApplyTapHoldButton] =
     [[Save], [ApplyLive], [Reload], [Validate], [Apply], [ApplyTapHold]]"
    by (simp add: window_events_def connections_def map_filter_def filter_map o_def)
  show "map (window_events T \<circ> Click \<circ> QuickButton) QUICK_LABELS = map (\<lambda>label. [QuickLabel label]) QUICK_LABELS"
    by (simp add: quick_events)
qed

text \<open>The labels of the quick buttons can be assigned as long as the layers they name exist.\<close>

lemma quick_labels_valid:
  "{''Num'', ''Nav'', ''Sym''} \<subseteq> set names \<Longrightarrow> list_all (\<lambda>label. valid_label label names) QUICK_LABELS"
  by (auto simp: QUICK_LABELS_def valid_label_def ALIASES_def)

text \<open>
  The preview is the picture of the window: for the layers of any file that loads,
  \<open>--render-png\<close> never panics, succeeds when cairo does, and writes the first layer at the
  reference size with its first key selected.
\<close>
theorem preview_drawn:
  assumes "parse_layers doc = Inr ls"
  shows "render_preview_png T True True write_png path ls =
    Some (if write_png (cstring path) (map (\<lambda>i. paint_key T (editor_layout_metrics REF_WIDTH REF_HEIGHT) (KEY_GEOMETRY ! i) i
        (el_keys (ls ! 0) ! i) (i = 0)) [0..<KEY_COUNT]) then Inr () else Inl (''Could not write '' @ path))"
proof -
  have "ls \<noteq> [] \<and> length (el_keys (ls ! 0)) = KEY_COUNT"
    using assms by (cases ls) (auto simp: parse_layers_def split: if_splits)
  then have "paint_keyboard T (preview_editor ls) REF_WIDTH REF_HEIGHT =
      Some (map (\<lambda>i. paint_key T (editor_layout_metrics REF_WIDTH REF_HEIGHT) (KEY_GEOMETRY ! i) i
        (el_keys (ls ! 0) ! i) (i = 0)) [0..<KEY_COUNT])"
    by (subst paint_shape) (auto simp: preview_editor_def)
  then show ?thesis by (simp add: render_preview_png_def)
qed

end
