(* ===== verification/Dashboard_Weather.thy ===== *)
theory Dashboard_Weather
  imports Rust_Text
begin

text \<open>
  The forecasts of \<open>pkgs/shrimpus-dashboard/src/main.rs\<close>: reading the first day of an
  Open-Meteo forecast, its title and icon, and the cache of the last forecast. Dates and
  times are \<open>chrono\<close>'s, which the repository does not contain: an instant is its number of
  nanoseconds, and the local calendar is a parameter.
\<close>

section \<open>Numbers, dates and times\<close>

text \<open>A 64-bit float as far as the program looks at it: its value when it is finite.\<close>

datatype f64 = NotANumber | Infinity bool | Finite rat

fun is_finite :: "f64 \<Rightarrow> bool" where
  "is_finite (Finite _) = True"
| "is_finite _ = False"

text \<open>\<open>(low..=high).contains\<close> and \<open>>\<close>, both false on a NaN.\<close>

fun in_range :: "rat \<Rightarrow> rat \<Rightarrow> f64 \<Rightarrow> bool" where
  "in_range low high (Finite x) = (low \<le> x \<and> x \<le> high)"
| "in_range low high _ = False"

fun f64_greater :: "f64 \<Rightarrow> f64 \<Rightarrow> bool" where
  "f64_greater (Finite x) (Finite y) = (x > y)"
| "f64_greater NotANumber _ = False"
| "f64_greater _ NotANumber = False"
| "f64_greater (Infinity negative) (Infinity negative') = (\<not> negative \<and> negative')"
| "f64_greater (Infinity negative) (Finite _) = (\<not> negative)"
| "f64_greater (Finite _) (Infinity negative) = negative"

text \<open>\<open>round() as i32\<close>: half away from zero, saturating, and zero for a NaN.\<close>

definition round_half_away :: "rat \<Rightarrow> int" where
  "round_half_away x = (if 0 \<le> x then \<lfloor>x + 1 / 2\<rfloor> else - \<lfloor>- x + 1 / 2\<rfloor>)"

fun round_i32 :: "f64 \<Rightarrow> int" where
  "round_i32 NotANumber = 0"
| "round_i32 (Infinity negative) = (if negative then - 2147483648 else 2147483647)"
| "round_i32 (Finite x) = max (- 2147483648) (min 2147483647 (round_half_away x))"

type_synonym instant = int

record 'd calendar =
  local_date :: "instant \<Rightarrow> 'd"
  parse_date :: "string \<Rightarrow> 'd option"
  from_timestamp :: "int \<Rightarrow> instant option"
  format_date :: "string \<Rightarrow> 'd \<Rightarrow> string"
  format_time :: "string \<Rightarrow> instant \<Rightarrow> string"

definition timestamp :: "instant \<Rightarrow> int" where
  "timestamp t = t div 1000000000"

section \<open>Forecasts\<close>

record daily_forecast =
  daily_time :: "string list"
  daily_weather_code :: "u8 list"
  daily_temperature_max :: "f64 list"
  daily_temperature_min :: "f64 list"
  daily_precipitation_max :: "u8 list"

record cached_forecast =
  fetched_at :: int
  cached_daily :: daily_forecast

record 'd weather =
  weather_date :: 'd
  weather_updated_at :: instant
  weather_code :: u8
  weather_low :: int
  weather_high :: int
  weather_rain :: u8

datatype forecast_error =
    MissingDate
  | BadDate
  | MissingCode
  | MissingHigh
  | MissingLow
  | MissingRain
  | InvalidForecast

fun first :: "'a list \<Rightarrow> 'a option" where
  "first [] = None"
| "first (x # _) = Some x"

definition plausible :: "f64 \<Rightarrow> f64 \<Rightarrow> u8 \<Rightarrow> bool" where
  "plausible low high rain \<longleftrightarrow>
     \<not> (\<not> is_finite low \<or> \<not> is_finite high \<or> \<not> in_range (- 90) 60 low \<or> \<not> in_range (- 90) 60 high \<or>
        f64_greater low high \<or> 100 < rain)"

definition format_weather :: "'d calendar \<Rightarrow> daily_forecast \<Rightarrow> instant \<Rightarrow> (forecast_error, 'd weather) res" where
  "format_weather cal forecast updated_at =
     bind_res (ok_or MissingDate (first (daily_time forecast))) (\<lambda>day.
     bind_res (ok_or BadDate (parse_date cal day)) (\<lambda>date.
     bind_res (ok_or MissingCode (first (daily_weather_code forecast))) (\<lambda>condition.
     bind_res (ok_or MissingHigh (first (daily_temperature_max forecast))) (\<lambda>high.
     bind_res (ok_or MissingLow (first (daily_temperature_min forecast))) (\<lambda>low.
     bind_res (ok_or MissingRain (first (daily_precipitation_max forecast))) (\<lambda>rain.
     if \<not> plausible low high rain then Inl InvalidForecast
     else Inr \<lparr>weather_date = date, weather_updated_at = updated_at, weather_code = condition,
       weather_low = round_i32 low, weather_high = round_i32 high, weather_rain = rain\<rparr>))))))"

definition weather_description :: "u8 \<Rightarrow> string" where
  "weather_description c =
     (if c = 0 then ''Clear''
      else if c = 1 then ''Mostly clear''
      else if c = 2 then ''Partly cloudy''
      else if c = 3 then ''Overcast''
      else if c \<in> {45, 48} then ''Fog''
      else if c \<in> {51, 53, 55, 56, 57} then ''Drizzle''
      else if c \<in> {61, 63, 65, 66, 67} then ''Rain''
      else if c \<in> {71, 73, 75, 77} then ''Snow''
      else if c \<in> {80, 81, 82} then ''Rain showers''
      else if c \<in> {85, 86} then ''Snow showers''
      else if c \<in> {95, 96, 99} then ''Thunderstorms''
      else ''Mixed weather'')"

definition weather_kind :: "u8 \<Rightarrow> int" where
  "weather_kind c =
     (if c = 0 then 0
      else if c \<in> {1, 2} then 1
      else if c = 3 then 2
      else if c \<in> {45, 48} then 3
      else if 51 \<le> c \<and> c \<le> 67 \<or> 80 \<le> c \<and> c \<le> 82 then 4
      else if 71 \<le> c \<and> c \<le> 77 \<or> c \<in> {85, 86} then 5
      else if c \<in> {95, 96, 99} then 6
      else 7)"

definition weather_is_for_today :: "'d calendar \<Rightarrow> 'd weather \<Rightarrow> instant \<Rightarrow> bool" where
  "weather_is_for_today cal weather now \<longleftrightarrow>
     weather_date weather = local_date cal now \<and>
     local_date cal (weather_updated_at weather) = local_date cal now \<and>
     weather_updated_at weather \<le> now"

section \<open>The cache\<close>

definition decode_cached_weather ::
  "'d calendar \<Rightarrow> (string \<Rightarrow> ('e, cached_forecast) res) \<Rightarrow> string \<Rightarrow> instant \<Rightarrow> 'd weather option" where
  "decode_cached_weather cal parse body now =
     (case parse body of
        Inl _ \<Rightarrow> None
      | Inr cached \<Rightarrow>
          Option.bind (from_timestamp cal (fetched_at cached)) (\<lambda>updated_at.
          case format_weather cal (cached_daily cached) updated_at of
            Inl _ \<Rightarrow> None
          | Inr weather \<Rightarrow> if weather_is_for_today cal weather now then Some weather else None))"

section \<open>What a reading says\<close>

text \<open>What the display relies on: whole degrees in a plausible range, and a percentage.\<close>

definition weather_ok :: "'d weather \<Rightarrow> bool" where
  "weather_ok w \<longleftrightarrow> - 90 \<le> weather_low w \<and> weather_low w \<le> weather_high w \<and> weather_high w \<le> 60 \<and> weather_rain w \<le> 100"

lemma round_half_away_mono: "x \<le> y \<Longrightarrow> round_half_away x \<le> round_half_away y"
proof -
  assume le: "x \<le> y"
  consider "0 \<le> x" | "x < 0" "0 \<le> y" | "y < 0" using le by linarith
  then show ?thesis
  proof cases
    case 1
    then show ?thesis using le by (simp add: round_half_away_def floor_mono)
  next
    case 2
    then have "0 \<le> \<lfloor>1 / 2 - x\<rfloor>" "0 \<le> \<lfloor>y + 1 / 2\<rfloor>" by simp_all
    then have "- \<lfloor>1 / 2 - x\<rfloor> \<le> \<lfloor>y + 1 / 2\<rfloor>" by linarith
    then show ?thesis using 2 by (simp add: round_half_away_def)
  next
    case 3
    then show ?thesis using le by (simp add: round_half_away_def floor_mono)
  qed
qed

lemma round_half_away_int [simp]: "round_half_away (of_int i) = i"
  by (cases "0 \<le> i") (auto simp: round_half_away_def floor_unique)

lemma round_i32_plausible:
  assumes "in_range (- 90) 60 x"
  shows "- 90 \<le> round_i32 x \<and> round_i32 x \<le> 60 \<and> (\<exists>q. x = Finite q \<and> round_i32 x = round_half_away q)"
proof -
  obtain q where q: "x = Finite q" "- 90 \<le> q" "q \<le> 60" using assms by (cases x) auto
  have "- 90 \<le> round_half_away q" "round_half_away q \<le> 60"
    using round_half_away_mono [OF q(2)] round_half_away_mono [OF q(3)]
      round_half_away_int [of "- 90"] round_half_away_int [of 60] by simp_all
  then show ?thesis using q(1) by simp
qed

lemma format_weather_ok:
  assumes "format_weather cal forecast t = Inr w"
  shows "weather_ok w \<and> weather_updated_at w = t"
proof -
  obtain low high where t: "plausible low high (weather_rain w)"
      "weather_low w = round_i32 low" "weather_high w = round_i32 high" "weather_updated_at w = t"
    using assms by (auto simp: format_weather_def split: if_splits)
  then have range: "in_range (- 90) 60 low" "in_range (- 90) 60 high" "weather_rain w \<le> 100" "\<not> f64_greater low high"
    by (auto simp: plausible_def)
  note low = round_i32_plausible [OF range(1)] and high = round_i32_plausible [OF range(2)]
  then have "round_i32 low \<le> round_i32 high" using range(4) round_half_away_mono by (auto simp: not_less)
  then show ?thesis using low high range(3) t(2-4) by (simp add: weather_ok_def)
qed

lemma decode_cached_ok:
  assumes "decode_cached_weather cal parse body now = Some w"
  shows "weather_ok w \<and> weather_is_for_today cal w now"
proof -
  obtain cached where "parse body = Inr cached" using assms
    by (cases "parse body") (auto simp: decode_cached_weather_def)
  then obtain t where t: "(case format_weather cal (cached_daily cached) t of
      Inl _ \<Rightarrow> None | Inr v \<Rightarrow> if weather_is_for_today cal v now then Some v else None) = Some w"
    using assms by (auto simp: decode_cached_weather_def bind_eq_Some_conv)
  obtain v where "format_weather cal (cached_daily cached) t = Inr v"
    using t by (cases "format_weather cal (cached_daily cached) t") auto
  then show ?thesis using t format_weather_ok by (auto split: if_splits)
qed

text \<open>
  The cache and a fetch agree for the rest of the day. When a forecast fetched at some
  instant is for that day, reading back what was cached gives, at any later instant of the
  same local date, the same weather, dated by the second of the fetch; on any other date,
  or before the fetch, it gives none. The hypotheses are that \<open>serde_json\<close> reads back what
  it wrote, that \<open>chrono\<close> turns a timestamp into the instant of that second, and that no
  midnight lies within it.
\<close>
theorem cached_forecast_round_trip:
  assumes fetched: "format_weather cal forecast now = Inr w" "weather_is_for_today cal w now"
    and serde: "parse (print \<lparr>fetched_at = timestamp now, cached_daily = forecast\<rparr>) =
      Inr \<lparr>fetched_at = timestamp now, cached_daily = forecast\<rparr>"
    and chrono: "from_timestamp cal (timestamp now) = Some second" "local_date cal second = local_date cal now"
  shows "decode_cached_weather cal parse (print \<lparr>fetched_at = timestamp now, cached_daily = forecast\<rparr>) later =
    (if local_date cal later = local_date cal now \<and> second \<le> later
     then Some (w\<lparr>weather_updated_at := second\<rparr>) else None)"
proof -
  have "format_weather cal forecast second = Inr (w\<lparr>weather_updated_at := second\<rparr>)"
    using fetched(1) by (auto simp: format_weather_def split: if_splits)
  then show ?thesis
    using fetched(2) serde chrono by (auto simp: decode_cached_weather_def weather_is_for_today_def)
qed

definition day_calendar :: "nat calendar" where
  "day_calendar =
     \<lparr>local_date = (\<lambda>t. nat (t div 86400000000000)), parse_date = (\<lambda>s. if s = ''2026-09-25'' then Some 1 else None),
      from_timestamp = (\<lambda>t. Some (t * 1000000000)), format_date = (\<lambda>f d. show_nat d),
      format_time = (\<lambda>f t. show_int (t div 60000000000))\<rparr>"

definition sample_forecast :: daily_forecast where
  "sample_forecast =
     \<lparr>daily_time = [''2026-09-25''], daily_weather_code = [61], daily_temperature_max = [Finite (97 / 5)],
      daily_temperature_min = [Finite (58 / 5)], daily_precipitation_max = [70]\<rparr>"

theorem cached_forecast_round_trip_witness:
  "decode_cached_weather day_calendar
     (\<lambda>body. if body = ''cache'' then Inr \<lparr>fetched_at = 90000, cached_daily = sample_forecast\<rparr> else Inl ())
     ''cache'' 100000000000000 =
   Some \<lparr>weather_date = 1, weather_updated_at = 90000000000000, weather_code = 61, weather_low = 12,
     weather_high = 19, weather_rain = 70\<rparr>"
proof -
  let ?w = "\<lparr>weather_date = 1, weather_updated_at = 90000000000007, weather_code = 61, weather_low = 12,
     weather_high = 19, weather_rain = 70\<rparr> :: nat weather"
  have w: "format_weather day_calendar sample_forecast 90000000000007 = Inr ?w" by code_simp
  have "weather_is_for_today day_calendar ?w 90000000000007" by code_simp
  then show ?thesis
    using cached_forecast_round_trip [OF w, where second = 90000000000000 and later = 100000000000000
        and print = "\<lambda>_. ''cache''"
        and parse = "\<lambda>body. if body = ''cache'' then Inr \<lparr>fetched_at = 90000, cached_daily = sample_forecast\<rparr> else Inl ()"]
    by (simp add: timestamp_def day_calendar_def)
qed

end
