(* ===== verification/Dashboard_Loop.thy ===== *)
theory Dashboard_Loop
  imports Dashboard_Weather Rust_Utf8
begin

text \<open>
  The dashboard of \<open>pkgs/shrimpus-dashboard/src/main.rs\<close>: collecting the date, the Wi-Fi
  network and the weather, the loop that refreshes them every minute, and what is put on
  the display. The network, the system bus, the clock and the window are parameters; they
  may answer anything at any time.
\<close>

section \<open>The outside world\<close>

record 'd snapshot =
  snapshot_date :: 'd
  snapshot_wifi :: "string option"
  snapshot_weather :: "'d weather option"
  weather_is_current :: bool

text \<open>
  \<open>http_get\<close> sends the request to Open-Meteo with the given parameters: a status and the
  body, which may not be text. The \<open>bus\<close> calls are those of NetworkManager over \<open>zbus\<close>.
  \<open>show_snapshot\<close> hands a snapshot to the window's thread and fails when the window is gone.
\<close>

record ('w, 'd) panel_host =
  dates :: "'d calendar"
  clock_now :: "'w \<Rightarrow> instant \<times> 'w"
  sleep_seconds :: "nat \<Rightarrow> 'w \<Rightarrow> 'w"
  env_text :: "string \<Rightarrow> string option"
  env_path :: "string \<Rightarrow> string option"
  http_get :: "(string \<times> string) list \<Rightarrow> ('w, string, int \<times> (string, string) res) io"
  parse_forecast :: "string \<Rightarrow> (string, daily_forecast) res"
  parse_cached :: "string \<Rightarrow> (string, cached_forecast) res"
  print_cached :: "cached_forecast \<Rightarrow> (string, string) res"
  read_file :: "string \<Rightarrow> ('w, string, string) io"
  create_dirs :: "string \<Rightarrow> ('w, string, unit) io"
  write_file :: "string \<Rightarrow> string \<Rightarrow> ('w, string, unit) io"
  rename_file :: "string \<Rightarrow> string \<Rightarrow> ('w, string, unit) io"
  path_parent :: "string \<Rightarrow> string option"
  path_json_tmp :: "string \<Rightarrow> string"
  bus_connect :: "('w, string, unit) io"
  bus_device :: "string \<Rightarrow> ('w, string, string) io"
  bus_wireless :: "string \<Rightarrow> ('w, string, unit) io"
  bus_active_access_point :: "string \<Rightarrow> ('w, string, string) io"
  bus_access_point :: "string \<Rightarrow> ('w, string, unit) io"
  bus_ssid :: "string \<Rightarrow> ('w, string, string) io"
  show_snapshot :: "'d snapshot \<Rightarrow> ('w, string, unit) io"

section \<open>Wi-Fi\<close>

definition ssid_text :: "string \<Rightarrow> string" where
  "ssid_text bytes =
     (let ssid = concat (filter (\<lambda>c. \<not> is_control c) (lossy_chars bytes))
      in if ssid = [] then ''Connected'' else ssid)"

definition connected_ssid :: "('w, 'd) panel_host \<Rightarrow> ('w, string, string option) io" where
  "connected_ssid H =
     io_bind (bus_connect H) (\<lambda>_.
     io_bind (bus_device H ''wlan0'') (\<lambda>device_path.
     io_bind (bus_wireless H device_path) (\<lambda>_.
     io_bind (bus_active_access_point H device_path) (\<lambda>access_point_path.
     if access_point_path = ''/'' then io_return None
     else
       io_bind (bus_access_point H access_point_path) (\<lambda>_.
       io_bind (bus_ssid H access_point_path) (\<lambda>ssid.
       io_return (Some (ssid_text ssid))))))))"

section \<open>Weather\<close>

datatype fetch_error =
    HttpFailed string
  | BadStatus int
  | BadBody string
  | BadForecast forecast_error
  | NotToday
  | NotPrintable string

definition cache_path :: "('w, 'd) panel_host \<Rightarrow> string" where
  "cache_path H =
    (case env_path H ''SHRIMPUS_WEATHER_CACHE'' of
       Some path \<Rightarrow> path
     | None \<Rightarrow> ''/var/cache/shrimpus-dashboard/weather.json'')"

definition write_weather_cache_inner :: "('w, 'd) panel_host \<Rightarrow> string \<Rightarrow> string \<Rightarrow> ('w, string, unit) io" where
  "write_weather_cache_inner H path body =
     io_bind (case path_parent H path of Some parent \<Rightarrow> create_dirs H parent | None \<Rightarrow> io_return ()) (\<lambda>_.
     io_bind (write_file H (path_json_tmp H path) body) (\<lambda>_.
     rename_file H (path_json_tmp H path) path))"

definition write_weather_cache :: "('w, 'd) panel_host \<Rightarrow> string \<Rightarrow> ('w, 'e, unit) io" where
  "write_weather_cache H body =
     io_bind (io_try (write_weather_cache_inner H (cache_path H) body)) (\<lambda>_. io_return ())"

definition read_cached_weather :: "('w, 'd) panel_host \<Rightarrow> ('w, 'e, 'd weather option) io" where
  "read_cached_weather H =
     io_bind (io_try (read_file H (cache_path H))) (\<lambda>body.
     case body of
       Inl _ \<Rightarrow> io_return None
     | Inr body \<Rightarrow>
         io_bind (io_read (clock_now H)) (\<lambda>now.
         io_return (decode_cached_weather (dates H) (parse_cached H) body now)))"

definition weather_request :: "('w, 'd) panel_host \<Rightarrow> (string \<times> string) list" where
  "weather_request H =
     (let setting = (\<lambda>name default. case env_text H name of Some v \<Rightarrow> v | None \<Rightarrow> default) in
      [(''latitude'', setting ''SHRIMPUS_WEATHER_LATITUDE'' ''-37.8136''),
       (''longitude'', setting ''SHRIMPUS_WEATHER_LONGITUDE'' ''144.9631''),
       (''timezone'', setting ''SHRIMPUS_WEATHER_TIMEZONE'' ''Australia/Melbourne''),
       (''forecast_days'', ''1''),
       (''daily'', ''weather_code,temperature_2m_max,temperature_2m_min,precipitation_probability_max'')])"

definition fetch_weather :: "('w, 'd) panel_host \<Rightarrow> ('w, fetch_error, 'd weather) io" where
  "fetch_weather H =
     io_bind (io_map_err HttpFailed (http_get H (weather_request H))) (\<lambda>(status, response).
     if status \<noteq> 200 then io_fail (BadStatus status)
     else
       io_bind (io_lift (map_err BadBody response)) (\<lambda>body.
       io_bind (io_lift (map_err BadBody (parse_forecast H body))) (\<lambda>forecast.
       io_bind (io_read (clock_now H)) (\<lambda>now.
       io_bind (io_lift (map_err BadForecast (format_weather (dates H) forecast now))) (\<lambda>weather.
       if \<not> weather_is_for_today (dates H) weather now then io_fail NotToday
       else
         io_bind (io_lift (map_err NotPrintable
           (print_cached H \<lparr>fetched_at = timestamp now, cached_daily = forecast\<rparr>))) (\<lambda>cached.
         io_bind (write_weather_cache H cached) (\<lambda>_.
         io_return weather)))))))"

section \<open>Snapshots\<close>

definition collect_weather ::
  "('w, 'd) panel_host \<Rightarrow> 'd snapshot option \<Rightarrow> bool \<Rightarrow> ('w, 'e, 'd weather option \<times> bool) io" where
  "collect_weather H previous refresh_weather =
     (if refresh_weather then
        io_bind (io_try (fetch_weather H)) (\<lambda>fetched.
        case fetched of
          Inr weather \<Rightarrow> io_return (Some weather, True)
        | Inl error \<Rightarrow>
            (case Option.bind previous snapshot_weather of
               Some weather \<Rightarrow> io_return (Some weather, False)
             | None \<Rightarrow> io_bind (read_cached_weather H) (\<lambda>cached. io_return (cached, False))))
      else
        io_return (Option.bind previous snapshot_weather,
          case previous of Some snapshot \<Rightarrow> weather_is_current snapshot | None \<Rightarrow> False))"

definition collect_snapshot ::
  "('w, 'd) panel_host \<Rightarrow> 'd snapshot option \<Rightarrow> bool \<Rightarrow> ('w, 'e, 'd snapshot \<times> bool) io" where
  "collect_snapshot H previous refresh_weather =
     io_bind (collect_weather H previous refresh_weather) (\<lambda>(weather, current).
     io_bind (io_read (clock_now H)) (\<lambda>now.
     let weather = (case weather of
           Some w \<Rightarrow> if weather_is_for_today (dates H) w now then Some w else None
         | None \<Rightarrow> None);
         current = (current \<and> weather \<noteq> None)
     in
     io_bind (io_try (connected_ssid H)) (\<lambda>wifi.
     io_return
       (\<lparr>snapshot_date = local_date (dates H) now,
         snapshot_wifi = (case wifi of Inr ssid \<Rightarrow> ssid | Inl _ \<Rightarrow> None),
         snapshot_weather = weather,
         weather_is_current = current\<rparr>, current))))"

section \<open>The refresh loop\<close>

definition UPDATE_INTERVAL :: nat where "UPDATE_INTERVAL = 60"
definition WEATHER_UPDATE_TICKS :: nat where "WEATHER_UPDATE_TICKS = 30"

text \<open>The locals of the thread; the counter, an \<open>u32\<close>, would overflow after 8000 years.\<close>

record 'd refresher =
  refresh_snapshot :: "'d snapshot"
  refresh_ticks :: nat
  retry_weather :: bool

text \<open>What a round of the loop did; \<open>round_today\<close> is the date it compared with.\<close>

record 'd refresh_round =
  round_today :: 'd
  round_refreshed :: bool
  round_snapshot :: "'d snapshot"

definition refresh_weather :: "'d \<Rightarrow> 'd refresher \<Rightarrow> bool" where
  "refresh_weather today st \<longleftrightarrow>
     retry_weather st \<or> WEATHER_UPDATE_TICKS \<le> refresh_ticks st + 1 \<or> snapshot_date (refresh_snapshot st) \<noteq> today"

definition after_collect :: "bool \<Rightarrow> 'd snapshot \<Rightarrow> 'd refresher \<Rightarrow> 'd refresher" where
  "after_collect refreshed next st =
     \<lparr>refresh_snapshot = next,
      refresh_ticks = (if refreshed \<and> weather_is_current next then 0 else refresh_ticks st + 1),
      retry_weather = (if refreshed then \<not> weather_is_current next else retry_weather st)\<rparr>"

text \<open>One round: the flag tells whether the loop goes on.\<close>

definition refresh_step ::
  "('w, 'd) panel_host \<Rightarrow> 'd refresher \<Rightarrow> ('w, 'e, 'd refresh_round \<times> 'd refresher \<times> bool) io" where
  "refresh_step H st =
     io_bind (io_read (\<lambda>w. ((), sleep_seconds H UPDATE_INTERVAL w))) (\<lambda>_.
     io_bind (io_read (clock_now H)) (\<lambda>now.
     let refreshed = refresh_weather (local_date (dates H) now) st in
     io_bind (collect_snapshot H (Some (refresh_snapshot st)) refreshed) (\<lambda>(next, current).
     let round = \<lparr>round_today = local_date (dates H) now, round_refreshed = refreshed, round_snapshot = next\<rparr>;
         st' = after_collect refreshed next st
     in
     if next \<noteq> refresh_snapshot st then
       io_bind (io_try (show_snapshot H next)) (\<lambda>shown. io_return (round, st', is_ok shown))
     else io_return (round, st', True))))"

fun refresh_rounds ::
  "('w, 'd) panel_host \<Rightarrow> nat \<Rightarrow> 'd refresher \<Rightarrow> ('w, 'e, 'd refresh_round list \<times> 'd refresher) io" where
  "refresh_rounds H 0 st = io_return ([], st)"
| "refresh_rounds H (Suc n) st =
     io_bind (refresh_step H st) (\<lambda>(round, st', running).
     if running then io_bind (refresh_rounds H n st') (\<lambda>(rounds, final). io_return (round # rounds, final))
     else io_return ([round], st'))"

text \<open>The program up to the loop: the first snapshot, the window that shows it, then the rounds.\<close>

definition start_refresher :: "'d snapshot \<Rightarrow> bool \<Rightarrow> 'd refresher" where
  "start_refresher snapshot current =
     \<lparr>refresh_snapshot = snapshot, refresh_ticks = 0, retry_weather = \<not> current\<rparr>"

definition run_dashboard ::
  "('w, 'd) panel_host \<Rightarrow> nat \<Rightarrow> ('w, 'e, 'd snapshot \<times> 'd refresh_round list) io" where
  "run_dashboard H rounds =
     io_bind (collect_snapshot H None True) (\<lambda>(snapshot, current).
     io_bind (refresh_rounds H rounds (start_refresher snapshot current)) (\<lambda>(history, _).
     io_return (snapshot, history)))"

section \<open>What the display may show\<close>

text \<open>
  A forecast is only shown on its own day: it is for the date beside it, was fetched on that
  date, and its numbers are plausible. Only a snapshot with a forecast is current.
\<close>

definition snapshot_ok :: "'d calendar \<Rightarrow> 'd snapshot \<Rightarrow> bool" where
  "snapshot_ok cal snapshot \<longleftrightarrow>
     (case snapshot_weather snapshot of
        None \<Rightarrow> \<not> weather_is_current snapshot
      | Some w \<Rightarrow> weather_ok w \<and> weather_date w = snapshot_date snapshot \<and>
          local_date cal (weather_updated_at w) = snapshot_date snapshot)"

lemma fetch_weather_ok:
  assumes "fetch_weather H w = Some (Inr weather, w')"
  shows "weather_ok weather"
  using assms unfolding fetch_weather_def
  by (auto simp: io_bind_eq_Some io_map_err_eq_Some io_lift_app io_return_app io_fail_def split: if_splits
      dest: format_weather_ok)

lemma io_read_eq: "io_read f s = Some (Inr (fst (f s)), snd (f s))"
  by (simp add: io_read_def case_prod_beta)

lemma read_cached_weather_ok:
  fixes r :: "('e, 'd weather option) res"
  assumes "read_cached_weather H s = Some (r, s')"
  obtains cached where "r = Inr cached" "\<forall>w \<in> set_option cached. weather_ok w"
proof -
  obtain body s1 where b: "read_file H (cache_path H) s = Some (body, s1)"
    using assms by (auto simp: read_cached_weather_def io_bind_eq_Some io_try_eq_Some)
  show thesis
    using assms b that decode_cached_ok
    by (cases body) (fastforce simp: read_cached_weather_def io_bind_step io_try_step io_return_app io_read_eq)+
qed

lemma collect_weather_ok:
  fixes r :: "('e, 'd weather option \<times> bool) res"
  assumes "\<forall>w \<in> set_option (Option.bind previous snapshot_weather). weather_ok w"
    and "collect_weather H previous refresh s = Some (r, s')"
  shows "\<exists>weather current. r = Inr (weather, current) \<and> (\<forall>w \<in> set_option weather. weather_ok w)"
proof (cases refresh)
  case False
  then show ?thesis using assms by (auto simp: collect_weather_def io_return_app)
next
  case True
  then obtain fetched s1 where f: "fetch_weather H s = Some (fetched, s1)"
    and rest: "(case fetched of
          Inr weather \<Rightarrow> io_return (Some weather, True)
        | Inl error \<Rightarrow>
            (case Option.bind previous snapshot_weather of
               Some weather \<Rightarrow> io_return (Some weather, False)
             | None \<Rightarrow> io_bind (read_cached_weather H) (\<lambda>cached. io_return (cached, False)))) s1 = Some (r, s')"
    using assms(2) by (auto simp: collect_weather_def io_bind_eq_Some io_try_eq_Some)
  show ?thesis
  proof (cases fetched)
    case (Inr weather)
    then show ?thesis using rest f by (auto simp: io_return_app dest: fetch_weather_ok)
  next
    case (Inl error)
    show ?thesis
    proof (cases "Option.bind previous snapshot_weather")
      case None
      then show ?thesis using rest Inl
        by (auto simp: io_bind_eq_Some io_return_app elim: read_cached_weather_ok)
    next
      case (Some weather)
      then show ?thesis using rest Inl assms(1) by (auto simp: io_return_app)
    qed
  qed
qed

lemma collect_snapshot_ok:
  fixes r :: "('e, 'd snapshot \<times> bool) res"
  assumes "\<forall>w \<in> set_option (Option.bind previous snapshot_weather). weather_ok w"
    and "collect_snapshot H previous refresh s = Some (r, s')"
  shows "\<exists>snapshot. r = Inr (snapshot, weather_is_current snapshot) \<and> snapshot_ok (dates H) snapshot"
proof -
  obtain r1 :: "('e, 'd weather option \<times> bool) res" and s1 where c: "collect_weather H previous refresh s = Some (r1, s1)"
    using assms(2) by (auto simp: collect_snapshot_def io_bind_eq_Some)
  obtain weather current where w: "r1 = Inr (weather, current)" "\<forall>w \<in> set_option weather. weather_ok w"
    using collect_weather_ok [OF assms(1) c] by blast
  show ?thesis
    using assms(2) w c
    by (auto simp: collect_snapshot_def io_bind_step io_read_eq Let_def io_bind_eq_Some io_try_eq_Some io_return_app
        snapshot_ok_def weather_is_for_today_def split: option.splits if_splits)
qed

section \<open>When the forecast is fetched\<close>

text \<open>The rounds as a pure history: each round does what the locals of the thread tell it.\<close>

fun follows :: "'d refresher \<Rightarrow> 'd refresh_round list \<Rightarrow> bool" where
  "follows st [] \<longleftrightarrow> True"
| "follows st (r # rs) \<longleftrightarrow>
     round_refreshed r = refresh_weather (round_today r) st \<and>
     follows (after_collect (round_refreshed r) (round_snapshot r) st) rs"

lemma refresh_step_follows:
  fixes r :: "('e, 'd refresh_round \<times> 'd refresher \<times> bool) res"
  assumes ok: "snapshot_ok (dates H) (refresh_snapshot st)" and step: "refresh_step H st s = Some (r, s')"
  obtains round running where
    "r = Inr (round, after_collect (round_refreshed round) (round_snapshot round) st, running)"
    "round_refreshed round = refresh_weather (round_today round) st"
    "snapshot_ok (dates H) (round_snapshot round)"
proof -
  have prev: "\<forall>w \<in> set_option (Option.bind (Some (refresh_snapshot st)) snapshot_weather). weather_ok w"
    using ok by (auto simp: snapshot_ok_def)
  define s1 where "s1 = sleep_seconds H UPDATE_INTERVAL s"
  obtain now s2 where now: "clock_now H s1 = (now, s2)" by fastforce
  define refreshed where "refreshed = refresh_weather (local_date (dates H) now) st"
  obtain q :: "('e, 'd snapshot \<times> bool) res" and s3
    where q: "collect_snapshot H (Some (refresh_snapshot st)) refreshed s2 = Some (q, s3)"
    using step now by (auto simp: refresh_step_def io_bind_eq_Some io_read_eq Let_def s1_def refreshed_def)
  obtain next' where n: "q = Inr (next', weather_is_current next')" "snapshot_ok (dates H) next'"
    using collect_snapshot_ok [OF prev q] by blast
  show thesis
    by (rule that [of "\<lparr>round_today = local_date (dates H) now, round_refreshed = refreshed, round_snapshot = next'\<rparr>"
        "next' = refresh_snapshot st \<or> (case r of Inr (_, _, b) \<Rightarrow> b | _ \<Rightarrow> False)"])
      (use step now q n in \<open>auto simp: refresh_step_def io_bind_eq_Some io_read_eq io_try_eq_Some io_return_app
        Let_def s1_def [symmetric] refreshed_def [symmetric] split: if_splits\<close>)
qed

lemma refresh_rounds_follows:
  fixes r :: "('e, 'd refresh_round list \<times> 'd refresher) res"
  assumes "snapshot_ok (dates H) (refresh_snapshot st)" and "refresh_rounds H n st s = Some (r, s')"
  shows "\<exists>history final. r = Inr (history, final) \<and> follows st history \<and>
    (\<forall>round \<in> set history. snapshot_ok (dates H) (round_snapshot round))"
  using assms
proof (induction n arbitrary: st s r s')
  case 0
  then show ?case by (auto simp: io_return_app)
next
  case (Suc n)
  obtain q :: "('e, 'd refresh_round \<times> 'd refresher \<times> bool) res" and s1 where q: "refresh_step H st s = Some (q, s1)"
    using Suc.prems(2) by (auto simp: io_bind_eq_Some)
  obtain round running where round: "q = Inr (round, after_collect (round_refreshed round) (round_snapshot round) st, running)"
      "round_refreshed round = refresh_weather (round_today round) st" "snapshot_ok (dates H) (round_snapshot round)"
    by (rule refresh_step_follows [OF Suc.prems(1) q])
  let ?st = "after_collect (round_refreshed round) (round_snapshot round) st"
  have ok: "snapshot_ok (dates H) (refresh_snapshot ?st)" using round(3) by (simp add: after_collect_def)
  show ?case
  proof (cases running)
    case False
    then show ?thesis using Suc.prems(2) q round by (auto simp: io_bind_step io_return_app)
  next
    case True
    then obtain p :: "('e, 'd refresh_round list \<times> 'd refresher) res" and s2 where p: "refresh_rounds H n ?st s1 = Some (p, s2)"
      using Suc.prems(2) q round by (auto simp: io_bind_step io_bind_eq_Some)
    obtain history final where "p = Inr (history, final)" "follows ?st history"
        "\<forall>round \<in> set history. snapshot_ok (dates H) (round_snapshot round)"
      using Suc.IH [OF ok p] by blast
    then show ?thesis using True Suc.prems(2) q round p by (auto simp: io_bind_step io_return_app)
  qed
qed

lemma run_dashboard_follows:
  fixes H :: "('w, 'd) panel_host"
  assumes "run_dashboard H n s = Some (Inr (initial, history) :: ('e, 'd snapshot \<times> 'd refresh_round list) res, s')"
  shows "snapshot_ok (dates H) initial" "follows (start_refresher initial (weather_is_current initial)) history"
    "\<forall>round \<in> set history. snapshot_ok (dates H) (round_snapshot round)"
proof -
  obtain current final s1
    where c: "collect_snapshot H None True s = Some (Inr (initial, current) :: ('e, 'd snapshot \<times> bool) res, s1)"
      and rounds: "refresh_rounds H n (start_refresher initial current) s1 =
        Some (Inr (history, final) :: ('e, 'd refresh_round list \<times> 'd refresher) res, s')"
    using assms by (auto simp: run_dashboard_def io_bind_eq_Some io_return_app)
  have initial: "snapshot_ok (dates H) initial" "current = weather_is_current initial"
    using collect_snapshot_ok [OF _ c] by simp_all
  then have "snapshot_ok (dates H) (refresh_snapshot (start_refresher initial current))"
    by (simp add: start_refresher_def)
  from refresh_rounds_follows [OF this rounds] initial
  show "snapshot_ok (dates H) initial" "follows (start_refresher initial (weather_is_current initial)) history"
    "\<forall>round \<in> set history. snapshot_ok (dates H) (round_snapshot round)" by auto
qed

text \<open>
  The specification: a round fetches unless, on the same date, the last fetch succeeded and
  lies less than thirty rounds back. The start of the program counts as a round that fetched.
\<close>

definition startup_round :: "'d snapshot \<Rightarrow> 'd refresh_round" where
  "startup_round snapshot =
     \<lparr>round_today = snapshot_date snapshot, round_refreshed = True, round_snapshot = snapshot\<rparr>"

definition last_fetch :: "'d refresh_round list \<Rightarrow> nat \<Rightarrow> bool" where
  "last_fetch past j \<longleftrightarrow>
     j < length past \<and> round_refreshed (past ! j) \<and> (\<forall>k. j < k \<and> k < length past \<longrightarrow> \<not> round_refreshed (past ! k))"

definition fetch_due :: "'d refresh_round list \<Rightarrow> 'd \<Rightarrow> bool" where
  "fetch_due past today \<longleftrightarrow>
     \<not> (today = snapshot_date (round_snapshot (last past)) \<and>
        (\<exists>j. last_fetch past j \<and> weather_is_current (round_snapshot (past ! j)) \<and> length past - j < 30))"

definition tracks :: "'d refresh_round list \<Rightarrow> 'd refresher \<Rightarrow> bool" where
  "tracks past st \<longleftrightarrow>
     past \<noteq> [] \<and> refresh_snapshot st = round_snapshot (last past) \<and>
     (\<exists>j. last_fetch past j \<and> retry_weather st = (\<not> weather_is_current (round_snapshot (past ! j))) \<and>
       (\<not> retry_weather st \<longrightarrow> refresh_ticks st = length past - 1 - j))"

lemma last_fetch_unique: "last_fetch past i \<Longrightarrow> last_fetch past j \<Longrightarrow> i = j"
  unfolding last_fetch_def by (metis linorder_neqE_nat)

lemma last_fetch_snoc:
  "last_fetch (past @ [r]) j \<longleftrightarrow> (if round_refreshed r then j = length past else last_fetch past j)"
proof (cases "round_refreshed r")
  case True
  have "j = length past" if "last_fetch (past @ [r]) j"
  proof (rule ccontr)
    assume "j \<noteq> length past"
    then have "j < length past" using that by (simp add: last_fetch_def)
    then have "\<not> round_refreshed ((past @ [r]) ! length past)" using that unfolding last_fetch_def
      by (metis length_append_singleton lessI)
    then show False using True by simp
  qed
  moreover have "last_fetch (past @ [r]) (length past)" using True unfolding last_fetch_def by (auto simp: less_Suc_eq)
  ultimately show ?thesis using True by auto
next
  case False
  have "(\<forall>k. j < k \<and> k < Suc (length past) \<longrightarrow> \<not> round_refreshed ((past @ [r]) ! k)) \<longleftrightarrow>
      (\<forall>k. j < k \<and> k < length past \<longrightarrow> \<not> round_refreshed (past ! k))"
    using False by (auto simp: nth_append less_Suc_eq)
  then show ?thesis using False unfolding last_fetch_def by (auto simp: nth_append less_Suc_eq)
qed

lemma tracks_due: "tracks past st \<Longrightarrow> refresh_weather today st = fetch_due past today"
proof -
  assume t: "tracks past st"
  then obtain j where j: "last_fetch past j" "retry_weather st = (\<not> weather_is_current (round_snapshot (past ! j)))"
      "\<not> retry_weather st \<Longrightarrow> refresh_ticks st = length past - 1 - j"
    by (auto simp: tracks_def)
  have le: "j < length past" using j(1) by (simp add: last_fetch_def)
  have "(\<exists>i. last_fetch past i \<and> weather_is_current (round_snapshot (past ! i)) \<and> length past - i < 30) \<longleftrightarrow>
      weather_is_current (round_snapshot (past ! j)) \<and> length past - j < 30"
    (is "?l \<longleftrightarrow> ?r")
  proof
    assume ?l
    then show ?r using last_fetch_unique [OF j(1)] by (elim exE conjE) simp
  next
    assume ?r
    then show ?l using j(1) by (intro exI [of _ j]) simp
  qed
  also have "\<dots> \<longleftrightarrow> \<not> retry_weather st \<and> refresh_ticks st + 1 < WEATHER_UPDATE_TICKS"
    using j(2,3) le by (cases "retry_weather st") (auto simp: WEATHER_UPDATE_TICKS_def)
  finally have "(\<exists>i. last_fetch past i \<and> weather_is_current (round_snapshot (past ! i)) \<and> length past - i < 30) \<longleftrightarrow>
      \<not> retry_weather st \<and> refresh_ticks st + 1 < WEATHER_UPDATE_TICKS" .
  then show ?thesis using t by (auto simp: refresh_weather_def fetch_due_def tracks_def)
qed

lemma tracks_step:
  assumes "tracks past st"
  shows "tracks (past @ [r]) (after_collect (round_refreshed r) (round_snapshot r) st)"
proof -
  obtain j where j: "last_fetch past j" "retry_weather st = (\<not> weather_is_current (round_snapshot (past ! j)))"
      "\<not> retry_weather st \<Longrightarrow> refresh_ticks st = length past - 1 - j"
    using assms by (auto simp: tracks_def)
  have le: "j < length past" using j(1) by (simp add: last_fetch_def)
  show ?thesis
  proof (cases "round_refreshed r")
    case True
    then show ?thesis by (auto simp: tracks_def after_collect_def last_fetch_snoc)
  next
    case False
    have "last_fetch (past @ [r]) j" using j(1) False by (simp add: last_fetch_snoc)
    moreover have "retry_weather (after_collect False (round_snapshot r) st) =
        (\<not> weather_is_current (round_snapshot ((past @ [r]) ! j)))"
      using j(2) le by (simp add: after_collect_def nth_append)
    moreover have "\<not> retry_weather st \<Longrightarrow> refresh_ticks st + 1 = length past - j" using j(3) le by simp
    ultimately show ?thesis using False unfolding tracks_def
      by (auto simp: after_collect_def)
  qed
qed

lemma follows_due:
  "tracks past st \<Longrightarrow> follows st history \<Longrightarrow> m < length history \<Longrightarrow>
   round_refreshed (history ! m) = fetch_due (past @ take m history) (round_today (history ! m))"
proof (induction history arbitrary: past st m)
  case (Cons r history)
  show ?case
  proof (cases m)
    case 0
    then show ?thesis using Cons.prems tracks_due by (metis append_Nil2 follows.simps(2) nth_Cons_0 take0)
  next
    case (Suc i)
    have "round_refreshed (history ! i) = fetch_due ((past @ [r]) @ take i history) (round_today (history ! i))"
    proof (rule Cons.IH [OF tracks_step [OF Cons.prems(1)]])
      show "follows (after_collect (round_refreshed r) (round_snapshot r) st) history"
        using Cons.prems(2) [unfolded follows.simps] by (rule conjunct2)
      show "i < length history" using Cons.prems(3) Suc by simp
    qed
    then show ?thesis using Suc by simp
  qed
qed simp

lemma start_tracks: "tracks [startup_round s] (start_refresher s (weather_is_current s))"
  by (auto simp: tracks_def startup_round_def start_refresher_def last_fetch_def)


text \<open>
  C7: The dashboard asks for a forecast exactly when it needs one. A round fetches if and only
  if the date has changed, or the last fetch before it failed to give a forecast for the
  day, or lies thirty rounds back or more. So a failed fetch is retried in the next round,
  and a good one is not repeated for half an hour.
\<close>
theorem dashboard_fetches_when_due:
  assumes "run_dashboard H n s = Some (Inr (initial, history), s')" "m < length history"
  shows "round_refreshed (history ! m) \<longleftrightarrow>
    fetch_due (startup_round initial # take m history) (round_today (history ! m))"
  using follows_due [OF start_tracks run_dashboard_follows(2) [OF assms(1)] assms(2)] by simp

section \<open>A run\<close>

text \<open>A clock that starts on the day of the forecast and a network that answers from its second request on.\<close>

record panel_world =
  world_clock :: int
  world_requests :: nat

definition demo_panel :: "(panel_world, nat) panel_host" where
  "demo_panel =
     \<lparr>dates = day_calendar,
      clock_now = (\<lambda>w. (world_clock w, w\<lparr>world_clock := world_clock w + 1\<rparr>)),
      sleep_seconds = (\<lambda>n w. w\<lparr>world_clock := world_clock w + int n * 1000000000\<rparr>),
      env_text = (\<lambda>name. None),
      env_path = (\<lambda>name. None),
      http_get = (\<lambda>parameters w. Some
        (if world_requests w = 0 then Inl ''unreachable'' else Inr (200, Inr ''body''), w\<lparr>world_requests := world_requests w + 1\<rparr>)),
      parse_forecast = (\<lambda>body. Inr sample_forecast),
      parse_cached = (\<lambda>body. Inl ''empty''),
      print_cached = (\<lambda>cached. Inr ''cached''),
      read_file = (\<lambda>path. io_fail ''no such file''),
      create_dirs = (\<lambda>path. io_return ()),
      write_file = (\<lambda>path body. io_return ()),
      rename_file = (\<lambda>path path'. io_return ()),
      path_parent = (\<lambda>path. None),
      path_json_tmp = (\<lambda>path. path @ ''.tmp''),
      bus_connect = io_return (),
      bus_device = (\<lambda>name. io_return ''/device''),
      bus_wireless = (\<lambda>path. io_return ()),
      bus_active_access_point = (\<lambda>path. io_return ''/''),
      bus_access_point = (\<lambda>path. io_return ()),
      bus_ssid = (\<lambda>path. io_return []),
      show_snapshot = (\<lambda>snapshot. io_return ())\<rparr>"

definition demo_run :: "((string, nat snapshot \<times> nat refresh_round list) res \<times> panel_world) option" where
  "demo_run = run_dashboard demo_panel 3 \<lparr>world_clock = 90000000000007, world_requests = 0\<rparr>"

lemma demo_run:
  obtains initial history w where "demo_run = Some (Inr (initial, history), w)"
    "map round_refreshed history = [True, False, False]"
    "map (map_option weather_high \<circ> snapshot_weather \<circ> round_snapshot) history = [Some 19, Some 19, Some 19]"
    "snapshot_weather initial = None"
proof -
  have "case demo_run of
      Some (Inr (initial, history), w) \<Rightarrow> map round_refreshed history = [True, False, False] \<and>
        map (map_option weather_high \<circ> snapshot_weather \<circ> round_snapshot) history = [Some 19, Some 19, Some 19] \<and>
        snapshot_weather initial = None
    | _ \<Rightarrow> False"
    by code_simp
  then show thesis using that by (auto split: option.split_asm sum.split_asm prod.split_asm)
qed


theorem dashboard_fetches_when_due_witness:
  "\<exists>initial history w. demo_run = Some (Inr (initial, history), w) \<and> 0 < length history \<and>
     round_refreshed (history ! 0) = fetch_due (startup_round initial # take 0 history) (round_today (history ! 0))"
proof -
  obtain initial history w where run: "demo_run = Some (Inr (initial, history), w)"
      "map round_refreshed history = [True, False, False]"
    by (rule demo_run)
  then have "0 < length history" by auto
  with dashboard_fetches_when_due [OF run(1) [unfolded demo_run_def]] run(1) show ?thesis by blast
qed

section \<open>The network's name\<close>

text \<open>
  A network name is display text whatever bytes an access point sends. What is shown is
  never empty, is well-formed UTF-8 without a control character, and is the name itself
  when that is well-formed, not empty and free of control characters.
\<close>
theorem ssid_text_safe:
  "ssid_text bytes \<noteq> [] \<and>
   concat (lossy_chars (ssid_text bytes)) = ssid_text bytes \<and> list_all utf8_char (lossy_chars (ssid_text bytes)) \<and>
   list_all (\<lambda>c. \<not> is_control c) (lossy_chars (ssid_text bytes)) \<and>
   (bytes \<noteq> [] \<and> concat (lossy_chars bytes) = bytes \<and> list_all (\<lambda>c. \<not> is_control c) (lossy_chars bytes) \<longrightarrow>
    ssid_text bytes = bytes)"
proof -
  let ?cs = "filter (\<lambda>c. \<not> is_control c) (lossy_chars bytes)"
  have "list_all utf8_char ?cs" using lossy_chars_wf [of bytes] by (auto simp: list_all_iff)
  then have cs: "lossy_chars (concat ?cs) = ?cs" by (rule lossy_chars_concat)
  have fallback: "lossy_chars ''Connected'' = map (\<lambda>c. [c]) ''Connected''"
    by (rule lossy_chars_ascii) (simp add: is_ascii_def code_def)
  have "list_all (\<lambda>c. \<not> is_control c) (map (\<lambda>c. [c]) ''Connected'')"
    by (simp add: is_control_def code_def)
  moreover have "bytes \<noteq> [] \<and> concat (lossy_chars bytes) = bytes \<and> list_all (\<lambda>c. \<not> is_control c) (lossy_chars bytes) \<longrightarrow>
      concat ?cs = bytes"
    by (metis (mono_tags, lifting) filter_True list_all_iff)
  ultimately show ?thesis
    using cs fallback lossy_chars_wf [of "ssid_text bytes"]
    by (auto simp: ssid_text_def Let_def list_all_iff)
qed

theorem ssid_text_safe_witness:
  "ssid_text ''floznet-7'' = ''floznet-7''"
proof -
  have "lossy_chars ''floznet-7'' = map (\<lambda>c. [c]) ''floznet-7''"
    by (rule lossy_chars_ascii) (simp add: is_ascii_def code_def)
  then show ?thesis using ssid_text_safe [of "''floznet-7''"] by (simp add: is_control_def code_def)
qed

section \<open>The display\<close>

record display =
  show_weekday :: string
  show_day :: string
  show_month_year :: string
  show_wifi_connected :: bool
  show_wifi_text :: string
  show_weather_available :: bool
  show_weather_stale :: bool
  show_weather_kind :: int
  show_weather_title :: string
  show_temperatures :: string
  show_compact_temperatures :: bool
  show_rain_text :: string
  show_freshness_text :: string

text \<open>
  \<open>apply_snapshot\<close> sets every property of the window in both branches, so the display is a
  function of the snapshot. The names of days and months that \<open>chrono\<close> prints are ASCII.
\<close>

definition apply_snapshot :: "'d calendar \<Rightarrow> 'd snapshot \<Rightarrow> display" where
  "apply_snapshot cal snapshot =
     (let date = snapshot_date snapshot;
          base = \<lparr>show_weekday = to_ascii_uppercase (format_date cal ''%a'' date),
            show_day = format_date cal ''%-d'' date,
            show_month_year = to_ascii_uppercase (format_date cal ''%b %Y'' date),
            show_wifi_connected = (snapshot_wifi snapshot \<noteq> None),
            show_wifi_text = (case snapshot_wifi snapshot of Some ssid \<Rightarrow> ssid | None \<Rightarrow> ''Offline''),
            show_weather_available = (snapshot_weather snapshot \<noteq> None),
            show_weather_stale = (\<not> weather_is_current snapshot),
            show_weather_kind = 7,
            show_weather_title = ''No forecast'',
            show_temperatures = [],
            show_compact_temperatures = False,
            show_rain_text = ''Waiting for weather'',
            show_freshness_text = ''Update pending''\<rparr>
      in case snapshot_weather snapshot of
           None \<Rightarrow> base
         | Some weather \<Rightarrow>
             base\<lparr>show_weather_kind := weather_kind (weather_code weather),
               show_weather_title := weather_description (weather_code weather),
               show_temperatures := show_int (weather_low weather) @ [CHR 0xE2, CHR 0x80, CHR 0x93] @
                 show_int (weather_high weather) @ [CHR 0xC2, CHR 0xB0],
               show_compact_temperatures := (weather_low weather < 0 \<or> weather_high weather < 0),
               show_rain_text := show_nat (unat (weather_rain weather)) @ ''% chance of rain'',
               show_freshness_text := (if weather_is_current snapshot then ''Updated'' else ''Saved'') @ '' '' @
                 format_time cal ''%H:%M'' (weather_updated_at weather)\<rparr>)"

section \<open>The command line\<close>

datatype dashboard_command = RenderPreview string | Preview | RunDashboard

definition dashboard_main :: "string list \<Rightarrow> (string, dashboard_command) res" where
  "dashboard_main args =
     (case dropWhile (\<lambda>a. a \<noteq> ''--render-preview'') args of
        _ # path # _ \<Rightarrow> Inr (RenderPreview path)
      | [_] \<Rightarrow> Inl ''--render-preview requires a .ppm path''
      | [] \<Rightarrow> Inr (if ''--preview'' \<in> set args then Preview else RunDashboard))"

end
