(* ===== verification/Dashboard_Preview.thy ===== *)
theory Dashboard_Preview
  imports Dashboard_Loop
begin

text \<open>
  The deterministic preview of \<open>pkgs/shrimpus-dashboard/src/preview.rs\<close>, which reduces a
  rendered window to the three colours of the e-paper panel, and the conversion of the
  panel's driver \<open>modules/nixos/orangepi-zero2w/ssd16xx/panel-ssd16xx.c\<close> that it imitates.
\<close>

section \<open>The snapshot of a preview\<close>

datatype preview_error = PreviewPanic | UnknownCase string | SlintError string | PreviewWriteError string

text \<open>
  \<open>now\<close> and \<open>with_day\<close> are \<open>chrono\<close>'s: the instant of the preview, when the local time
  exists, and the date with another day of the month.
\<close>

definition preview_base :: "'d calendar \<Rightarrow> instant \<Rightarrow> 'd snapshot" where
  "preview_base cal now =
     \<lparr>snapshot_date = local_date cal now, snapshot_wifi = Some ''floznet-7'',
      snapshot_weather = Some \<lparr>weather_date = local_date cal now, weather_updated_at = now, weather_code = 2,
        weather_low = 12, weather_high = 19, weather_rain = 30\<rparr>,
      weather_is_current = True\<rparr>"

definition preview_condition :: "string \<Rightarrow> u8" where
  "preview_condition c =
     (if c = ''sun'' then 0 else if c = ''cloud'' then 3 else if c = ''fog'' then 45 else if c = ''rain'' then 63
      else if c = ''snow'' then 73 else if c = ''storm'' then 95 else 255)"

definition preview_snapshot ::
  "'d calendar \<Rightarrow> instant option \<Rightarrow> (nat \<Rightarrow> 'd \<Rightarrow> 'd option) \<Rightarrow> (string \<Rightarrow> string option) \<Rightarrow> (preview_error, 'd snapshot) res" where
  "preview_snapshot cal now with_day env =
     bind_res (ok_or PreviewPanic now) (\<lambda>now.
     let snapshot = preview_base cal now;
         c = (case env ''SHRIMPUS_PREVIEW_CASE'' of Some v \<Rightarrow> v | None \<Rightarrow> ''normal'')
     in
     if c = ''normal'' then Inr snapshot
     else if c = ''offline'' then Inr (snapshot\<lparr>snapshot_wifi := None, weather_is_current := False\<rparr>)
     else if c = ''missing'' then
       Inr (snapshot\<lparr>snapshot_wifi := None, snapshot_weather := None, weather_is_current := False\<rparr>)
     else if c = ''long'' then
       bind_res (ok_or PreviewPanic (with_day 30 (local_date cal now))) (\<lambda>date.
       Inr (snapshot\<lparr>snapshot_date := date, snapshot_wifi := Some ''A very long wireless network name'',
         snapshot_weather := map_option (\<lambda>w. w\<lparr>weather_code := 95, weather_low := - 12, weather_high := - 3,
           weather_rain := 100\<rparr>) (snapshot_weather snapshot)\<rparr>))
     else if c \<in> {''sun'', ''cloud'', ''fog'', ''rain'', ''snow'', ''storm'', ''unknown''} then
       Inr (snapshot\<lparr>snapshot_weather :=
         map_option (\<lambda>w. w\<lparr>weather_code := preview_condition c\<rparr>) (snapshot_weather snapshot)\<rparr>)
     else Inl (UnknownCase c))"

section \<open>Three colours\<close>

record rgb =
  red_part :: u8
  green_part :: u8
  blue_part :: u8

definition preview_luma :: "rgb \<Rightarrow> u32" where
  "preview_luma p = drop_bit 8 (77 * ucast (red_part p) + 150 * ucast (green_part p) + 29 * ucast (blue_part p))"

definition preview_color :: "rgb \<Rightarrow> u8 list" where
  "preview_color p =
     (if 127 < red_part p \<and> green_part p < red_part p \<and> blue_part p < red_part p then [255, 0, 0]
      else if 127 < preview_luma p then [255, 255, 255]
      else [0, 0, 0])"

definition ppm_header :: "u8 list" where
  "ppm_header = map (word_of_nat \<circ> code) (''P6'' @ [CHR 0x0A] @ ''296 152'' @ [CHR 0x0A] @ ''255'' @ [CHR 0x0A])"

definition preview_ppm :: "rgb list \<Rightarrow> u8 list" where
  "preview_ppm pixels = ppm_header @ concat (map preview_color pixels)"

text \<open>
  \<open>run\<close> and \<open>render\<close>: slint opens a window, or fails; \<open>draw\<close> is its software renderer, which
  fills the 296 x 152 pixels with what it draws for the properties of the window, and
  \<open>write\<close> the file system.
\<close>

definition preview_run ::
  "'d calendar \<Rightarrow> instant option \<Rightarrow> (nat \<Rightarrow> 'd \<Rightarrow> 'd option) \<Rightarrow> (string \<Rightarrow> string option) \<Rightarrow> (string, unit) res \<Rightarrow>
   (preview_error, display) res" where
  "preview_run cal now with_day env window =
     bind_res (map_err SlintError window) (\<lambda>_.
     bind_res (preview_snapshot cal now with_day env) (\<lambda>snapshot.
     Inr (apply_snapshot cal snapshot)))"

definition preview_render ::
  "'d calendar \<Rightarrow> instant option \<Rightarrow> (nat \<Rightarrow> 'd \<Rightarrow> 'd option) \<Rightarrow> (string \<Rightarrow> string option) \<Rightarrow> (string, unit) res \<Rightarrow>
   (display \<Rightarrow> rgb list) \<Rightarrow> (u8 list \<Rightarrow> (string, unit) res) \<Rightarrow> (preview_error, u8 list) res" where
  "preview_render cal now with_day env window draw write =
     bind_res (map_err SlintError window) (\<lambda>_.
     bind_res (preview_snapshot cal now with_day env) (\<lambda>snapshot.
     let ppm = preview_ppm (draw (apply_snapshot cal snapshot)) in
     bind_res (map_err PreviewWriteError (write ppm)) (\<lambda>_.
     Inr ppm)))"

section \<open>The panel driver\<close>

definition SSD16XX_WIDTH :: nat where "SSD16XX_WIDTH = 152"
definition SSD16XX_HEIGHT :: nat where "SSD16XX_HEIGHT = 296"
definition SSD16XX_STRIDE :: nat where "SSD16XX_STRIDE = SSD16XX_WIDTH div 8"
definition SSD16XX_FRAME_BYTES :: nat where "SSD16XX_FRAME_BYTES = SSD16XX_STRIDE * SSD16XX_HEIGHT"

definition ssd16xx_map_pixel :: "nat \<Rightarrow> nat \<Rightarrow> nat \<Rightarrow> nat \<times> nat" where
  "ssd16xx_map_pixel rotation physical_x physical_y =
     (if rotation = 90 then (SSD16XX_HEIGHT - 1 - physical_y, physical_x)
      else if rotation = 180 then (SSD16XX_WIDTH - 1 - physical_x, SSD16XX_HEIGHT - 1 - physical_y)
      else if rotation = 270 then (physical_y, SSD16XX_WIDTH - 1 - physical_x)
      else (physical_x, physical_y))"

text \<open>A pixel of an XRGB8888 framebuffer, given by its words.\<close>

definition ssd16xx_read_xrgb :: "(nat \<Rightarrow> nat \<Rightarrow> u32) \<Rightarrow> nat \<Rightarrow> nat \<Rightarrow> rgb" where
  "ssd16xx_read_xrgb fb x y =
     (let pixel = fb x y in
      \<lparr>red_part = ucast (drop_bit 16 pixel AND 0xFF), green_part = ucast (drop_bit 8 pixel AND 0xFF),
       blue_part = ucast (pixel AND 0xFF)\<rparr>)"

definition or_at :: "u8 list \<Rightarrow> nat \<Rightarrow> u8 \<Rightarrow> u8 list" where
  "or_at plane output bits = plane[output := plane ! output OR bits]"

definition driver_red :: "rgb \<Rightarrow> bool" where
  "driver_red p \<longleftrightarrow> 127 < red_part p \<and> green_part p < red_part p \<and> blue_part p < red_part p"

definition driver_luma :: "rgb \<Rightarrow> 16 word" where
  "driver_luma p = ucast (drop_bit 8
     (77 * ucast (red_part p) + 150 * ucast (green_part p) + 29 * ucast (blue_part p) :: u32))"

definition ssd16xx_convert_pixel ::
  "nat \<Rightarrow> (nat \<Rightarrow> nat \<Rightarrow> rgb) \<Rightarrow> u8 list \<times> u8 list \<Rightarrow> nat \<times> nat \<Rightarrow> u8 list \<times> u8 list" where
  "ssd16xx_convert_pixel rotation read = (\<lambda>(black, red) (physical_y, physical_x).
     let output = physical_y * SSD16XX_STRIDE + physical_x div 8;
         bits = push_bit (7 - physical_x mod 8) 1;
         (source_x, source_y) = ssd16xx_map_pixel rotation physical_x physical_y;
         p = read source_x source_y
     in if driver_red p then (or_at black output bits, or_at red output bits)
        else if 127 < driver_luma p then (or_at black output bits, red)
        else (black, red))"

definition ssd16xx_convert :: "nat \<Rightarrow> (nat \<Rightarrow> nat \<Rightarrow> rgb) \<Rightarrow> u8 list \<times> u8 list" where
  "ssd16xx_convert rotation read =
     foldl (ssd16xx_convert_pixel rotation read)
       (replicate SSD16XX_FRAME_BYTES 0, replicate SSD16XX_FRAME_BYTES 0)
       (List.product [0..<SSD16XX_HEIGHT] [0..<SSD16XX_WIDTH])"

section \<open>Agreement\<close>

text \<open>What the panel shows for a bit of the two planes.\<close>

definition panel_color :: "bool \<Rightarrow> bool \<Rightarrow> u8 list" where
  "panel_color black red = (if red then [255, 0, 0] else if black then [255, 255, 255] else [0, 0, 0])"

definition plane_bit :: "u8 list \<Rightarrow> nat \<Rightarrow> nat \<Rightarrow> bool" where
  "plane_bit plane physical_x physical_y =
     bit (plane ! (physical_y * SSD16XX_STRIDE + physical_x div 8)) (7 - physical_x mod 8)"

lemma luma_bound: "unat (preview_luma p) < 256"
proof -
  have "unat (red_part p) < 256" "unat (green_part p) < 256" "unat (blue_part p) < 256"
    using unsigned_less [of "red_part p", where 'a = nat] unsigned_less [of "green_part p", where 'a = nat]
      unsigned_less [of "blue_part p", where 'a = nat] by simp_all
  then have sum: "77 * unat (red_part p) + 150 * unat (green_part p) + 29 * unat (blue_part p) < 65536" by linarith
  have "unat (77 * ucast (red_part p) + 150 * ucast (green_part p) + 29 * ucast (blue_part p) :: u32) =
      77 * unat (red_part p) + 150 * unat (green_part p) + 29 * unat (blue_part p)"
    using sum by (simp add: unat_word_ariths unsigned_ucast_eq take_bit_eq_mod)
  then show ?thesis using sum
    by (simp add: preview_luma_def drop_bit_eq_div unat_div_distrib div_less_iff_less_mult)
qed

lemma driver_luma_eq: "127 < driver_luma p \<longleftrightarrow> 127 < preview_luma p"
proof -
  have "unat (driver_luma p) = unat (preview_luma p)"
    using luma_bound [of p] by (simp add: driver_luma_def preview_luma_def unsigned_ucast_eq take_bit_eq_mod)
  then show ?thesis by (simp add: word_less_nat_alt)
qed

lemma preview_color_panel:
  "preview_color p = panel_color (driver_red p \<or> 127 < driver_luma p) (driver_red p)"
  by (simp add: preview_color_def panel_color_def driver_luma_eq driver_red_def)

text \<open>The planes one at a time: a plane collects the masks of the pixels that set it.\<close>

definition plane_of :: "(nat \<times> nat \<Rightarrow> bool) \<Rightarrow> (nat \<times> nat) list \<Rightarrow> u8 list \<Rightarrow> u8 list" where
  "plane_of on ps plane =
     foldl (\<lambda>plane (y, x). if on (y, x) then or_at plane (y * SSD16XX_STRIDE + x div 8) (push_bit (7 - x mod 8) 1) else plane)
       plane ps"

lemma bit_or_at:
  assumes "i < length plane" "n < 8"
  shows "bit (or_at plane output (push_bit k 1) ! i) n \<longleftrightarrow> bit (plane ! i) n \<or> output = i \<and> k = n"
proof (cases "output = i")
  case True
  have "bit (push_bit k 1 :: u8) n \<longleftrightarrow> k = n" using assms(2) by (auto simp: bit_simps)
  then show ?thesis using True assms(1) by (simp add: or_at_def bit_or_iff)
next
  case False
  then show ?thesis by (simp add: or_at_def)
qed

lemma length_plane_of [simp]: "length (plane_of on ps plane) = length plane"
  unfolding plane_of_def by (induction ps arbitrary: plane) (auto simp: or_at_def)

lemma bit_plane_of:
  assumes "i < length plane" "n < 8"
  shows "bit (plane_of on ps plane ! i) n \<longleftrightarrow>
    bit (plane ! i) n \<or> (\<exists>(y, x) \<in> set ps. on (y, x) \<and> y * SSD16XX_STRIDE + x div 8 = i \<and> 7 - x mod 8 = n)"
  using assms(1)
proof (induction ps arbitrary: plane)
  case Nil
  then show ?case by (simp add: plane_of_def)
next
  case (Cons p ps)
  obtain y x where p: "p = (y, x)" by fastforce
  let ?o = "y * SSD16XX_STRIDE + x div 8"
  let ?plane = "if on (y, x) then or_at plane ?o (push_bit (7 - x mod 8) 1) else plane"
  have step: "bit (?plane ! i) n \<longleftrightarrow> bit (plane ! i) n \<or> on (y, x) \<and> ?o = i \<and> 7 - x mod 8 = n"
    using bit_or_at [OF Cons.prems assms(2)] by simp
  have "plane_of on (p # ps) plane = plane_of on ps ?plane" by (simp add: plane_of_def p)
  moreover have "i < length ?plane" using Cons.prems by (simp add: or_at_def)
  ultimately show ?case using Cons.IH [of ?plane] step p by auto
qed

lemma convert_planes:
  "foldl (ssd16xx_convert_pixel rotation read) (black, red) ps =
   (plane_of (\<lambda>(y, x). let p = case ssd16xx_map_pixel rotation x y of (sx, sy) \<Rightarrow> read sx sy in driver_red p \<or> 127 < driver_luma p) ps black,
    plane_of (\<lambda>(y, x). driver_red (case ssd16xx_map_pixel rotation x y of (sx, sy) \<Rightarrow> read sx sy)) ps red)"
  by (induction ps arbitrary: black red)
    (auto simp: ssd16xx_convert_pixel_def plane_of_def Let_def split: prod.splits)

lemma plane_address:
  assumes "x < SSD16XX_WIDTH" "x' < SSD16XX_WIDTH"
    "y * SSD16XX_STRIDE + x div 8 = y' * SSD16XX_STRIDE + x' div 8" "7 - x mod 8 = 7 - x' mod 8"
  shows "x = x' \<and> y = y'"
proof -
  have "x div 8 < 19" "x' div 8 < 19" using assms(1,2) by (auto simp: SSD16XX_WIDTH_def)
  then have y: "y = y'" using assms(3) by (simp add: SSD16XX_STRIDE_def SSD16XX_WIDTH_def)
  then have "x div 8 = x' div 8" using assms(3) by simp
  moreover have "x mod 8 = x' mod 8" using assms(4) by (simp add: diff_diff_cancel)
  ultimately show ?thesis using y by (metis div_mult_mod_eq)
qed

lemma plane_bit_plane_of:
  assumes "x < SSD16XX_WIDTH" "y < SSD16XX_HEIGHT"
  shows "plane_bit (plane_of on (List.product [0..<SSD16XX_HEIGHT] [0..<SSD16XX_WIDTH]) (replicate SSD16XX_FRAME_BYTES 0)) x y
    \<longleftrightarrow> on (y, x)"
proof -
  have "y * SSD16XX_STRIDE + x div 8 < SSD16XX_FRAME_BYTES"
    using assms by (auto simp: SSD16XX_FRAME_BYTES_def SSD16XX_STRIDE_def SSD16XX_WIDTH_def SSD16XX_HEIGHT_def)
  then have "plane_bit (plane_of on (List.product [0..<SSD16XX_HEIGHT] [0..<SSD16XX_WIDTH]) (replicate SSD16XX_FRAME_BYTES 0)) x y
      \<longleftrightarrow> (\<exists>(y', x') \<in> {0..<SSD16XX_HEIGHT} \<times> {0..<SSD16XX_WIDTH}. on (y', x') \<and>
        y' * SSD16XX_STRIDE + x' div 8 = y * SSD16XX_STRIDE + x div 8 \<and> 7 - x' mod 8 = 7 - x mod 8)" (is "_ \<longleftrightarrow> ?set")
    unfolding plane_bit_def by (subst bit_plane_of) simp_all
  also have "?set \<longleftrightarrow> on (y, x)"
  proof
    assume ?set
    then obtain y' x' where p: "x' < SSD16XX_WIDTH" "on (y', x')"
        "y' * SSD16XX_STRIDE + x' div 8 = y * SSD16XX_STRIDE + x div 8" "7 - x' mod 8 = 7 - x mod 8" by auto
    then show "on (y, x)" using plane_address [OF p(1) assms(1) p(3,4)] by simp
  next
    assume "on (y, x)"
    then show ?set using assms by (intro bexI [of _ "(y, x)"]) simp_all
  qed
  finally show ?thesis .
qed

lemma panel_pixel:
  assumes "x < 152" "y < 296"
  shows "(case ssd16xx_convert rotation read of
      (black, red) \<Rightarrow> panel_color (plane_bit black x y) (plane_bit red x y)) =
    preview_color (case ssd16xx_map_pixel rotation x y of (source_x, source_y) \<Rightarrow> read source_x source_y)"
proof -
  have "x < SSD16XX_WIDTH" "y < SSD16XX_HEIGHT" using assms by (simp_all add: SSD16XX_WIDTH_def SSD16XX_HEIGHT_def)
  then show ?thesis
    by (simp add: ssd16xx_convert_def convert_planes plane_bit_plane_of preview_color_panel Let_def)
qed

lemma ppm_pixel:
  assumes "i < length pixels"
  shows "take 3 (drop (length ppm_header + 3 * i) (preview_ppm pixels)) = preview_color (pixels ! i)"
proof -
  have three: "length (preview_color p) = 3" for p by (simp add: preview_color_def)
  have "take 3 (drop (3 * i) (concat (map preview_color pixels))) = preview_color (pixels ! i)"
    using assms
  proof (induction pixels arbitrary: i)
    case (Cons p pixels)
    then show ?case by (cases i) (simp_all add: three)
  qed simp
  then show ?thesis by (simp add: preview_ppm_def)
qed

text \<open>
  C8: The preview file is what the panel shows. When rendering a preview succeeds and the frame
  buffer of the panel, mounted in landscape either way round, holds the rendered window,
  then at every pixel of the panel the colour of the two bits that the driver computes is
  the colour the file has for the pixel shown there; the file has the header of a
  296 x 152 picture and nothing else.
\<close>
theorem preview_file_matches_panel:
  assumes "preview_render cal now with_day env window draw write = Inr ppm"
    and "\<And>d. length (draw d) = 296 * 152"
    and "rotation = 90 \<or> rotation = 270" "x < 152" "y < 296"
    and "ssd16xx_map_pixel rotation x y = (source_x, source_y)"
  shows "\<exists>d. preview_run cal now with_day env window = Inr d \<and>
    take 3 (drop (length ppm_header + 3 * (source_y * 296 + source_x)) ppm) =
      (case ssd16xx_convert rotation (\<lambda>column row. draw d ! (row * 296 + column)) of
        (black, red) \<Rightarrow> panel_color (plane_bit black x y) (plane_bit red x y)) \<and>
    take (length ppm_header) ppm = ppm_header \<and> length ppm = length ppm_header + 3 * (296 * 152)"
proof -
  obtain snapshot where run: "preview_run cal now with_day env window = Inr (apply_snapshot cal snapshot)"
      and ppm: "ppm = preview_ppm (draw (apply_snapshot cal snapshot))"
    using assms(1) by (auto simp: preview_render_def preview_run_def Let_def)
  let ?d = "apply_snapshot cal snapshot"
  have source: "source_x < 296" "source_y < 152"
    using assms(3-6) by (auto simp: ssd16xx_map_pixel_def SSD16XX_HEIGHT_def SSD16XX_WIDTH_def)
  then have i: "source_y * 296 + source_x < length (draw ?d)" by (simp add: assms(2))
  have "length (preview_color p) = 3" for p by (simp add: preview_color_def)
  then have "length (concat (map preview_color ps)) = 3 * length ps" for ps by (induction ps) simp_all
  then have len: "length ppm = length ppm_header + 3 * (296 * 152)" by (simp add: ppm preview_ppm_def assms(2))
  show ?thesis
    using run len ppm_pixel [OF i] panel_pixel [OF assms(4,5), of rotation "\<lambda>column row. draw ?d ! (row * 296 + column)"]
    by (intro exI [of _ ?d]) (simp add: ppm assms(6) preview_ppm_def)
qed

lemma preview_file_matches_panel_witness:
  "\<exists>ppm d. preview_render day_calendar (Some 0) (\<lambda>_ d. Some d) (\<lambda>_. None) (Inr ())
      (\<lambda>_. replicate (296 * 152) \<lparr>red_part = 200, green_part = 10, blue_part = 20\<rparr>) (\<lambda>_. Inr ()) = Inr ppm \<and>
    preview_run day_calendar (Some 0) (\<lambda>_ d. Some d) (\<lambda>_. None) (Inr ()) = Inr d \<and>
    take (length ppm_header) ppm = ppm_header"
proof -
  let ?draw = "\<lambda>_ :: display. replicate (296 * 152) \<lparr>red_part = 200, green_part = 10, blue_part = 20\<rparr>"
  have "preview_snapshot day_calendar (Some 0) (\<lambda>_ d. Some d) (\<lambda>_. None) = Inr (preview_base day_calendar 0)"
    by (simp add: preview_snapshot_def Let_def)
  then have render: "preview_render day_calendar (Some 0) (\<lambda>_ d. Some d) (\<lambda>_. None) (Inr ()) ?draw (\<lambda>_. Inr ()) =
      Inr (preview_ppm (?draw (apply_snapshot day_calendar (preview_base day_calendar 0))))"
    unfolding preview_render_def by simp
  have "ssd16xx_map_pixel 90 3 7 = (288, 3)" by (simp add: ssd16xx_map_pixel_def SSD16XX_HEIGHT_def)
  from preview_file_matches_panel [OF render _ disjI1 [OF refl] _ _ this] render show ?thesis by auto
qed

end
