(* ===== verification/Auth_State.thy ===== *)
theory Auth_State
  imports Layer_Config
begin

text \<open>
  The state file of \<open>pkgs/minecraft-auth/src/main.rs\<close>: its arguments, paths and errors, and
  loading, replacing and deleting the saved login. The file system is a map from paths to
  contents and permissions in which any call may fail; the network, the clock and the
  random source are one further component of the world.
\<close>

section \<open>Errors and arguments\<close>

text \<open>\<open>AuthPanic\<close> is an abort of the program, the others are the variants of the source.\<close>

datatype auth_error =
    Message string
  | Io string
  | Http string
  | Json string
  | Pkcs8 string
  | Signature string
  | AuthPanic

datatype command_kind = Ensure | Show | Logout

record auth_args =
  arg_command :: command_kind
  arg_account :: string
  arg_json :: bool
  arg_reauth :: bool
  arg_no_open_browser :: bool

definition quoted :: "string \<Rightarrow> string" where
  "quoted s = [CHR 0x27] @ s @ [CHR 0x27]"

text \<open>Arguments, or the request to print the help and exit.\<close>

fun parse_auth_options :: "auth_args \<Rightarrow> string list \<Rightarrow> (auth_error, auth_args option) res" where
  "parse_auth_options args [] = Inr (Some args)"
| "parse_auth_options args (arg # rest) =
     (if arg = ''--account'' then
        (case rest of
           [] \<Rightarrow> Inl (Message ''--account requires a value'')
         | account # rest' \<Rightarrow> parse_auth_options (args\<lparr>arg_account := account\<rparr>) rest')
      else if arg = ''--json'' then parse_auth_options (args\<lparr>arg_json := True\<rparr>) rest
      else if arg = ''--reauth'' then parse_auth_options (args\<lparr>arg_reauth := True\<rparr>) rest
      else if arg = ''--no-open-browser'' then parse_auth_options (args\<lparr>arg_no_open_browser := True\<rparr>) rest
      else if arg = ''-h'' \<or> arg = ''--help'' then Inr None
      else Inl (Message (''unknown option '' @ quoted arg)))"

definition parse_auth_args :: "string list \<Rightarrow> (auth_error, auth_args option) res" where
  "parse_auth_args argv =
     (case argv of
        [] \<Rightarrow> Inr None
      | command # rest \<Rightarrow>
          if command = ''-h'' \<or> command = ''--help'' then Inr None
          else
            bind_res
              (if command = ''ensure'' then Inr Ensure
               else if command = ''show'' then Inr Show
               else if command = ''logout'' then Inr Logout
               else Inl (Message (''unknown command '' @ quoted command))) (\<lambda>kind.
            parse_auth_options
              \<lparr>arg_command = kind, arg_account = ''default'', arg_json = False, arg_reauth = False,
               arg_no_open_browser = False\<rparr> rest))"

section \<open>State\<close>

record profile_summary =
  profile_name :: string
  profile_uuid :: string

record auth_state =
  state_version :: u32
  refresh_token :: "string option"
  device_id :: "string option"
  device_key_pem :: "string option"
  last_profile :: "profile_summary option"
  last_updated_at :: "64 word option"

definition STATE_VERSION :: u32 where "STATE_VERSION = 2"

definition default_state :: auth_state where
  "default_state =
     \<lparr>state_version = STATE_VERSION, refresh_token = None, device_id = None, device_key_pem = None,
      last_profile = None, last_updated_at = None\<rparr>"

section \<open>Files\<close>

text \<open>
  A file is its content and its permissions. \<open>disk_faults\<close> holds the outcomes of the coming
  calls: a call that is to fail leaves the files as they are, except that a failing write
  may have created or emptied its file. Permissions are the usual bits: 0x1A4 is 0o644,
  0x180 is 0o600.
\<close>

record 'n auth_world =
  disk_files :: "string \<Rightarrow> (string \<times> nat) option"
  disk_faults :: "bool list"
  net :: 'n

definition disk_op ::
  "('n auth_world \<Rightarrow> 'n auth_world) \<Rightarrow> ('n auth_world \<Rightarrow> 'n auth_world) \<Rightarrow> ('n auth_world, auth_error, unit) io" where
  "disk_op failed succeeded w =
     (let w' = w\<lparr>disk_faults := tl (disk_faults w)\<rparr> in
      if disk_faults w \<noteq> [] \<and> hd (disk_faults w) then Some (Inl (Io ''I/O error''), failed w')
      else Some (Inr (), succeeded w'))"

text \<open>The permissions of a new file, for the usual umask; an existing file keeps its own.\<close>

definition put_file :: "string \<Rightarrow> string \<Rightarrow> (string \<Rightarrow> (string \<times> nat) option) \<Rightarrow> string \<Rightarrow> (string \<times> nat) option" where
  "put_file path contents files =
     files(path \<mapsto> (contents, case files path of Some (_, mode) \<Rightarrow> mode | None \<Rightarrow> 0x1A4))"

definition fs_write :: "string \<Rightarrow> string \<Rightarrow> ('n auth_world, auth_error, unit) io" where
  "fs_write path contents =
     disk_op (disk_files_update (put_file path [])) (disk_files_update (put_file path contents))"

definition fs_create_dirs :: "('n auth_world, auth_error, unit) io" where
  "fs_create_dirs = disk_op id id"

text \<open>Calls on a file that has to exist.\<close>

definition on_file :: "string \<Rightarrow> ('n auth_world, auth_error, 'a) io \<Rightarrow> ('n auth_world, auth_error, 'a) io" where
  "on_file path op w = (if disk_files w path = None then Some (Inl (Io ''No such file or directory''), w) else op w)"

definition fs_set_mode :: "string \<Rightarrow> nat \<Rightarrow> ('n auth_world, auth_error, unit) io" where
  "fs_set_mode path mode = on_file path
     (disk_op id (disk_files_update (\<lambda>files. files(path := map_option (\<lambda>(contents, _). (contents, mode)) (files path)))))"

definition fs_rename :: "string \<Rightarrow> string \<Rightarrow> ('n auth_world, auth_error, unit) io" where
  "fs_rename path path' = on_file path
     (disk_op id (disk_files_update (\<lambda>files. files(path := None, path' := files path))))"

definition fs_remove :: "string \<Rightarrow> ('n auth_world, auth_error, unit) io" where
  "fs_remove path = on_file path (disk_op id (disk_files_update (\<lambda>files. files(path := None))))"

definition fs_read :: "string \<Rightarrow> ('n auth_world, auth_error, string) io" where
  "fs_read path = on_file path (io_bind (disk_op id id) (\<lambda>_ w.
     Some (Inr (case disk_files w path of Some (contents, _) \<Rightarrow> contents | None \<Rightarrow> []), w)))"

definition fs_exists :: "string \<Rightarrow> 'n auth_world \<Rightarrow> bool" where
  "fs_exists path w \<longleftrightarrow> disk_files w path \<noteq> None"

section \<open>Paths\<close>

text \<open>\<open>PathBuf::join\<close> on Unix.\<close>

definition path_join :: "string \<Rightarrow> string \<Rightarrow> string" where
  "path_join dir name =
     (if starts_with name ''/'' then name
      else if dir = [] \<or> ends_with dir ''/'' then dir @ name
      else dir @ ''/'' @ name)"

definition data_home :: "(string \<Rightarrow> string option) \<Rightarrow> string" where
  "data_home env =
    (case env ''XDG_DATA_HOME'' of
       Some path \<Rightarrow> path
     | None \<Rightarrow> path_join (path_join (case env ''HOME'' of Some home \<Rightarrow> home | None \<Rightarrow> []) ''.local'') ''share'')"

definition state_path :: "(string \<Rightarrow> string option) \<Rightarrow> string \<Rightarrow> string" where
  "state_path env account = path_join (path_join (data_home env) ''minecraft-auth'') (account @ ''.json'')"

text \<open>
  \<open>with_extension("tmp")\<close> of a path that ends in \<open>.json\<close>; a file name that is nothing but
  \<open>.json\<close> has no extension and gets one.
\<close>

definition with_tmp_extension :: "string \<Rightarrow> string" where
  "with_tmp_extension path =
     (if path = ''.json'' \<or> ends_with path ''/.json'' then path @ ''.tmp''
      else (case strip_suffix ''.json'' path of Some stem \<Rightarrow> stem @ ''.tmp'' | None \<Rightarrow> path @ ''.tmp''))"

lemma with_tmp_extension_neq: "with_tmp_extension (p @ ''.json'') \<noteq> p @ ''.json''"
  by (simp add: with_tmp_extension_def)

lemma path_join_suffix: "\<exists>p. path_join dir (name @ suffix) = p @ suffix"
  by (auto simp: path_join_def simp flip: append_assoc)

lemma state_path_json: "\<exists>p. state_path env account = p @ ''.json''"
  unfolding state_path_def by (rule path_join_suffix)

lemma state_tmp_path [simp]: "with_tmp_extension (state_path env account) \<noteq> state_path env account"
  by (metis state_path_json with_tmp_extension_neq)

section \<open>Loading and saving\<close>

text \<open>\<open>serde_json\<close> on the structures: what the program's derives print and parse.\<close>

record state_format =
  parse_state :: "string \<Rightarrow> (string, auth_state) res"
  render_state :: "auth_state \<Rightarrow> (string, string) res"

definition load_state :: "state_format \<Rightarrow> string \<Rightarrow> ('n auth_world, auth_error, auth_state) io" where
  "load_state F path w =
     (if \<not> fs_exists path w then Some (Inr default_state, w)
      else
        io_bind (fs_read path) (\<lambda>contents.
        io_bind (io_lift (map_err Json (parse_state F contents))) (\<lambda>state.
        io_return (if state_version state = 0 then state\<lparr>state_version := STATE_VERSION\<rparr> else state))) w)"

definition save_state :: "state_format \<Rightarrow> string \<Rightarrow> auth_state \<Rightarrow> ('n auth_world, auth_error, unit) io" where
  "save_state F path state =
     io_bind fs_create_dirs (\<lambda>_.
     io_bind (io_lift (map_err Json (render_state F state))) (\<lambda>contents.
     io_bind (fs_write (with_tmp_extension path) contents) (\<lambda>_.
     io_bind (fs_set_mode (with_tmp_extension path) 0x180) (\<lambda>_.
     fs_rename (with_tmp_extension path) path))))"

record show_output =
  show_path :: string
  show_last_profile :: "profile_summary option"
  show_last_updated_at :: "64 word option"

definition show_state :: "state_format \<Rightarrow> (string \<Rightarrow> string option) \<Rightarrow> string \<Rightarrow> ('n auth_world, auth_error, show_output) io" where
  "show_state F env account w =
     (let path = state_path env account in
      if \<not> fs_exists path w
      then Some (Inl (Message (''No stored Minecraft auth state for account '' @ quoted account)), w)
      else io_bind (load_state F path) (\<lambda>state. io_return
        \<lparr>show_path = path, show_last_profile = last_profile state, show_last_updated_at = last_updated_at state\<rparr>) w)"

definition logout :: "(string \<Rightarrow> string option) \<Rightarrow> string \<Rightarrow> ('n auth_world, auth_error, unit) io" where
  "logout env account w =
     (if fs_exists (state_path env account) w then fs_remove (state_path env account) w else Some (Inr (), w))"

section \<open>What saving does\<close>

lemma disk_op_cases:
  assumes "disk_op failed succeeded w = Some (r, w')"
  obtains (failed) e rest where "r = Inl e" "w' = failed (w\<lparr>disk_faults := rest\<rparr>)"
    | (succeeded) rest where "r = Inr ()" "w' = succeeded (w\<lparr>disk_faults := rest\<rparr>)"
  using assms by (auto simp: disk_op_def Let_def split: if_splits)

lemma save_state_atomic:
  assumes "save_state F path state w = Some (r, w')" "with_tmp_extension path \<noteq> path"
  shows "(\<exists>e. r = Inl e \<and> disk_files w' path = disk_files w path) \<or>
    (\<exists>contents. r = Inr () \<and> render_state F state = Inr contents \<and> disk_files w' path = Some (contents, 0x180))"
proof -
  consider (Dirs) e where "fs_create_dirs w = Some (Inl e, w')" "r = Inl e"
    | (Print) w1 where "fs_create_dirs w = Some (Inr (), w1)" "\<exists>e. r = Inl e" "w' = w1"
    | (Write) w1 c e where "fs_create_dirs w = Some (Inr (), w1)" "fs_write (with_tmp_extension path) c w1 = Some (Inl e, w')" "r = Inl e"
    | (Mode) w1 w2 c e where "fs_create_dirs w = Some (Inr (), w1)" "fs_write (with_tmp_extension path) c w1 = Some (Inr (), w2)"
        "fs_set_mode (with_tmp_extension path) 0x180 w2 = Some (Inl e, w')" "r = Inl e"
    | (Moved) w1 w2 w3 c where "fs_create_dirs w = Some (Inr (), w1)" "fs_write (with_tmp_extension path) c w1 = Some (Inr (), w2)"
        "fs_set_mode (with_tmp_extension path) 0x180 w2 = Some (Inr (), w3)" "fs_rename (with_tmp_extension path) path w3 = Some (r, w')"
        "render_state F state = Inr c"
    using assms(1) by (auto simp: save_state_def io_bind_eq_Some io_lift_app)
  then show ?thesis
  proof cases
    case Dirs
    then show ?thesis by (auto simp: fs_create_dirs_def elim: disk_op_cases)
  next
    case Print
    then show ?thesis by (auto simp: fs_create_dirs_def elim: disk_op_cases)
  next
    case Write
    then show ?thesis using assms(2) by (auto simp: fs_create_dirs_def fs_write_def put_file_def elim!: disk_op_cases)
  next
    case Mode
    then show ?thesis using assms(2)
      by (auto simp: fs_create_dirs_def fs_write_def fs_set_mode_def on_file_def put_file_def elim!: disk_op_cases split: if_splits)
  next
    case Moved
    then show ?thesis using assms(2)
      by (auto simp: fs_create_dirs_def fs_write_def fs_set_mode_def fs_rename_def on_file_def put_file_def
          elim!: disk_op_cases split: if_splits)
  qed
qed

lemma load_state_keeps: "load_state F path w = Some (r, w') \<Longrightarrow> disk_files w' = disk_files w \<and> net w' = net w"
  by (auto simp: load_state_def fs_read_def on_file_def io_bind_eq_Some io_lift_app io_return_app elim!: disk_op_cases
      split: if_splits)

text \<open>
  C38: The temporary file is not private. It is created with the default permissions and only
  then restricted, so when the restriction fails, the tokens stay behind in a file that
  every user may read, beside an untouched state file.
\<close>
theorem failed_chmod_exposes_state:
  assumes "disk_faults w = [False, False, True]" "render_state F state = Inr contents"
    and "disk_files w (with_tmp_extension path) = None" "with_tmp_extension path \<noteq> path"
  shows "\<exists>e w'. save_state F path state w = Some (Inl e, w') \<and>
    disk_files w' (with_tmp_extension path) = Some (contents, 0x1A4) \<and> disk_files w' path = disk_files w path"
  using assms
  by (simp add: save_state_def io_bind_def io_lift_app fs_create_dirs_def fs_write_def fs_set_mode_def on_file_def
      disk_op_def put_file_def)

theorem failed_chmod_exposes_state_witness:
  "\<exists>e w'. save_state \<lparr>parse_state = (\<lambda>text. Inr default_state), render_state = (\<lambda>state. Inr ''secret'')\<rparr> ''a.json'' default_state
      \<lparr>disk_files = Map.empty, disk_faults = [False, False, True], net = ()\<rparr> = Some (Inl e, w') \<and>
    disk_files w' ''a.tmp'' = Some (''secret'', 0x1A4)"
proof -
  have tmp: "with_tmp_extension ''a.json'' = ''a.tmp''" by code_simp
  show ?thesis
    using failed_chmod_exposes_state [of "\<lparr>disk_files = Map.empty, disk_faults = [False, False, True], net = ()\<rparr>"
        "\<lparr>parse_state = (\<lambda>text. Inr default_state), render_state = (\<lambda>state. Inr ''secret'')\<rparr>" default_state "''secret''" "''a.json''"]
    by (simp add: tmp) blast
qed

end
