(* ===== verification/Auth_Login.thy ===== *)
theory Auth_Login
  imports Auth_State
begin

text \<open>
  The Microsoft login of \<open>pkgs/minecraft-auth/src/main.rs\<close>: requests and responses, and the
  device-code loop that waits for the user. \<open>reqwest\<close>, \<open>serde_urlencoded\<close> and the text side
  of \<open>serde_json\<close> are parameters; a request always returns, be it with an error.
\<close>

section \<open>The network\<close>

datatype http_method = GET | POST

record http_request =
  http_method :: http_method
  http_url :: string
  http_headers :: "(string \<times> string) list"
  http_body :: string

record http_response =
  http_status :: nat
  http_text :: "(string, string) res"

text \<open>
  The clock is in seconds since the epoch; \<open>net_open_browser\<close> starts \<open>xdg-open\<close>, whose
  failure is ignored.
\<close>

record 'n network =
  net_send :: "http_request \<Rightarrow> 'n \<Rightarrow> (string, http_response) res \<times> 'n"
  net_now :: "'n \<Rightarrow> 64 word \<times> 'n"
  net_sleep :: "64 word \<Rightarrow> 'n \<Rightarrow> 'n"
  net_open_browser :: "string \<Rightarrow> 'n \<Rightarrow> 'n"
  parse_json :: "string \<Rightarrow> (string, json) res"
  print_json :: "json \<Rightarrow> (string, string) res"
  form_encode :: "(string \<times> string) list \<Rightarrow> (string, string) res"

definition on_net :: "('n \<Rightarrow> 'a \<times> 'n) \<Rightarrow> 'n auth_world \<Rightarrow> 'a \<times> 'n auth_world" where
  "on_net f w = (let (x, n) = f (net w) in (x, w\<lparr>net := n\<rparr>))"

definition now_unix :: "'n network \<Rightarrow> ('n auth_world, 'e, 64 word) io" where
  "now_unix N = io_read (on_net (net_now N))"

definition send :: "'n network \<Rightarrow> http_request \<Rightarrow> ('n auth_world, auth_error, http_response) io" where
  "send N request = io_map_err Http (io_call (on_net (net_send N request)))"

definition CLIENT_ID :: string where "CLIENT_ID = ''00000000402b5328''"
definition SCOPE :: string where "SCOPE = ''service::user.auth.xboxlive.com::MBI_SSL''"
definition LIVE_DEVICE_CODE_URL :: string where "LIVE_DEVICE_CODE_URL = ''https://login.live.com/oauth20_connect.srf''"
definition LIVE_TOKEN_URL :: string where "LIVE_TOKEN_URL = ''https://login.live.com/oauth20_token.srf''"

section \<open>Responses\<close>

definition is_success :: "nat \<Rightarrow> bool" where
  "is_success status \<longleftrightarrow> 200 \<le> status \<and> status < 300"

text \<open>The message of a failed request.\<close>

definition error_message :: "json \<Rightarrow> string \<Rightarrow> string" where
  "error_message j body =
     (case (Option.bind (json_get ''error'' j) as_str, Option.bind (json_get ''error_description'' j) as_str) of
        (Some error, Some description) \<Rightarrow> error @ '': '' @ description
      | (Some error, None) \<Rightarrow> error
      | (None, Some description) \<Rightarrow> description
      | (None, None) \<Rightarrow> (case Option.bind (json_get ''Message'' j) as_str of Some m \<Rightarrow> m | None \<Rightarrow> body))"

definition parse_response ::
  "'n network \<Rightarrow> (json \<Rightarrow> (string, 'a) res) \<Rightarrow> http_response \<Rightarrow> (auth_error, 'a) res" where
  "parse_response N from_value response =
     bind_res (map_err Http (http_text response)) (\<lambda>body.
     bind_res (map_err Json (parse_json N body)) (\<lambda>j.
     if \<not> is_success (http_status response) then Inl (Message (error_message j body))
     else map_err Json (from_value j)))"

text \<open>
  The derived \<open>Deserialize\<close> of a struct, from an object: a missing or null optional field is
  none. The positional form from an array, which \<open>serde\<close> would take too, is read as an error.
\<close>

definition field :: "string \<Rightarrow> (json \<Rightarrow> 'a option) \<Rightarrow> json \<Rightarrow> (string, 'a) res" where
  "field name read j = ok_or (''invalid field '' @ name) (Option.bind (json_get name j) read)"

definition optional_field :: "string \<Rightarrow> (json \<Rightarrow> 'a option) \<Rightarrow> json \<Rightarrow> (string, 'a option) res" where
  "optional_field name read j =
     (case json_get name j of
        None \<Rightarrow> Inr None
      | Some JNull \<Rightarrow> Inr None
      | Some v \<Rightarrow> map_sum id Some (ok_or (''invalid field '' @ name) (read v)))"

definition json_u64 :: "json \<Rightarrow> 64 word option" where
  "json_u64 j = map_option word_of_nat (as_u64 j)"

record device_code_response =
  device_code :: string
  user_code :: string
  verification_uri :: string
  code_expires_in :: "64 word"
  code_interval :: "64 word option"

record live_token_response =
  live_access_token :: "string option"
  live_refresh_token :: "string option"

definition device_code_of :: "json \<Rightarrow> (string, device_code_response) res" where
  "device_code_of j =
     bind_res (field ''device_code'' as_str j) (\<lambda>dev.
     bind_res (field ''user_code'' as_str j) (\<lambda>user.
     bind_res (field ''verification_uri'' as_str j) (\<lambda>uri.
     bind_res (field ''expires_in'' json_u64 j) (\<lambda>expires.
     bind_res (optional_field ''interval'' json_u64 j) (\<lambda>interval.
     Inr \<lparr>device_code = dev, user_code = user, verification_uri = uri, code_expires_in = expires,
       code_interval = interval\<rparr>)))))"

definition live_token_of :: "json \<Rightarrow> (string, live_token_response) res" where
  "live_token_of j =
     bind_res (optional_field ''access_token'' as_str j) (\<lambda>access.
     bind_res (optional_field ''refresh_token'' as_str j) (\<lambda>refresh.
     Inr \<lparr>live_access_token = access, live_refresh_token = refresh\<rparr>))"

section \<open>Requests\<close>

definition request_form ::
  "'n network \<Rightarrow> (json \<Rightarrow> (string, 'a) res) \<Rightarrow> string \<Rightarrow> (string \<times> string) list \<Rightarrow> ('n auth_world, auth_error, 'a) io" where
  "request_form N from_value url params =
     io_bind (io_lift (map_err Message (form_encode N params))) (\<lambda>body.
     io_bind (send N \<lparr>http_method = POST, http_url = url,
       http_headers = [(''content-type'', ''application/x-www-form-urlencoded'')], http_body = body\<rparr>) (\<lambda>response.
     io_lift (parse_response N from_value response)))"

definition request_device_code :: "'n network \<Rightarrow> ('n auth_world, auth_error, device_code_response) io" where
  "request_device_code N =
     request_form N device_code_of LIVE_DEVICE_CODE_URL
       [(''client_id'', CLIENT_ID), (''scope'', SCOPE), (''response_type'', ''device_code'')]"

definition refresh_live_token :: "'n network \<Rightarrow> string \<Rightarrow> ('n auth_world, auth_error, live_token_response) io" where
  "refresh_live_token N token =
     request_form N live_token_of LIVE_TOKEN_URL
       [(''client_id'', CLIENT_ID), (''scope'', SCOPE), (''grant_type'', ''refresh_token''), (''refresh_token'', token)]"

definition exchange_device_code :: "'n network \<Rightarrow> string \<Rightarrow> ('n auth_world, auth_error, live_token_response) io" where
  "exchange_device_code N dev =
     request_form N live_token_of LIVE_TOKEN_URL
       [(''client_id'', CLIENT_ID), (''grant_type'', ''device_code''), (''device_code'', dev)]"

section \<open>The device-code loop\<close>

text \<open>What an exchange means for the loop: done, or wait with this interval and ask again.\<close>

fun after_exchange ::
  "64 word \<Rightarrow> (auth_error, live_token_response) res \<Rightarrow> (auth_error, live_token_response) res + 64 word" where
  "after_exchange interval (Inr token) = Inl (Inr token)"
| "after_exchange interval (Inl (Message message)) =
     (if contains message ''authorization_pending'' then Inr interval
      else if contains message ''slow_down'' then Inr (interval + 1)
      else Inl (Inl (Message message)))"
| "after_exchange interval (Inl error) = Inl (Inl error)"

text \<open>The body of the loop; the exchange is one effect on the world, which always returns.\<close>

definition poll_body ::
  "'n network \<Rightarrow> ('n auth_world \<Rightarrow> (auth_error, live_token_response) res \<times> 'n auth_world) \<Rightarrow> 64 word \<Rightarrow> 64 word \<Rightarrow>
   'n auth_world \<Rightarrow> ((auth_error, live_token_response) res + 64 word) \<times> 'n auth_world" where
  "poll_body N exchange expires_at interval w =
     (let (now, w1) = on_net (net_now N) w in
      if now < expires_at then
        (let (r, w2) = exchange w1 in
         case after_exchange interval r of
           Inl result \<Rightarrow> (Inl result, w2)
         | Inr interval' \<Rightarrow> (Inr interval', w2\<lparr>net := net_sleep N interval' (net w2)\<rparr>))
      else (Inl (Inl (Message ''Device code login timed out'')), w1))"

definition returned :: "('s, 'e, 'a) io \<Rightarrow> 's \<Rightarrow> ('e, 'a) res \<times> 's" where
  "returned m s = the (m s)"

definition poll_token ::
  "'n network \<Rightarrow> string \<Rightarrow> 64 word \<Rightarrow> 64 word \<Rightarrow> ('n auth_world, auth_error, live_token_response) io" where
  "poll_token N dev expires_at interval =
     io_loop (poll_body N (returned (exchange_device_code N dev)) expires_at) interval"

definition maybe_open_browser :: "'n network \<Rightarrow> string \<Rightarrow> bool \<Rightarrow> ('n auth_world, auth_error, unit) io" where
  "maybe_open_browser N url open_browser =
     (if \<not> open_browser then io_return ()
      else io_read (\<lambda>w. ((), w\<lparr>net := net_open_browser N url (net w)\<rparr>)))"

definition login_device_code :: "'n network \<Rightarrow> bool \<Rightarrow> ('n auth_world, auth_error, live_token_response) io" where
  "login_device_code N open_browser =
     io_bind (request_device_code N) (\<lambda>code.
     io_bind (now_unix N) (\<lambda>now.
     io_bind (maybe_open_browser N (verification_uri code) open_browser) (\<lambda>_.
     poll_token N (device_code code) (now + code_expires_in code)
       (max (case code_interval code of Some i \<Rightarrow> i | None \<Rightarrow> 5) 1))))"

definition acquire_live_token ::
  "'n network \<Rightarrow> auth_state \<Rightarrow> bool \<Rightarrow> bool \<Rightarrow> ('n auth_world, auth_error, live_token_response) io" where
  "acquire_live_token N state reauth open_browser =
     (case (reauth, refresh_token state) of
        (False, Some token) \<Rightarrow>
          io_bind (io_try (refresh_live_token N token)) (\<lambda>refreshed.
          case refreshed of
            Inr token \<Rightarrow> io_return token
          | Inl _ \<Rightarrow> login_device_code N open_browser)
      | _ \<Rightarrow> login_device_code N open_browser)"

lemma request_form_total: "\<exists>r w'. request_form N from_value url params w = Some (r, w')"
proof -
  have "total (request_form N from_value url params)"
    unfolding request_form_def send_def by (intro io_total)
  then show ?thesis unfolding total_def by blast
qed

lemma exchange_returns: "exchange_device_code N dev w = Some (returned (exchange_device_code N dev) w)"
  using request_form_total [of N live_token_of LIVE_TOKEN_URL _ w]
  unfolding returned_def exchange_device_code_def by (metis option.sel)

text \<open>
  What the loop needs of the clock: the time read is the clock's, as far as 64 bits hold it,
  no call turns it back, a sleep lasts at least as long as asked. \<open>requests\<close> counts the requests sent.
\<close>

definition clock_laws :: "'n network \<Rightarrow> ('n \<Rightarrow> nat) \<Rightarrow> ('n \<Rightarrow> nat) \<Rightarrow> bool" where
  "clock_laws N clock requests \<longleftrightarrow>
     (\<forall>n. unat (fst (net_now N n)) = min (clock n) (2 ^ 64 - 1) \<and> clock n \<le> clock (snd (net_now N n)) \<and>
        requests (snd (net_now N n)) = requests n) \<and>
     (\<forall>n request. clock n \<le> clock (snd (net_send N request n)) \<and>
        requests (snd (net_send N request n)) = requests n + 1) \<and>
     (\<forall>n s. clock n + unat s \<le> clock (net_sleep N s n) \<and> requests (net_sleep N s n) = requests n)"

lemma exchange_effect:
  assumes "clock_laws N clock requests" "returned (exchange_device_code N dev) w = (r, w')"
  shows "clock (net w) \<le> clock (net w') \<and> requests (net w') \<le> requests (net w) + 1"
proof -
  let ?params = "[(''client_id'', CLIENT_ID), (''grant_type'', ''device_code''), (''device_code'', dev)]"
  have run: "exchange_device_code N dev w = Some (r, w')" using exchange_returns [of N dev w] assms(2) by simp
  show ?thesis
  proof (cases "form_encode N ?params")
    case (Inl e)
    then show ?thesis using run
      by (simp add: exchange_device_code_def request_form_def io_bind_def io_lift_app)
  next
    case (Inr body)
    obtain request where "w' = w\<lparr>net := snd (net_send N request (net w))\<rparr>"
      using run Inr
      by (auto simp: exchange_device_code_def request_form_def io_bind_eq_Some io_lift_app send_def io_map_err_eq_Some
          io_call_app on_net_def case_prod_beta)
    then show ?thesis using assms(1) by (simp add: clock_laws_def)
  qed
qed

lemma after_exchange_wait:
  "after_exchange i r = Inr i' \<Longrightarrow> i' = i \<or> i' = i + 1"
  by (cases "(i, r)" rule: after_exchange.cases) (auto split: if_splits)

lemma after_exchange_stop:
  "after_exchange i r = Inl q \<Longrightarrow> q = r \<and>
     (\<forall>m. r = Inl (Message m) \<longrightarrow> \<not> contains m ''authorization_pending'' \<and> \<not> contains m ''slow_down'')"
  by (cases "(i, r)" rule: after_exchange.cases) (auto split: if_splits)

lemma poll_body_step:
  assumes laws: "clock_laws N clock requests"
    and "poll_body N (returned (exchange_device_code N dev)) expires_at i w = (out, w')"
  shows "case out of
      Inr i' \<Rightarrow> (i' = i \<or> i' = i + 1) \<and> clock (net w) < unat expires_at \<and>
        clock (net w) + unat i' \<le> clock (net w') \<and> requests (net w') \<le> requests (net w) + 1
    | Inl r \<Rightarrow>
        (r = Inl (Message ''Device code login timed out'') \<and> requests (net w') = requests (net w) \<or>
         clock (net w) < unat expires_at \<and> requests (net w') \<le> requests (net w) + 1 \<and>
         (\<forall>m. r = Inl (Message m) \<longrightarrow> \<not> contains m ''authorization_pending'' \<and> \<not> contains m ''slow_down''))"
proof -
  obtain now n1 where now: "net_now N (net w) = (now, n1)" by fastforce
  let ?w1 = "w\<lparr>net := n1\<rparr>"
  have n1: "unat now = min (clock (net w)) (2 ^ 64 - 1)" "clock (net w) \<le> clock n1" "requests n1 = requests (net w)"
    using laws now by (auto simp: clock_laws_def dest!: spec [of _ "net w"])
  obtain r w2 where ex: "returned (exchange_device_code N dev) ?w1 = (r, w2)" by fastforce
  have w2: "clock n1 \<le> clock (net w2)" "requests (net w2) \<le> requests (net w) + 1"
    using exchange_effect [OF laws ex] n1(3) by simp_all
  have sleep: "clock (net w2) + unat s \<le> clock (net_sleep N s (net w2)) \<and> requests (net_sleep N s (net w2)) = requests (net w2)" for s
    using laws by (simp add: clock_laws_def)
  show ?thesis
  proof (cases "now < expires_at")
    case False
    then show ?thesis using assms(2) now n1 by (auto simp: poll_body_def on_net_def)
  next
    case True
    have "unat expires_at < 2 ^ 64" using unsigned_less [of expires_at, where 'a = nat] by simp
    then have lt: "clock (net w) < unat expires_at" using True n1(1) by (simp add: word_less_nat_alt)
    show ?thesis
    proof (cases "after_exchange i r")
      case (Inl q)
      have "out = Inl q" "w' = w2"
        using assms(2) now True ex Inl by (simp_all add: poll_body_def on_net_def)
      then show ?thesis using lt w2 after_exchange_stop [OF Inl] by simp
    next
      case (Inr i')
      have "out = Inr i'" "w' = w2\<lparr>net := net_sleep N i' (net w2)\<rparr>"
        using assms(2) now True ex Inr by (simp_all add: poll_body_def on_net_def)
      then show ?thesis using lt w2 n1(2) sleep [of i'] after_exchange_wait [OF Inr] by simp
    qed
  qed
qed

lemma poll_wait:
  assumes laws: "clock_laws N clock requests"
    and step: "poll_body N (returned (exchange_device_code N dev)) expires_at i w = (Inr i', w')"
    and i: "1 \<le> unat i" "unat i + (unat expires_at - clock (net w)) < 2 ^ 64"
  shows "unat i \<le> unat i'" "clock (net w) < unat expires_at" "clock (net w) + unat i' \<le> clock (net w')"
    "requests (net w') \<le> requests (net w) + 1" "unat i' + (unat expires_at - clock (net w')) < 2 ^ 64"
proof -
  note s = poll_body_step [OF laws step, simplified]
  have "unat i + 1 < 2 ^ 64" using i(2) s by linarith
  then have "unat (i + 1) = unat i + 1" by (simp add: unat_word_ariths)
  with s show le: "unat i \<le> unat i'" by auto
  from s show "clock (net w) < unat expires_at" "clock (net w) + unat i' \<le> clock (net w')"
    "requests (net w') \<le> requests (net w) + 1" by simp_all
  then show "unat i' + (unat expires_at - clock (net w')) < 2 ^ 64"
    using i le s \<open>unat (i + 1) = unat i + 1\<close> by auto
qed


text \<open>A server that asks to slow down, then twice to wait, and then answers with a token.\<close>

definition demo_network :: "(nat \<times> nat) network" where
  "demo_network =
     \<lparr>net_send = (\<lambda>request (clock, requests).
        (Inr \<lparr>http_status = (if requests < 3 then 400 else 200),
           http_text = Inr (if requests = 0 then ''slow'' else if requests < 3 then ''wait'' else ''token'')\<rparr>,
         (clock, requests + 1))),
      net_now = (\<lambda>(clock, requests). (word_of_nat (min clock (2 ^ 64 - 1)), (clock, requests))),
      net_sleep = (\<lambda>s (clock, requests). (clock + unat s, requests)),
      net_open_browser = (\<lambda>url n. n),
      parse_json = (\<lambda>text. Inr (JObject
        (if text = ''slow'' then [(''error'', JString ''slow_down'')]
         else if text = ''wait'' then [(''error'', JString ''authorization_pending'')]
         else [(''access_token'', JString ''t''), (''refresh_token'', JString ''r'')]))),
      print_json = (\<lambda>j. Inr []),
      form_encode = (\<lambda>params. Inr ''form'')\<rparr>"

lemma demo_clock_laws: "clock_laws demo_network fst snd"
proof -
  have "unat (word_of_nat (min c (2 ^ 64 - 1)) :: 64 word) = min c (2 ^ 64 - 1)" for c
  proof -
    have "min c (2 ^ 64 - 1) < (2 ^ 64 :: nat)" by simp
    then have "take_bit 64 (min c (2 ^ 64 - 1)) = min c (2 ^ 64 - 1)" by (simp only: take_bit_eq_mod mod_less)
    then show ?thesis by (simp add: unsigned_of_nat)
  qed
  then show ?thesis by (auto simp: clock_laws_def demo_network_def)
qed


end
