(* ===== verification/Auth_Session.thy ===== *)
theory Auth_Session
  imports Auth_Login
begin

text \<open>
  The session of \<open>pkgs/minecraft-auth/src/main.rs\<close>: the identity of the device, signed
  requests to Xbox Live, the chain from a Microsoft token to a Minecraft session, and what
  is saved at its end. Keys, hashes, signatures, base64, UUIDs and URLs belong to crates
  that the repository does not contain and are parameters.
\<close>

section \<open>Cryptography\<close>

text \<open>A UUID is the string it prints as; \<open>key_x\<close> and \<open>key_y\<close> are the coordinates of the public key.\<close>

record ('k, 'n) crypto =
  uuid_parse :: "string \<Rightarrow> (string, string) res"
  uuid_new :: "'n \<Rightarrow> string \<times> 'n"
  key_from_pem :: "string \<Rightarrow> (string, 'k) res"
  key_new :: "'n \<Rightarrow> 'k \<times> 'n"
  key_to_pem :: "'k \<Rightarrow> (string, string) res"
  key_x :: "'k \<Rightarrow> byte list"
  key_y :: "'k \<Rightarrow> byte list"
  sha256 :: "byte list \<Rightarrow> byte list"
  sign_prehash :: "'k \<Rightarrow> byte list \<Rightarrow> (string, byte list) res"
  base64 :: "byte list \<Rightarrow> string"
  base64_url :: "byte list \<Rightarrow> string"
  parse_url :: "string \<Rightarrow> (string, string \<times> string option) res"

definition DEVICE_TYPE :: string where "DEVICE_TYPE = ''Win32''"
definition XBOX_DEVICE_AUTH_URL :: string where "XBOX_DEVICE_AUTH_URL = ''https://device.auth.xboxlive.com/device/authenticate''"
definition XBOX_SISU_URL :: string where "XBOX_SISU_URL = ''https://sisu.xboxlive.com/authorize''"
definition MINECRAFT_LAUNCHER_LOGIN_URL :: string where "MINECRAFT_LAUNCHER_LOGIN_URL = ''https://api.minecraftservices.com/launcher/login''"
definition MINECRAFT_PROFILE_URL :: string where "MINECRAFT_PROFILE_URL = ''https://api.minecraftservices.com/minecraft/profile''"
definition XBOX_AUTH_RELYING_PARTY :: string where "XBOX_AUTH_RELYING_PARTY = ''http://auth.xboxlive.com''"
definition JAVA_XSTS_RELYING_PARTY :: string where "JAVA_XSTS_RELYING_PARTY = ''rp://api.minecraftservices.com/''"

definition ensure_device_identity ::
  "('k, 'n) crypto \<Rightarrow> auth_state \<Rightarrow> ('n auth_world, auth_error, auth_state \<times> string \<times> 'k) io" where
  "ensure_device_identity C state =
     io_bind (case device_id state of
         Some v \<Rightarrow> io_lift (map_err (\<lambda>e. Message (''invalid stored device id: '' @ e))
           (map_sum id (\<lambda>uuid. (state, uuid)) (uuid_parse C v)))
       | None \<Rightarrow> io_bind (io_read (on_net (uuid_new C))) (\<lambda>uuid. io_return (state\<lparr>device_id := Some uuid\<rparr>, uuid))) (\<lambda>(state, uuid).
     case device_key_pem state of
       Some pem \<Rightarrow> io_lift (map_err Pkcs8 (map_sum id (\<lambda>key. (state, uuid, key)) (key_from_pem C pem)))
     | None \<Rightarrow>
         io_bind (io_read (on_net (key_new C))) (\<lambda>key.
         io_bind (io_lift (map_err Pkcs8 (key_to_pem C key))) (\<lambda>pem.
         io_return (state\<lparr>device_key_pem := Some pem\<rparr>, uuid, key))))"

section \<open>Signatures\<close>

definition windows_timestamp :: "64 word \<Rightarrow> 64 word" where
  "windows_timestamp now = (now + 11644473600) * 10000000"

definition bytes_of :: "string \<Rightarrow> byte list" where
  "bytes_of s = map (\<lambda>c. word_of_nat (code c)) s"

text \<open>\<open>to_be_bytes\<close> of an \<open>u64\<close>, and of the version, the \<open>u32\<close> 1.\<close>

definition u64_bytes :: "64 word \<Rightarrow> byte list" where
  "u64_bytes v = map (\<lambda>i. ucast (drop_bit (8 * i) v)) [7, 6, 5, 4, 3, 2, 1, 0]"

definition version_bytes :: "byte list" where
  "version_bytes = [0, 0, 0, 1]"

definition signed_payload :: "64 word \<Rightarrow> string \<Rightarrow> string \<Rightarrow> string option \<Rightarrow> byte list \<Rightarrow> byte list" where
  "signed_payload timestamp meth path_and_query authorization body =
     version_bytes @ [0] @ u64_bytes timestamp @ [0] @ bytes_of meth @ [0] @ bytes_of path_and_query @ [0] @
     (case authorization of Some v \<Rightarrow> bytes_of v | None \<Rightarrow> []) @ [0] @ body @ [0]"

definition path_and_query_of :: "string \<times> string option \<Rightarrow> string" where
  "path_and_query_of = (\<lambda>(path, query). case query of Some q \<Rightarrow> path @ ''?'' @ q | None \<Rightarrow> path)"

definition signature_header ::
  "('k, 'n) crypto \<Rightarrow> 'n network \<Rightarrow> string \<Rightarrow> string \<Rightarrow> byte list \<Rightarrow> string option \<Rightarrow> 'k \<Rightarrow>
   ('n auth_world, auth_error, string) io" where
  "signature_header C N meth url body authorization key =
     io_bind (io_lift (map_err (\<lambda>e. Message (''invalid URL '' @ quoted url @ '': '' @ e)) (parse_url C url))) (\<lambda>parsed.
     io_bind (now_unix N) (\<lambda>now.
     let timestamp = windows_timestamp now;
         payload = signed_payload timestamp meth (path_and_query_of parsed) authorization body
     in
     io_bind (io_lift (map_err Signature (sign_prehash C key (sha256 C payload)))) (\<lambda>signature.
     io_return (base64 C (version_bytes @ u64_bytes timestamp @ signature)))))"

text \<open>\<open>json!\<close> objects, in the key order of \<open>serde_json\<close>'s maps.\<close>

definition proof_key :: "('k, 'n) crypto \<Rightarrow> 'k \<Rightarrow> json" where
  "proof_key C key = JObject
     [(''alg'', JString ''ES256''), (''crv'', JString ''P-256''), (''kty'', JString ''EC''), (''use'', JString ''sig''),
      (''x'', JString (base64_url C (key_x C key))), (''y'', JString (base64_url C (key_y C key)))]"

definition signed_json_post ::
  "('k, 'n) crypto \<Rightarrow> 'n network \<Rightarrow> (json \<Rightarrow> (string, 'a) res) \<Rightarrow> string \<Rightarrow> json \<Rightarrow> 'k \<Rightarrow> (string \<times> string) list \<Rightarrow>
   ('n auth_world, auth_error, 'a) io" where
  "signed_json_post C N from_value url payload key extra_headers =
     io_bind (io_lift (map_err Json (print_json N payload))) (\<lambda>body.
     io_bind (signature_header C N ''POST'' url (bytes_of body) None key) (\<lambda>signature.
     io_bind (send N \<lparr>http_method = POST, http_url = url,
       http_headers = [(''content-type'', ''application/json''), (''Accept'', ''application/json''), (''Signature'', signature)] @
         extra_headers, http_body = body\<rparr>) (\<lambda>response.
     io_lift (parse_response N from_value response))))"

section \<open>Xbox Live and Minecraft\<close>

record sisu_response =
  sisu_token :: string
  sisu_user_hashes :: "string list"

record launcher_login =
  login_access_token :: string
  login_expires_in :: "64 word"

record minecraft_profile_response =
  profile_response_id :: string
  profile_response_name :: string

fun as_array :: "json \<Rightarrow> json list option" where
  "as_array (JArray js) = Some js"
| "as_array _ = None"

fun as_object :: "json \<Rightarrow> json option" where
  "as_object (JObject kvs) = Some (JObject kvs)"
| "as_object _ = None"

definition sisu_of :: "json \<Rightarrow> (string, sisu_response) res" where
  "sisu_of j =
     bind_res (field ''AuthorizationToken'' as_object j) (\<lambda>authorization.
     bind_res (field ''Token'' as_str authorization) (\<lambda>token.
     bind_res (field ''DisplayClaims'' as_object authorization) (\<lambda>claims.
     bind_res (field ''xui'' as_array claims) (\<lambda>xui.
     bind_res (map_res (field ''uhs'' as_str) xui) (\<lambda>hashes.
     Inr \<lparr>sisu_token = token, sisu_user_hashes = hashes\<rparr>)))))"

definition launcher_login_of :: "json \<Rightarrow> (string, launcher_login) res" where
  "launcher_login_of j =
     bind_res (field ''access_token'' as_str j) (\<lambda>token.
     bind_res (field ''expires_in'' json_u64 j) (\<lambda>expires.
     Inr \<lparr>login_access_token = token, login_expires_in = expires\<rparr>))"

definition minecraft_profile_of :: "json \<Rightarrow> (string, minecraft_profile_response) res" where
  "minecraft_profile_of j =
     bind_res (field ''id'' as_str j) (\<lambda>i.
     bind_res (field ''name'' as_str j) (\<lambda>name.
     Inr \<lparr>profile_response_id = i, profile_response_name = name\<rparr>))"

definition authenticate_device ::
  "('k, 'n) crypto \<Rightarrow> 'n network \<Rightarrow> string \<Rightarrow> 'k \<Rightarrow> ('n auth_world, auth_error, string) io" where
  "authenticate_device C N uuid key =
     signed_json_post C N (field ''Token'' as_str) XBOX_DEVICE_AUTH_URL
       (JObject [(''Properties'', JObject
            [(''AuthMethod'', JString ''ProofOfPossession''), (''DeviceType'', JString DEVICE_TYPE),
             (''Id'', JString (''{'' @ uuid @ ''}'')), (''ProofKey'', proof_key C key)]),
          (''RelyingParty'', JString XBOX_AUTH_RELYING_PARTY), (''TokenType'', JString ''JWT'')])
       key [(''x-xbl-contract-version'', ''1'')]"

definition sisu_authorize ::
  "('k, 'n) crypto \<Rightarrow> 'n network \<Rightarrow> string \<Rightarrow> string \<Rightarrow> 'k \<Rightarrow> ('n auth_world, auth_error, sisu_response) io" where
  "sisu_authorize C N msa_access_token device_token key =
     signed_json_post C N sisu_of XBOX_SISU_URL
       (JObject [(''AccessToken'', JString (''t='' @ msa_access_token)), (''AppId'', JString CLIENT_ID),
          (''DeviceToken'', JString device_token), (''ProofKey'', proof_key C key),
          (''RelyingParty'', JString JAVA_XSTS_RELYING_PARTY), (''Sandbox'', JString ''RETAIL''),
          (''UseModernGamertag'', JBool True)])
       key []"

definition minecraft_launcher_login ::
  "'n network \<Rightarrow> string \<Rightarrow> string \<Rightarrow> ('n auth_world, auth_error, launcher_login) io" where
  "minecraft_launcher_login N user_hash xsts_token =
     io_bind (io_lift (map_err Http (print_json N (JObject [(''platform'', JString ''PC_LAUNCHER''),
       (''xtoken'', JString (''XBL3.0 x='' @ user_hash @ '';'' @ xsts_token))])))) (\<lambda>body.
     io_bind (send N \<lparr>http_method = POST, http_url = MINECRAFT_LAUNCHER_LOGIN_URL,
       http_headers = [(''content-type'', ''application/json'')], http_body = body\<rparr>) (\<lambda>response.
     io_lift (parse_response N launcher_login_of response)))"

definition minecraft_profile ::
  "'n network \<Rightarrow> string \<Rightarrow> ('n auth_world, auth_error, minecraft_profile_response) io" where
  "minecraft_profile N access_token =
     io_bind (send N \<lparr>http_method = GET, http_url = MINECRAFT_PROFILE_URL,
       http_headers = [(''authorization'', ''Bearer '' @ access_token)], http_body = []\<rparr>) (\<lambda>response.
     io_lift (parse_response N minecraft_profile_of response))"

text \<open>Slicing a string aborts at an index inside a character.\<close>

definition char_boundary :: "string \<Rightarrow> nat \<Rightarrow> bool" where
  "char_boundary s i \<longleftrightarrow> i = length s \<or> i < length s \<and> \<not> (0x80 \<le> code (s ! i) \<and> code (s ! i) < 0xC0)"

definition hyphenate_uuid :: "string \<Rightarrow> (auth_error, string) res" where
  "hyphenate_uuid v =
     (if length v \<noteq> 32 then Inl (Message (''unexpected Minecraft profile UUID '' @ quoted v))
      else if \<not> list_all (char_boundary v) [8, 12, 16, 20] then Inl AuthPanic
      else Inr (take 8 v @ ''-'' @ take 4 (drop 8 v) @ ''-'' @ take 4 (drop 12 v) @ ''-'' @
        take 4 (drop 16 v) @ ''-'' @ drop 20 v))"

section \<open>The session\<close>

record session_output =
  session_username :: string
  session_uuid :: string
  session_access_token :: string
  session_expires_at :: "64 word"

text \<open>Everything up to the last line of \<open>ensure_session\<close>, which saves the new state.\<close>

definition login_session ::
  "('k, 'n) crypto \<Rightarrow> 'n network \<Rightarrow> auth_state \<Rightarrow> bool \<Rightarrow> bool \<Rightarrow>
   ('n auth_world, auth_error, session_output \<times> auth_state) io" where
  "login_session C N state reauth open_browser =
     io_bind (ensure_device_identity C state) (\<lambda>(state, uuid, key).
     io_bind (acquire_live_token N state reauth open_browser) (\<lambda>live.
     io_bind (io_lift (ok_or (Message ''Login succeeded without a refresh token'') (live_refresh_token live))) (\<lambda>refresh.
     io_bind (io_lift (ok_or (Message ''Login succeeded without an access token'') (live_access_token live))) (\<lambda>access.
     io_bind (authenticate_device C N uuid key) (\<lambda>device_token.
     io_bind (sisu_authorize C N access device_token key) (\<lambda>sisu.
     io_bind (io_lift (ok_or (Message ''missing SISU user hash'')
       (case sisu_user_hashes sisu of [] \<Rightarrow> None | uhs # _ \<Rightarrow> Some uhs))) (\<lambda>user_hash.
     io_bind (minecraft_launcher_login N user_hash (sisu_token sisu)) (\<lambda>login.
     io_bind (minecraft_profile N (login_access_token login)) (\<lambda>profile.
     io_bind (io_lift (hyphenate_uuid (profile_response_id profile))) (\<lambda>uuid.
     io_bind (now_unix N) (\<lambda>now.
     io_bind (now_unix N) (\<lambda>updated_at.
     let session = \<lparr>session_username = profile_response_name profile, session_uuid = uuid,
         session_access_token = login_access_token login, session_expires_at = now + login_expires_in login\<rparr>
     in
     io_return (session, state\<lparr>state_version := STATE_VERSION, refresh_token := Some refresh,
       last_profile := Some \<lparr>profile_name = session_username session, profile_uuid = session_uuid session\<rparr>,
       last_updated_at := Some updated_at\<rparr>)))))))))))))"

definition ensure_session ::
  "('k, 'n) crypto \<Rightarrow> 'n network \<Rightarrow> state_format \<Rightarrow> (string \<Rightarrow> string option) \<Rightarrow> string \<Rightarrow> bool \<Rightarrow> bool \<Rightarrow>
   ('n auth_world, auth_error, session_output) io" where
  "ensure_session C N F env account reauth open_browser =
     io_bind (load_state F (state_path env account)) (\<lambda>state.
     io_bind (login_session C N state reauth open_browser) (\<lambda>(session, state).
     io_bind (save_state F (state_path env account) state) (\<lambda>_.
     io_return session)))"

section \<open>The program\<close>

definition print_help :: "string list" where
  "print_help =
     [''usage: minecraft-auth <ensure|show|logout> [options]'',
      [],
      ''commands:'',
      ''  ensure  Ensure a valid Minecraft access token exists'',
      ''  show    Show cached auth metadata'',
      ''  logout  Delete cached auth state'',
      [],
      ''options:'',
      ''  --account <name>      Auth state name (default: default)'',
      ''  --json                Print session JSON for '' @ [CHR 0x60] @ ''ensure'' @ [CHR 0x60],
      ''  --reauth              Ignore saved refresh token'',
      ''  --no-open-browser     Do not call xdg-open'',
      ''  -h, --help            Show this help'']"

text \<open>What \<open>main\<close> prints for \<open>Help\<close> is \<open>print_help\<close>; the JSON of the others is \<open>serde_json\<close>'s.\<close>

datatype auth_output =
    Help
  | SessionJson session_output
  | SessionLine string
  | ShowJson show_output
  | LoggedOut

definition auth_main ::
  "('k, 'n) crypto \<Rightarrow> 'n network \<Rightarrow> state_format \<Rightarrow> (string \<Rightarrow> string option) \<Rightarrow> (string, unit) res \<Rightarrow> string list \<Rightarrow>
   ('n auth_world, auth_error, auth_output) io" where
  "auth_main C N F env client argv =
     io_bind (io_lift (parse_auth_args argv)) (\<lambda>parsed.
     case parsed of
       None \<Rightarrow> io_return Help
     | Some args \<Rightarrow>
         io_bind (io_lift (map_err Http client)) (\<lambda>_.
         case arg_command args of
           Ensure \<Rightarrow>
             io_bind (ensure_session C N F env (arg_account args) (arg_reauth args) (\<not> arg_no_open_browser args)) (\<lambda>session.
             io_return (if arg_json args then SessionJson session
               else SessionLine (session_username session @ '' '' @ session_uuid session)))
         | Show \<Rightarrow> io_bind (show_state F env (arg_account args)) (\<lambda>output. io_return (ShowJson output))
         | Logout \<Rightarrow> io_bind (logout env (arg_account args)) (\<lambda>_. io_return LoggedOut)))"

section \<open>A login touches no file\<close>

abbreviation same_files :: "(string \<Rightarrow> (string \<times> nat) option) \<Rightarrow> 'n auth_world \<Rightarrow> bool" where
  "same_files files w \<equiv> disk_files w = files"

lemma keeps_net [io_keeps]: "preserves (same_files files) (io_read (on_net f))"
  by (auto simp: preserves_def io_read_def on_net_def split: prod.splits)

lemma keeps_send [io_keeps]: "preserves (same_files files) (send N request)"
  by (auto simp: preserves_def send_def io_map_err_eq_Some io_call_def on_net_def split: prod.splits)

lemma keeps_now [io_keeps]: "preserves (same_files files) (now_unix N)"
  unfolding now_unix_def by (rule keeps_net)

lemma keeps_request_form [io_keeps]: "preserves (same_files files) (request_form N from_value url params)"
  unfolding request_form_def by (intro io_keeps)

lemma keeps_exchange:
  "returned (exchange_device_code N dev) w = (r, w') \<Longrightarrow> disk_files w' = disk_files w"
  using exchange_returns [of N dev w] preservesD [OF keeps_request_form [of "disk_files w" N live_token_of LIVE_TOKEN_URL]]
  by (metis exchange_device_code_def)

lemma keeps_poll [io_keeps]: "preserves (same_files files) (poll_token N dev expires_at interval)"
proof -
  have keep: "disk_files w' = disk_files w"
    if "poll_body N (returned (exchange_device_code N dev)) expires_at i w = (out, w')" for i out w w'
    using that
    by (auto simp: poll_body_def on_net_def Let_def split: prod.splits if_splits sum.splits dest!: keeps_exchange)
  have "io_loop (poll_body N (returned (exchange_device_code N dev)) expires_at) interval w = Some (r, w') \<Longrightarrow>
      same_files files w \<Longrightarrow> same_files files w'" for r w w'
    by (erule io_loop_rule [where I = "\<lambda>_. same_files files"]) (auto dest: keep)
  then show ?thesis by (auto simp: preserves_def poll_token_def)
qed

lemma keeps_login_session: "preserves (same_files files) (login_session C N state reauth open_browser)"
proof -
  have identity: "preserves (same_files files) (ensure_device_identity C state)"
    unfolding ensure_device_identity_def
    by (cases "device_id state") (auto intro!: io_keeps split: option.splits)
  have login: "preserves (same_files files) (login_device_code N open_browser)"
    unfolding login_device_code_def request_device_code_def maybe_open_browser_def
    by (intro io_keeps) (auto simp: preserves_def io_read_def)
  have acquire: "preserves (same_files files) (acquire_live_token N state reauth open_browser)" for state
    unfolding acquire_live_token_def refresh_live_token_def
    by (auto intro!: io_keeps login split: option.splits bool.splits sum.splits)
  have signed: "preserves (same_files files) (signed_json_post C N from_value url payload key headers)" for
    from_value :: "json \<Rightarrow> (string, 'x) res" and url payload key headers
    unfolding signed_json_post_def signature_header_def Let_def by (intro io_keeps)
  show ?thesis
    unfolding login_session_def authenticate_device_def sisu_authorize_def minecraft_launcher_login_def
      minecraft_profile_def Let_def
    by (auto intro!: io_keeps identity acquire signed)
qed

section \<open>All or nothing\<close>

lemma login_session_result:
  assumes "login_session C N state reauth open_browser w = Some (Inr (session, state'), w')"
  shows "state_version state' = STATE_VERSION \<and> refresh_token state' \<noteq> None \<and> last_updated_at state' \<noteq> None \<and>
    last_profile state' = Some \<lparr>profile_name = session_username session, profile_uuid = session_uuid session\<rparr>"
  using assms by (auto simp: login_session_def io_bind_eq_ok io_return_app Let_def)

lemma ensure_session_parts:
  assumes "ensure_session C N F env account reauth open_browser w = Some (r, w')"
  shows "(\<exists>e. r = Inl e \<and> disk_files w' (state_path env account) = disk_files w (state_path env account)) \<or>
    (\<exists>session state contents. r = Inr session \<and> render_state F state = Inr contents \<and>
       disk_files w' (state_path env account) = Some (contents, 0x180) \<and>
       state_version state = STATE_VERSION \<and> refresh_token state \<noteq> None \<and> last_updated_at state \<noteq> None \<and>
       last_profile state = Some \<lparr>profile_name = session_username session, profile_uuid = session_uuid session\<rparr>)"
proof -
  let ?path = "state_path env account"
  consider (Load) e where "load_state F ?path w = Some (Inl e, w')" "r = Inl e"
    | (Login) state w1 e where "load_state F ?path w = Some (Inr state, w1)"
        "login_session C N state reauth open_browser w1 = Some (Inl e, w')" "r = Inl e"
    | (Save) state w1 session state' w2 q where "load_state F ?path w = Some (Inr state, w1)"
        "login_session C N state reauth open_browser w1 = Some (Inr (session, state'), w2)"
        "save_state F ?path state' w2 = Some (q, w')" "r = map_sum id (\<lambda>_. session) q"
    using assms unfolding ensure_session_def by (auto simp: io_bind_eq_Some io_return_app)
  then show ?thesis
  proof cases
    case Load
    then show ?thesis by (auto dest: load_state_keeps)
  next
    case Login
    then show ?thesis using preservesD [OF keeps_login_session Login(2), of "disk_files w1"]
      by (auto dest: load_state_keeps)
  next
    case Save
    have "disk_files w2 = disk_files w"
      using preservesD [OF keeps_login_session Save(2), of "disk_files w1"] load_state_keeps [OF Save(1)] by simp
    with save_state_atomic [OF Save(3) state_tmp_path] login_session_result [OF Save(2)] Save(4)
    show ?thesis by fastforce
  qed
qed

text \<open>
  C11: A login is saved completely or not at all. Whatever the servers answer and whichever
  file operation fails, a failing \<open>ensure\<close> leaves the account's state file as it was; after a
  successful one the file is readable by its owner only and holds a state of the current
  version with a refresh token and the profile that the session reports.
\<close>
theorem ensure_session_all_or_nothing:
  assumes "ensure_session C N F env account reauth open_browser w = Some (r, w')"
  shows "case r of
      Inl e \<Rightarrow> disk_files w' (state_path env account) = disk_files w (state_path env account)
    | Inr session \<Rightarrow> \<exists>state contents. render_state F state = Inr contents \<and>
        disk_files w' (state_path env account) = Some (contents, 0x180) \<and>
        state_version state = STATE_VERSION \<and> refresh_token state \<noteq> None \<and>
        last_profile state = Some \<lparr>profile_name = session_username session, profile_uuid = session_uuid session\<rparr>"
  using ensure_session_parts [OF assms] by (elim disjE exE conjE; simp) blast

text \<open>
  \<open>show\<close> reports the last login. After a successful \<open>ensure\<close>, when \<open>serde_json\<close> parses
  what it printed and the disk works, \<open>show\<close> of the same account prints the name and the
  UUID of that session, and a time of update.
\<close>
theorem show_after_ensure:
  assumes run: "ensure_session C N F env account reauth open_browser w = Some (Inr session, w')"
    and serde: "\<And>state contents. render_state F state = Inr contents \<Longrightarrow> parse_state F contents = Inr state"
    and disk: "disk_faults w' = []"
  shows "\<exists>updated_at. show_state F env account w' = Some (Inr
    \<lparr>show_path = state_path env account,
     show_last_profile = Some \<lparr>profile_name = session_username session, profile_uuid = session_uuid session\<rparr>,
     show_last_updated_at = Some updated_at\<rparr>, w')"
proof -
  let ?path = "state_path env account"
  obtain state contents where s: "render_state F state = Inr contents" "disk_files w' ?path = Some (contents, 0x180)"
      "state_version state = STATE_VERSION" "last_updated_at state \<noteq> None"
      "last_profile state = Some \<lparr>profile_name = session_username session, profile_uuid = session_uuid session\<rparr>"
    using ensure_session_parts [OF run] by auto
  have same: "w'\<lparr>disk_faults := []\<rparr> = w'" using disk by (cases w') simp
  have "fs_read ?path w' = Some (Inr contents, w')"
    using s(2) disk by (simp add: fs_read_def on_file_def disk_op_def io_bind_def same)
  then have "load_state F ?path w' = Some (Inr state, w')"
    using s(2,3) serde [OF s(1)]
    by (simp add: load_state_def fs_exists_def io_bind_def io_lift_app io_return_app STATE_VERSION_def)
  then show ?thesis using s by (auto simp: show_state_def fs_exists_def io_bind_def io_return_app Let_def)
qed

section \<open>What a signature covers\<close>

lemma bytes_of_inj: "bytes_of s = bytes_of t \<Longrightarrow> s = t"
proof -
  have "code c = code d" if "(word_of_nat (code c) :: byte) = word_of_nat (code d)" for c d
  proof -
    have "unat (word_of_nat (code e) :: byte) = code e" for e
      using code_less [of e] by (simp add: unsigned_of_nat take_bit_eq_mod)
    then show ?thesis using that by metis
  qed
  then have "inj (\<lambda>c. word_of_nat (code c) :: byte)" by (auto simp: inj_def)
  then show "bytes_of s = bytes_of t \<Longrightarrow> s = t" by (simp add: bytes_of_def inj_map_eq_map)
qed

lemma u64_bytes_inj: "u64_bytes v = u64_bytes w \<Longrightarrow> v = w"
proof -
  assume eq: "u64_bytes v = u64_bytes w"
  have byte: "bit v n = bit w n" if "(ucast (drop_bit k v) :: byte) = ucast (drop_bit k w)" "k \<le> n" "n < k + 8" for k n
  proof -
    have "bit (ucast (drop_bit k v) :: byte) (n - k) = bit (ucast (drop_bit k w) :: byte) (n - k)" using that(1) by simp
    moreover have "n - k < 8" using that(2,3) by linarith
    ultimately show ?thesis using that(2) by (simp add: bit_ucast_iff bit_drop_bit_eq)
  qed
  have "bit v n = bit w n" if "n < 64" for n
  proof -
    have "8 * (n div 8) \<le> n" "n < 8 * (n div 8) + 8" by presburger+
    moreover have "(ucast (drop_bit (8 * (n div 8)) v) :: byte) = ucast (drop_bit (8 * (n div 8)) w)"
    proof -
      have "\<forall>i \<in> set [7, 6, 5, 4, 3, 2, 1, 0]. (ucast (drop_bit (8 * i) v) :: byte) = ucast (drop_bit (8 * i) w)"
        using eq unfolding u64_bytes_def map_eq_conv .
      moreover have "n div 8 < 8" using that by presburger
      then have "n div 8 \<in> {0, 1, 2, 3, 4, 5, 6, 7}" by auto
      ultimately show ?thesis by auto
    qed
    ultimately show ?thesis by (intro byte)
  qed
  then show "v = w" by (intro bit_word_eqI) simp
qed

lemma append_sep_eq:
  assumes "xs @ a # ys = xs' @ a # ys'" "a \<notin> set xs" "a \<notin> set xs'"
  shows "xs = xs' \<and> ys = ys'"
  using assms by (simp add: append_eq_append_conv2) (auto simp: append_eq_Cons_conv Cons_eq_append_conv)

lemma nul_free_bytes: "CHR 0x00 \<notin> set s \<Longrightarrow> 0 \<notin> set (bytes_of s)"
proof -
  assume nul: "CHR 0x00 \<notin> set s"
  have "bytes_of [CHR 0x00] = [0]" by (simp add: bytes_of_def code_def)
  then have "word_of_nat (code c) = (0 :: byte) \<Longrightarrow> c = CHR 0x00" for c
    using bytes_of_inj [of "[c]" "[CHR 0x00]"] by (simp add: bytes_of_def)
  then show "0 \<notin> set (bytes_of s)" using nul by (auto simp: bytes_of_def)
qed

abbreviation nul_free :: "string \<Rightarrow> bool" where
  "nul_free s \<equiv> CHR 0x00 \<notin> set s"

text \<open>
  C13: A signature is for one request only. Two requests whose signed bytes are equal have the
  same time stamp, method, path with query, authorization (an empty one counts as none) and
  body, as long as no field but the body holds a NUL, which the program uses to separate
  them.
\<close>
theorem signed_payload_unambiguous:
  assumes eq: "signed_payload timestamp meth path authorization body =
      signed_payload timestamp' meth' path' authorization' body'"
    and nul: "nul_free meth" "nul_free meth'" "nul_free path" "nul_free path'"
      "nul_free (case authorization of Some v \<Rightarrow> v | None \<Rightarrow> [])"
      "nul_free (case authorization' of Some v \<Rightarrow> v | None \<Rightarrow> [])"
  shows "timestamp = timestamp' \<and> meth = meth' \<and> path = path' \<and>
    (case authorization of Some v \<Rightarrow> v | None \<Rightarrow> []) = (case authorization' of Some v \<Rightarrow> v | None \<Rightarrow> []) \<and> body = body'"
proof -
  define auth where "auth = (case authorization of Some v \<Rightarrow> v | None \<Rightarrow> [])"
  define auth' where "auth' = (case authorization' of Some v \<Rightarrow> v | None \<Rightarrow> [])"
  have a: "(case authorization of Some v \<Rightarrow> bytes_of v | None \<Rightarrow> []) = bytes_of auth"
    "(case authorization' of Some v \<Rightarrow> bytes_of v | None \<Rightarrow> []) = bytes_of auth'"
    by (simp_all add: auth_def auth'_def bytes_of_def split: option.split)
  have len: "length (u64_bytes timestamp) = length (u64_bytes timestamp')" by (simp add: u64_bytes_def)
  have split: "u64_bytes timestamp = u64_bytes timestamp'"
    "bytes_of meth @ 0 # bytes_of path @ 0 # bytes_of auth @ 0 # body @ [0] =
     bytes_of meth' @ 0 # bytes_of path' @ 0 # bytes_of auth' @ 0 # body' @ [0]"
    using eq len by (simp_all add: signed_payload_def version_bytes_def a)
  have m: "bytes_of meth = bytes_of meth'"
    "bytes_of path @ 0 # bytes_of auth @ 0 # body @ [0] = bytes_of path' @ 0 # bytes_of auth' @ 0 # body' @ [0]"
    using append_sep_eq [OF split(2)] nul by (simp_all add: nul_free_bytes)
  have p: "bytes_of path = bytes_of path'" "bytes_of auth @ 0 # body @ [0] = bytes_of auth' @ 0 # body' @ [0]"
    using append_sep_eq [OF m(2)] nul by (simp_all add: nul_free_bytes)
  have "bytes_of auth = bytes_of auth'" "body @ [0] = body' @ [0]"
    using append_sep_eq [OF p(2)] nul by (simp_all add: nul_free_bytes auth_def auth'_def)
  then show ?thesis
    using u64_bytes_inj [OF split(1)] bytes_of_inj [OF m(1)] bytes_of_inj [OF p(1)] bytes_of_inj
    by (auto simp: auth_def auth'_def)
qed

theorem signed_payload_unambiguous_witness:
  "signed_payload 132539328000000000 ''POST'' ''/authorize'' None [1, 0, 2] =
     signed_payload 132539328000000000 ''POST'' ''/authorize'' (Some []) [1, 0, 2] \<and>
   concat [] = ([] :: string) \<and> [1, 0, 2 :: byte] = [1, 0, 2]"
proof -
  have eq: "signed_payload 132539328000000000 ''POST'' ''/authorize'' None [1, 0, 2] =
     signed_payload 132539328000000000 ''POST'' ''/authorize'' (Some []) [1, 0, 2]"
    by (simp add: signed_payload_def bytes_of_def)
  have "(132539328000000000 :: 64 word) = 132539328000000000 \<and> ''POST'' = ''POST'' \<and> ''/authorize'' = ''/authorize'' \<and>
    (case None of Some v \<Rightarrow> v | None \<Rightarrow> []) = (case Some ([] :: string) of Some v \<Rightarrow> v | None \<Rightarrow> []) \<and> [1, 0, 2 :: byte] = [1, 0, 2]"
    by (rule signed_payload_unambiguous [OF eq]) simp_all
  then show ?thesis using eq by simp
qed

section \<open>A login\<close>

text \<open>A saved refresh token, and servers that answer each request of the chain.\<close>

definition demo_crypto :: "(nat, nat) crypto" where
  "demo_crypto =
     \<lparr>uuid_parse = Inr, uuid_new = (\<lambda>n. (''uuid'', n)), key_from_pem = (\<lambda>pem. Inr 7), key_new = (\<lambda>n. (7, n)),
      key_to_pem = (\<lambda>k. Inr ''pem''), key_x = (\<lambda>k. []), key_y = (\<lambda>k. []), sha256 = id,
      sign_prehash = (\<lambda>k digest. Inr []), base64 = (\<lambda>bytes. ''b64''), base64_url = (\<lambda>bytes. ''b64''),
      parse_url = (\<lambda>url. Inr (''/'', None))\<rparr>"

definition demo_servers :: "nat network" where
  "demo_servers =
     \<lparr>net_send = (\<lambda>request n. (Inr \<lparr>http_status = 200, http_text = Inr (http_url request)\<rparr>, n + 1)),
      net_now = (\<lambda>n. (word_of_nat n, n)), net_sleep = (\<lambda>s n. n), net_open_browser = (\<lambda>url n. n),
      parse_json = (\<lambda>text. Inr (JObject
        (if text = LIVE_TOKEN_URL then [(''access_token'', JString ''msa''), (''refresh_token'', JString ''next'')]
         else if text = XBOX_DEVICE_AUTH_URL then [(''Token'', JString ''device'')]
         else if text = XBOX_SISU_URL then
           [(''AuthorizationToken'', JObject [(''Token'', JString ''xsts''),
              (''DisplayClaims'', JObject [(''xui'', JArray [JObject [(''uhs'', JString ''hash'')]])])])]
         else if text = MINECRAFT_LAUNCHER_LOGIN_URL then
           [(''access_token'', JString ''mc''), (''expires_in'', JNumber (PosInt 60))]
         else [(''id'', JString ''0123456789abcdef0123456789abcdef''), (''name'', JString ''Steve'')]))),
      print_json = (\<lambda>j. Inr ''json''), form_encode = (\<lambda>params. Inr ''form'')\<rparr>"

text \<open>One state prints as \<open>new\<close>; only that text parses, and it parses as that state.\<close>

definition demo_saved :: auth_state where
  "demo_saved = default_state\<lparr>refresh_token := Some ''next'', device_id := Some ''uuid'', device_key_pem := Some ''pem'',
     last_profile := Some \<lparr>profile_name = ''Steve'', profile_uuid = ''01234567-89ab-cdef-0123-456789abcdef''\<rparr>,
     last_updated_at := Some 5\<rparr>"

definition demo_format :: state_format where
  "demo_format =
     \<lparr>parse_state = (\<lambda>text. if text = ''new'' then Inr demo_saved
        else Inr (default_state\<lparr>refresh_token := Some ''old'', device_id := Some ''uuid'', device_key_pem := Some ''pem''\<rparr>)),
      render_state = (\<lambda>state. if state = demo_saved then Inr ''new'' else Inl ''other'')\<rparr>"

definition demo_disk :: "nat auth_world" where
  "demo_disk = \<lparr>disk_files = [state_path (\<lambda>_. None) ''default'' \<mapsto> (''old'', 0x180)], disk_faults = [], net = 0\<rparr>"

definition demo_ensure :: "((auth_error, session_output) res \<times> nat auth_world) option" where
  "demo_ensure = ensure_session demo_crypto demo_servers demo_format (\<lambda>_. None) ''default'' False True demo_disk"

lemma demo_ensure:
  obtains session w where "demo_ensure = Some (Inr session, w)" "disk_faults w = []" "session_username session = ''Steve''"
proof -
  have c: "case demo_ensure of Some (Inr session, w) \<Rightarrow> disk_faults w = [] \<and> session_username session = ''Steve'' | _ \<Rightarrow> False"
    by code_simp
  then obtain q w where run: "demo_ensure = Some (q, w)" by (cases demo_ensure) auto
  obtain session where q: "q = Inr session" using c unfolding run by (cases q) simp_all
  from c [unfolded run q] show thesis by (intro that [OF run [unfolded q]]) simp_all
qed

theorem ensure_session_all_or_nothing_witness:
  "\<exists>session w state contents. demo_ensure = Some (Inr session, w) \<and> render_state demo_format state = Inr contents \<and>
     disk_files w (state_path (\<lambda>_. None) ''default'') = Some (contents, 0x180) \<and> refresh_token state \<noteq> None"
proof -
  obtain session w where run: "demo_ensure = Some (Inr session, w)" by (rule demo_ensure)
  obtain state contents where "render_state demo_format state = Inr contents"
      "disk_files w (state_path (\<lambda>_. None) ''default'') = Some (contents, 0x180)" "refresh_token state \<noteq> None"
    using ensure_session_all_or_nothing [OF run [unfolded demo_ensure_def]] by auto
  with run show ?thesis by (intro exI conjI)
qed

theorem show_after_ensure_witness:
  "\<exists>session w shown. demo_ensure = Some (Inr session, w) \<and>
     show_state demo_format (\<lambda>_. None) ''default'' w = Some (Inr shown, w) \<and>
     map_option profile_name (show_last_profile shown) = Some ''Steve''"
proof -
  obtain session w where run: "demo_ensure = Some (Inr session, w)" "disk_faults w = []" "session_username session = ''Steve''"
    by (rule demo_ensure)
  have "render_state demo_format state = Inr contents \<Longrightarrow> parse_state demo_format contents = Inr state" for state contents
    by (auto simp: demo_format_def split: if_splits)
  from show_after_ensure [OF run(1) [unfolded demo_ensure_def] this run(2)]
  obtain shown where "show_state demo_format (\<lambda>_. None) ''default'' w = Some (Inr shown, w)"
      "show_last_profile shown = Some \<lparr>profile_name = session_username session, profile_uuid = session_uuid session\<rparr>"
    by auto
  with run show ?thesis by (intro exI [of _ session] exI [of _ w] exI [of _ shown]) simp
qed

end
