(* ===== verification/Spec2Isabelle.thy ===== *)
theory Spec2Isabelle
  imports Sync_Flash Sync_Watch Sync_Report Editor_Sync Viewer_Sockets Viewer_Window Viewer_Theme Editor_Main Editor_Window Dashboard_Preview Auth_Session
begin

text \<open>
  Verification library for the Rust programs of this repository, a NixOS configuration with
  five small programs of its own. All paths are below \<open>src/\<close>.

  \<^bold>\<open>The programs.\<close>

  \<^item> \<open>packages/silakka54/sync\<close>, the tool \<open>silakka54-sync\<close>: validates the keyboard's configuration,
    writes its keymap, layout options and macros over raw HID, reads the state of connected
    keyboards, reconciles them when they are plugged in, and flashes firmware. The C firmware
    beside it answers its requests.
  \<^item> \<open>pkgs/keyboard-layer-viewer\<close>: an overlay that shows the keyboard's current layer, driven by
    HID reports, key events, a control socket and Hyprland.
  \<^item> \<open>pkgs/keymap-editor\<close>: a GTK editor of the configuration file that the sync tool reads.
  \<^item> \<open>pkgs/shrimpus-dashboard\<close>: date, Wi-Fi and weather on a three-colour panel, whose kernel
    driver is in \<open>modules/nixos/orangepi-zero2w/ssd16xx\<close>.
  \<^item> \<open>pkgs/minecraft-auth\<close>: a Microsoft and Xbox login that keeps its tokens in a state file.

  They meet in the configuration file (written by the editor, expanded and applied by the sync
  tool), in the key labels (editor and overlay have tables of their own), in the HID protocol
  (sync tool, overlay and firmware), and in the picture of the panel (preview and driver).

  \<^bold>\<open>How code is modelled.\<close> \<open>Sys_Prelude\<close> has the conventions. A plain fallible function returns
  \<open>('e, 'a) res\<close>, a sum with the error at the left; one that talks to the outside world is an \<open>io\<close>:
  from a world to \<open>None\<close> when it does not return, or to a result and the next world. Errors are
  constructors of a datatype per program; their wording is kept where the program looks at it.
  Machine integers are words, a \<open>usize\<close> that only counts is a \<open>nat\<close>. A \<open>String\<close> is its UTF-8
  bytes (\<open>Rust_Strings\<close>, \<open>Rust_Text\<close>, \<open>Rust_Utf8\<close>). A panic is a value (\<open>None\<close> of a handler, or a
  constructor), so that its absence is proved. A loop that need not end is \<open>io_loop\<close> or another
  \<open>partial_function\<close>, and a theorem says when it returns.

  \<^bold>\<open>Theories of silakka54-sync\<close> (\<open>packages/silakka54/sync/src/main.rs\<close>). \<open>Keycodes\<close>:
  \<open>resolve_keycode\<close> and \<open>describe_keycode\<close>. \<open>Layer_Config\<close>: the configuration, its
  validation and its expansion to key entries. \<open>Keymap_Table\<close>: the packaged table.
  \<open>Macro_Buffer\<close>: the VIA macro buffer. \<open>Hid_Transport\<close>: \<open>raw_transaction\<close> over a transport;
  \<open>Hid_Link\<close>: a keyboard behind a link that loses, delays and repeats reports, and sends
  some unasked. \<open>Device_Ops\<close>: the requests; \<open>Device_Sync\<close>: writing a keymap;
  \<open>Device_Status\<close>: probing, drift, layout options and macros; \<open>Firmware\<close>: \<open>via_command_kb\<close>
  and the layer reports of the C firmware; \<open>Device_Protocol\<close>: tool and firmware together.
  \<open>Sync_Args\<close>: the command lines. \<open>Sync_Commands\<close>, \<open>Sync_Config\<close>, \<open>Sync_Layer\<close>,
  \<open>Sync_Apply\<close>, \<open>Sync_Watch\<close> and \<open>Sync_Flash\<close>: the commands, over a host that reads and
  writes files, lists and opens HID devices, and for \<open>flash\<close> has volumes, a clock and a
  terminal. \<open>Sync_Report\<close>: the lines of \<open>status\<close> and \<open>check\<close>, the help text, the prompt and
  the exit code. \<open>Config_Json\<close>: the configuration as JSON values, the way serde derives it
  from the structs.

  \<^bold>\<open>Theories of the overlay\<close> (\<open>pkgs/keyboard-layer-viewer/source/src/main.rs\<close>).
  \<open>Viewer_State\<close>: the window's state, every event and the timer. \<open>Viewer_Bindings\<close>: the
  legend of every key. \<open>Viewer_Input\<close>: HID and key events, device discovery, the control
  commands, Hyprland's event stream. \<open>Viewer_Sockets\<close>: the control socket as the system
  calls of several processes, a step relation, with the connections to Hyprland and the loop
  over input devices. \<open>Viewer_Config\<close>: arguments, profiles, layers and \<open>main\<close>.
  \<open>Viewer_Placement\<close>: the answers of \<open>hyprctl\<close> and the place of the window. \<open>Viewer_Window\<close>:
  \<open>build_ui\<close> and the timer. \<open>Viewer_Geometry\<close>, \<open>Text_Fit\<close> and \<open>Viewer_Theme\<close>: what is drawn,
  where, and in which colours.

  \<^bold>\<open>Theories of the editor\<close> (\<open>pkgs/keymap-editor/main.rs\<close>). \<open>Editor_Labels\<close>: labels, their
  keycodes and the tap-hold form. \<open>Editor_File\<close>: loading and saving the JSON file.
  \<open>Editor_App\<close>: the window as the values its widgets hold, with every signal handler.
  \<open>Editor_Main\<close>: arguments and start. \<open>Editor_Drawing\<close>: the geometry of the keys, clicks and
  colours. \<open>Editor_Window\<close>: the widget tree, the table of signal connections, the selectors'
  rows, drawing and the preview image. \<open>Editor_Sync\<close>: editor, configuration file, sync tool
  and keyboard together.

  \<^bold>\<open>Theories of the dashboard\<close> (\<open>pkgs/shrimpus-dashboard/src\<close>). \<open>Dashboard_Weather\<close>:
  forecasts and the cache. \<open>Dashboard_Loop\<close>: snapshots, the refresh thread for any number of
  rounds, and what is shown. \<open>Dashboard_Preview\<close>: \<open>preview.rs\<close>, and \<open>ssd16xx_convert\<close> of the
  panel driver.

  \<^bold>\<open>Theories of minecraft-auth\<close> (\<open>pkgs/minecraft-auth/src/main.rs\<close>). \<open>Auth_State\<close>: the state
  file on a disk whose operations may fail. \<open>Auth_Login\<close>: requests and the device-code
  login. \<open>Auth_Session\<close>: device identity, signed requests, the chain of tokens, and \<open>main\<close>.

  \<^bold>\<open>Interfaces.\<close> \<open>keycode_store\<close> and \<open>live_store\<close> (\<open>Device_Sync\<close>) state what the
  synchronisation needs of its get and set requests; the requests over an unreliable link to
  a VIA keyboard interpret both. \<open>timed_transport\<close> (\<open>Hid_Transport\<close>) states what makes a
  transaction end; the link interprets it. \<open>codec\<close> is interpreted by the integers of a
  report, the macro buffer, the hold rows of the editor and the configuration as JSON;
  \<open>event_machine\<close> by the overlay, its reader threads, the loop over input devices and the
  editor window; \<open>step_invariant\<close> (\<open>Viewer_Sockets\<close>) by the processes at the control socket;
  \<open>notification_store\<close> by a disk with faults. QMK's dynamic keymap is not in the repository:
  \<open>via_keymap\<close>, \<open>via_answers\<close> and \<open>keymap_safe\<close> state its documented behaviour, and a small
  VIA core satisfies them.

  \<^bold>\<open>What is proved.\<close> For the sync tool: validation is equivalent to a declarative reading;
  entries are complete and address a key once; a described keycode resolves to itself; the
  macro buffer round-trips; a transaction ends and answers its own request; over any link,
  \<open>apply\<close> leaves each key with its old or its configured keycode, and with the configured
  one on success; on a good link it succeeds; a snapshot resolves back to the keyboard's
  keycodes; a layer command moves the keyboard; only the chosen half is sent to its
  bootloader, and flashing succeeds only when that half was verified; a stale state prompts
  at most once; the report says what the check finds. For the overlay: from its start on it
  never panics, only one serves the control socket when starts do not overlap, it takes up a
  lost connection to Hyprland again, stays hidden during games, hides in time, does not
  depend on how a stream is cut, stays on its monitor, leaves the focused window free, draws
  every key within the window, and follows the firmware's layer reports. For the editor: no
  event sequence panics and the window always draws every key, saving is all or nothing and
  reads back, its legends are the overlay's, tap-hold values mean in the sync tool what they
  show, every key can be clicked, what was edited is on the keyboard after \<open>apply\<close>, and a
  snapshot of a keyboard opens in the editor. For the dashboard: no forecast of another day
  is shown, fetches follow their schedule, the preview has the panel's colours. For
  minecraft-auth: a login is saved completely and privately or not at all, the device-code
  loop ends and keeps its interval, a signature is for one request.

  \<^bold>\<open>Bounds.\<close> No fuel is used. Loops that may not end are \<open>io_loop\<close> (transactions, waiting for a
  volume, the device-code login) and \<open>verify_flash\<close>; their theorems assume a clock that advances.
  The watch and refresh threads, which have no end, run for any number of rounds. The descriptions
  of \<open>f64\<close> geometry are exact rationals, and sines and cosines a parameter: theorems about positions
  do not cover the rounding of floating-point arithmetic.

  \<^bold>\<open>Parameters.\<close> Parsers and printers of JSON, YAML, numbers and dates (serde, chrono), HTTP, D-Bus,
  hidapi, the file system and its faults, process execution, cryptography (SHA-256, P-256,
  base64, UUIDs), the measuring of text by cairo, and Unicode case mapping. What a theorem needs
  of one is a hypothesis, which its witness instantiates with a concrete function.

  \<^bold>\<open>Not modelled.\<close> The text of JSON and YAML files (only their values); GTK and Slint themselves,
  their CSS, alignments and sizes, the foreign functions the editor declares, the calls of cairo
  and the encoding of PNG; desktop notifications beyond their success; the D-Bus proxies of
  NetworkManager beyond their answers; the SPI transfers and the other pixel formats of the panel
  driver; the firmware of the keyboard beyond the commands of \<open>Firmware\<close>; the build script
  \<open>pkgs/shrimpus-dashboard/build.rs\<close>, which only prints directives for Cargo; unit tests. The Nix
  and shell files of the repository are configuration.
\<close>

end
